(* ===== verification/Timongo_Prelude.thy ===== *)
theory Timongo_Prelude
  imports
    Main
    "HOL-Library.AList"
    "HOL-Library.Multiset"
    "HOL-Library.Word"
    "HOL-Library.Char_ord"
    "HOL-Library.List_Lexorder"
    "HOL-Library.Code_Target_Nat"
begin

text \<open>
  Shared ground of the development: the result type of fallible Go code, Go strings as byte
  lists with the parts of \<^verbatim>\<open>strings\<close> and \<^verbatim>\<open>strconv\<close> the program calls, Go maps as
  association lists, and \<^verbatim>\<open>sort.SliceStable\<close>. Everything here models the language and its
  standard library, except the constructor \<open>MongoError\<close> of \<open>goerr\<close>, which is the struct of \<^verbatim>\<open>internal/mongoerrors/errors.go\<close>.
\<close>

section \<open>Results: values, errors, panics\<close>

text \<open>
  A Go function that returns \<open>(T, error)\<close> may return normally, return an error, or panic.
  No function of the program recovers from a panic, so \<open>Panic\<close> is the end of the process.
  A MongoDB-style error (\<^verbatim>\<open>internal/mongoerrors/errors.go\<close>) carries its numeric code and its
  name; every other error is known by its message.
\<close>

datatype goerr =
    MongoError (err_code: int) (err_name: string) (err_msg: string)
  | PlainError (err_msg: string)

datatype 'a res = Ok 'a | Err goerr | Panic string

fun bindR :: "'a res \<Rightarrow> ('a \<Rightarrow> 'b res) \<Rightarrow> 'b res" where
  "bindR (Ok x) f = f x"
| "bindR (Err e) f = Err e"
| "bindR (Panic p) f = Panic p"

fun mapR :: "('a \<Rightarrow> 'b) \<Rightarrow> 'a res \<Rightarrow> 'b res" where
  "mapR f (Ok x) = Ok (f x)"
| "mapR f (Err e) = Err e"
| "mapR f (Panic p) = Panic p"

fun is_Ok :: "'a res \<Rightarrow> bool" where
  "is_Ok (Ok _) = True"
| "is_Ok _ = False"

fun is_Panic :: "'a res \<Rightarrow> bool" where
  "is_Panic (Panic _) = True"
| "is_Panic _ = False"

named_theorems res_simps \<open>how results compose\<close>

lemma bindR_eq_Ok [res_simps]: "bindR m f = Ok y \<longleftrightarrow> (\<exists>x. m = Ok x \<and> f x = Ok y)"
  by (cases m) auto

lemma mapR_eq_Ok [res_simps]: "mapR f m = Ok y \<longleftrightarrow> (\<exists>x. m = Ok x \<and> y = f x)"
  by (cases m) auto

lemma is_Ok_iff [res_simps]: "is_Ok m \<longleftrightarrow> (\<exists>x. m = Ok x)"
  by (cases m) auto

lemma is_Panic_bindR [res_simps]:
  "is_Panic (bindR m f) \<longleftrightarrow> is_Panic m \<or> (\<exists>x. m = Ok x \<and> is_Panic (f x))"
  by (cases m) auto

lemma is_Panic_mapR [res_simps, simp]: "is_Panic (mapR f m) = is_Panic m"
  by (cases m) auto

lemma bindR_assoc: "bindR (bindR m f) g = bindR m (\<lambda>x. bindR (f x) g)"
  by (cases m) auto

lemma mapR_bindR: "mapR f (bindR m g) = bindR m (\<lambda>x. mapR f (g x))"
  by (cases m) auto

text \<open>A loop whose body may fail: the first failing iteration ends it.\<close>

fun foldR :: "('a \<Rightarrow> 'b \<Rightarrow> 'b res) \<Rightarrow> 'a list \<Rightarrow> 'b \<Rightarrow> 'b res" where
  "foldR f [] s = Ok s"
| "foldR f (x # xs) s = bindR (f x s) (foldR f xs)"

lemma foldR_append: "foldR f (xs @ ys) s = bindR (foldR f xs s) (foldR f ys)"
proof (induction xs arbitrary: s)
  case (Cons x xs)
  then show ?case by (cases "f x s") auto
qed simp

lemma foldR_all_Ok: "foldR f xs s = Ok t \<Longrightarrow> x \<in> set xs \<Longrightarrow> \<exists>s t. f x s = Ok t"
  by (induction xs arbitrary: s) (auto simp: res_simps)

lemma foldR_total: "(\<And>x s. \<exists>t. f x s = Ok t) \<Longrightarrow> \<exists>t. foldR f xs s = Ok t"
proof (induction xs arbitrary: s)
  case (Cons x xs)
  from Cons.prems obtain t where "f x s = Ok t" by blast
  with Cons.IH [OF Cons.prems, of t] show ?case by simp
qed simp

lemma foldR_invariant:
  assumes "foldR f xs s = Ok t" and "P s"
    and "\<And>x s t. x \<in> set xs \<Longrightarrow> P s \<Longrightarrow> f x s = Ok t \<Longrightarrow> P t"
  shows "P t"
  using assms
proof (induction xs arbitrary: s)
  case Nil
  then show ?case by simp
next
  case (Cons x xs)
  then obtain u where "f x s = Ok u" "foldR f xs u = Ok t"
    by (auto simp: res_simps)
  with Cons show ?case by (metis list.set_intros(1) list.set_intros(2))
qed

lemma foldR_no_panic:
  assumes "\<And>x s. x \<in> set xs \<Longrightarrow> \<not> is_Panic (f x s)"
  shows "\<not> is_Panic (foldR f xs s)"
  using assms
proof (induction xs arbitrary: s)
  case (Cons x xs)
  then have "\<not> is_Panic (f x s)" by simp
  with Cons show ?case by (cases "f x s") auto
qed simp

text \<open>
  An operation on a state returns its result together with the state it leaves, whether it
  succeeds or not; \<open>bindS\<close> runs one operation after another, \<open>foldS\<close> is a loop over a list.
\<close>

type_synonym ('s, 'a) action = "'s \<Rightarrow> 'a res \<times> 's"

definition bindS :: "('s, 'a) action \<Rightarrow> ('a \<Rightarrow> ('s, 'b) action) \<Rightarrow> ('s, 'b) action" where
  "bindS m f s =
     (case m s of (Ok x, s') \<Rightarrow> f x s' | (Err e, s') \<Rightarrow> (Err e, s') | (Panic p, s') \<Rightarrow> (Panic p, s'))"

definition returnS :: "'a \<Rightarrow> ('s, 'a) action" where
  "returnS x s = (Ok x, s)"

text \<open>A pure computation that may fail.\<close>

definition liftS :: "'a res \<Rightarrow> ('s, 'a) action" where
  "liftS r s = (r, s)"

fun foldS :: "('a \<Rightarrow> ('s, unit) action) \<Rightarrow> 'a list \<Rightarrow> ('s, unit) action" where
  "foldS f [] s = (Ok (), s)"
| "foldS f (x # xs) s = bindS (f x) (\<lambda>_. foldS f xs) s"

named_theorems action_simps \<open>how operations on a state run\<close>

lemma bindS_simps [action_simps]:
  "m s = (Ok x, s') \<Longrightarrow> bindS m f s = f x s'"
  "m s = (Err e, s') \<Longrightarrow> bindS m f s = (Err e, s')"
  "m s = (Panic p, s') \<Longrightarrow> bindS m f s = (Panic p, s')"
  by (simp_all add: bindS_def)

lemma returnS_apply [action_simps]: "returnS x s = (Ok x, s)"
  by (simp add: returnS_def)

lemma liftS_apply [action_simps]: "liftS r s = (r, s)"
  by (simp add: liftS_def)

lemma bindS_if: "bindS (if b then m else m') f s = (if b then bindS m f s else bindS m' f s)"
  by simp

lemma bindS_assoc: "bindS (bindS m f) g s = bindS m (\<lambda>x. bindS (f x) g) s"
  by (auto simp: bindS_def split: prod.split res.split)

lemma bindS_return: "bindS (returnS x) f s = f x s"
  by (simp add: bindS_def returnS_def)

lemma bindS_returnS: "bindS (returnS x) f = f x"
  by (rule ext) (rule bindS_return)

lemma bindS_lift_Ok: "bindS (liftS (Ok x)) f s = f x s"
  by (simp add: bindS_def liftS_def)

lemma bindS_lift_Err: "bindS (liftS (Err e)) f s = (Err e, s)"
  by (simp add: bindS_def liftS_def)

lemmas run_simps = bindS_assoc bindS_return bindS_lift_Ok bindS_lift_Err returnS_apply liftS_apply

lemma bindS_Ok:
  "bindS m f s = (Ok y, t) \<longleftrightarrow> (\<exists>x s'. m s = (Ok x, s') \<and> f x s' = (Ok y, t))"
  by (auto simp: bindS_def split: prod.splits res.splits)

lemma snd_bindS_invariant:
  assumes "P (snd (m s))" and "\<And>x s'. m s = (Ok x, s') \<Longrightarrow> P s' \<Longrightarrow> P (snd (f x s'))"
  shows "P (snd (bindS m f s))"
  using assms by (auto simp: bindS_def split: prod.splits res.splits)

lemma snd_foldS_invariant:
  assumes "P s" and "\<And>x s. x \<in> set xs \<Longrightarrow> P s \<Longrightarrow> P (snd (f x s))"
  shows "P (snd (foldS f xs s))"
  using assms
proof (induction xs arbitrary: s)
  case (Cons x xs)
  then have "P (snd (f x s))" by simp
  with Cons show ?case
    by (simp only: foldS.simps) (rule snd_bindS_invariant, auto)
qed simp

section \<open>Strings\<close>

text \<open>
  A Go string is a sequence of bytes, an Isabelle \<open>string\<close> a list of 8-bit characters; \<open><\<close> on
  strings is Go's: lexicographic by byte value.
\<close>

abbreviation starts_with :: "string \<Rightarrow> string \<Rightarrow> bool" where
  "starts_with p s \<equiv> take (length p) s = p"

text \<open>The bytes of a range, as in the character classes of regular expressions.\<close>

abbreviation between :: "char \<Rightarrow> char \<Rightarrow> char \<Rightarrow> bool" where
  "between lo hi c \<equiv> lo \<le> c \<and> c \<le> hi"

text \<open>\<^verbatim>\<open>strings.Split(s, sep)\<close> for a one-byte separator.\<close>

fun split_on :: "char \<Rightarrow> string \<Rightarrow> string list" where
  "split_on c [] = [[]]"
| "split_on c (x # xs) =
     (if x = c then [] # split_on c xs
      else case split_on c xs of [] \<Rightarrow> [[x]] | p # ps \<Rightarrow> (x # p) # ps)"

text \<open>\<^verbatim>\<open>strings.Cut(s, sep)\<close> for a one-byte separator: \<open>None\<close> is \<open>ok = false\<close>.\<close>

fun cut_on :: "char \<Rightarrow> string \<Rightarrow> (string \<times> string) option" where
  "cut_on c [] = None"
| "cut_on c (x # xs) =
     (if x = c then Some ([], xs)
      else map_option (\<lambda>(l, r). (x # l, r)) (cut_on c xs))"

lemma split_on_nonempty [simp]: "split_on c s \<noteq> []"
  by (induction s) (auto split: list.splits)

lemma split_on_single: "c \<notin> set s \<Longrightarrow> split_on c s = [s]"
  by (induction s) auto

lemma split_on_append: "split_on c (s @ c # s') = split_on c s @ split_on c s'"
  by (induction c s rule: split_on.induct) (auto split: list.split)

lemma cut_on_None: "cut_on c s = None \<longleftrightarrow> c \<notin> set s"
  by (induction s) auto

lemma cut_on_Some: "cut_on c s = Some (l, r) \<longleftrightarrow> s = l @ c # r \<and> c \<notin> set l"
proof (induction s arbitrary: l)
  case Nil
  then show ?case by simp
next
  case (Cons x xs)
  then show ?case by (cases l) auto
qed

text \<open>\<^verbatim>\<open>strings.TrimPrefix\<close>.\<close>

definition trim_prefix :: "string \<Rightarrow> string \<Rightarrow> string" where
  "trim_prefix p s = (if starts_with p s then drop (length p) s else s)"

text \<open>\<^verbatim>\<open>strconv.FormatInt(n, 10)\<close>, and \<^verbatim>\<open>%d\<close>.\<close>

definition digit_char :: "nat \<Rightarrow> char" where
  "digit_char d = char_of (48 + d)"

fun dec_nat :: "nat \<Rightarrow> string" where
  "dec_nat n = (if n < 10 then [digit_char n] else dec_nat (n div 10) @ [digit_char (n mod 10)])"

declare dec_nat.simps [simp del]

definition dec_int :: "int \<Rightarrow> string" where
  "dec_int i = (if i < 0 then CHR ''-'' # dec_nat (nat (- i)) else dec_nat (nat i))"

text \<open>The decimal text determines the number: parsing it back is the left inverse.\<close>

definition undec :: "string \<Rightarrow> nat" where
  "undec s = foldl (\<lambda>a c. a * 10 + (of_char c - 48)) 0 s"

lemma of_digit_char: "d < 10 \<Longrightarrow> of_char (digit_char d) = (48 + d :: nat)"
  by (simp add: digit_char_def)

lemma undec_dec_nat: "undec (dec_nat n) = n"
proof (induction n rule: dec_nat.induct)
  case (1 n)
  show ?case
  proof (cases "n < 10")
    case True
    then show ?thesis by (simp add: dec_nat.simps [of n] undec_def of_digit_char)
  next
    case False
    with "1.IH" show ?thesis
      by (simp add: dec_nat.simps [of n] undec_def of_digit_char)
  qed
qed

lemma dec_nat_digits: "c \<in> set (dec_nat n) \<Longrightarrow> \<exists>d < 10. c = digit_char d"
proof (induction n rule: dec_nat.induct)
  case (1 n)
  show ?case
  proof (cases "n < 10")
    case True
    with "1.prems" show ?thesis by (auto simp: dec_nat.simps [of n])
  next
    case False
    with "1.prems" have "c \<in> set (dec_nat (n div 10)) \<or> c = digit_char (n mod 10)"
      by (auto simp: dec_nat.simps [of n])
    moreover have "n mod 10 < 10" by simp
    ultimately show ?thesis using "1.IH" False by blast
  qed
qed

lemma digit_char_not_minus: "d < 10 \<Longrightarrow> digit_char d \<noteq> CHR ''-''"
proof
  assume "d < 10" and "digit_char d = CHR ''-''"
  then have "(48 + d :: nat) = of_char (CHR ''-'')" by (metis of_digit_char)
  then show False by simp
qed

lemma dec_nat_not_minus: "dec_nat n \<noteq> CHR ''-'' # s"
  by (metis dec_nat_digits digit_char_not_minus list.set_intros(1))

lemma dec_nat_inject [simp]: "dec_nat m = dec_nat n \<longleftrightarrow> m = n"
  by (metis undec_dec_nat)

lemma dec_nat_nonempty [simp]: "dec_nat n \<noteq> []"
  by (simp add: dec_nat.simps [of n])

lemma dec_int_inject [simp]: "dec_int i = dec_int j \<longleftrightarrow> i = j"
  by (auto simp: dec_int_def dec_nat_not_minus dec_nat_not_minus [symmetric] nat_eq_iff)

section \<open>Maps as association lists\<close>

text \<open>
  A Go map is an association list with distinct keys. A \<^verbatim>\<open>range\<close> loop visits the entries in an
  order the language does not fix; the order of the list is one such order, so a statement about
  every list with distinct keys is a statement about every order. \<open>m[k] = v\<close> is \<open>AList.update\<close>,
  \<open>delete(m, k)\<close> is \<open>AList.delete\<close>, \<open>v, ok := m[k]\<close> is \<open>map_of\<close>.
\<close>

abbreviation keys :: "('k \<times> 'v) list \<Rightarrow> 'k list" where
  "keys m \<equiv> map fst m"

abbreviation put :: "'k \<Rightarrow> 'v \<Rightarrow> ('k \<times> 'v) list \<Rightarrow> ('k \<times> 'v) list" where
  "put \<equiv> AList.update"

abbreviation del :: "'k \<Rightarrow> ('k \<times> 'v) list \<Rightarrow> ('k \<times> 'v) list" where
  "del \<equiv> AList.delete"

named_theorems map_simps \<open>lookups in updated maps\<close>

lemma map_of_put [map_simps]: "map_of (put k v m) = (map_of m)(k \<mapsto> v)"
  by (simp add: update_conv')

lemma map_of_del [map_simps]: "map_of (del k m) = (map_of m)(k := None)"
  by (simp add: delete_conv')

lemma distinct_put [map_simps]: "distinct (keys m) \<Longrightarrow> distinct (keys (put k v m))"
  by (rule distinct_update)

lemma distinct_del [map_simps]: "distinct (keys m) \<Longrightarrow> distinct (keys (del k m))"
  by (simp add: distinct_delete)

lemma put_new: "k \<notin> set (keys m) \<Longrightarrow> put k v m = m @ [(k, v)]"
  by (induction m) auto

lemma set_put_subset: "set (put k v m) \<subseteq> insert (k, v) (set m)"
  by (induction m) auto

lemma set_keys_put [map_simps]: "set (keys (put k v m)) = insert k (set (keys m))"
  by (induction m) auto

lemma set_keys_del [map_simps]: "set (keys (del k m)) = set (keys m) - {k}"
  by (induction m) auto

lemma mset_map_of_eq:
  assumes "mset m = mset m'" and "distinct (keys m)"
  shows "map_of m = map_of m'"
proof -
  have "distinct (keys m')"
    using assms by (metis mset_eq_imp_distinct_iff mset_map)
  moreover have "set m = set m'" using assms(1) by (rule mset_eq_setD)
  ultimately show ?thesis using assms(2) by (metis map_of_inject_set)
qed

lemma mset_pair: "mset xs = {#a, b#} \<Longrightarrow> xs = [a, b] \<or> xs = [b, a]"
  by (cases xs) (auto simp: add_eq_conv_diff)

lemma mset_del_row:
  "distinct (keys m) \<Longrightarrow> map_of m k = Some v \<Longrightarrow> mset (del k m) = mset m - {#(k, v)#}"
proof (induction m)
  case (Cons e m)
  show ?case
  proof (cases "fst e = k")
    case True
    then have "del k m = m" using Cons.prems(1) by (simp add: delete_id)
    with True Cons.prems(2) show ?thesis by (cases e) simp
  next
    case False
    then have v: "map_of m k = Some v" using Cons.prems(2) by (cases e) simp
    then have "(k, v) \<in># mset m" by (simp add: map_of_SomeD)
    with False v Cons show ?thesis by (cases e) (simp add: diff_union_swap2)
  qed
qed simp

lemma mset_del:
  assumes "distinct (keys m)" and "map_of m k = Some d"
  shows "mset (map snd (del k m)) = mset (map snd m) - {#d#}"
proof -
  have "(k, d) \<in># mset m" using map_of_SomeD [OF assms(2)] by simp
  with mset_del_row [OF assms] show ?thesis by (simp add: image_mset_Diff)
qed

lemma put_put_same: "put k v (put k w m) = put k v m"
  by (induction m) auto

lemma length_put: "length (put k v m) = (if k \<in> set (keys m) then length m else Suc (length m))"
  by (induction m) auto

section \<open>64-bit integers\<close>

lemma sint64_range: "- (2 ^ 63) \<le> sint (n :: 64 word)" "sint (n :: 64 word) < 2 ^ 63"
  using sint_ge [of n] sint_lt [of n] by simp_all

lemma sint64_uminus: "sint n \<noteq> - (2 ^ 63) \<Longrightarrow> sint (- n) = - sint (n :: 64 word)"
  using sint64_range [of n] by (simp add: signed_take_bit_int_eq_self sint_word_minus)

lemma sint64_of_int: "- (2 ^ 63) \<le> i \<Longrightarrow> i < 2 ^ 63 \<Longrightarrow> sint (word_of_int i :: 64 word) = i"
  unfolding sint_sbintrunc' by (rule signed_take_bit_int_eq_self) simp_all

lemma sint64_plus:
  "- (2 ^ 63) \<le> sint a + sint b \<Longrightarrow> sint a + sint b < 2 ^ 63 \<Longrightarrow> sint (a + b :: 64 word) = sint a + sint b"
  unfolding sint_word_add by (rule signed_take_bit_int_eq_self) simp_all

section \<open>Stable sorting\<close>

text \<open>
  \<^verbatim>\<open>sort.SliceStable(xs, less)\<close> moves each element left past its predecessors while it is lt
  than them. That is the library's algorithm for up to 20 elements; for longer slices the library
  merges sorted blocks of 20, which gives the same list whenever \<open>less\<close> is a strict weak order
  (a stable sort is then unique, \<open>stable_sort_unique\<close>). The accumulator is the sorted prefix,
  last element first.
\<close>

fun ins_stable :: "('a \<Rightarrow> 'a \<Rightarrow> bool) \<Rightarrow> 'a \<Rightarrow> 'a list \<Rightarrow> 'a list" where
  "ins_stable lt x [] = [x]"
| "ins_stable lt x (y # ys) = (if lt x y then y # ins_stable lt x ys else x # y # ys)"

definition slice_stable :: "('a \<Rightarrow> 'a \<Rightarrow> bool) \<Rightarrow> 'a list \<Rightarrow> 'a list" where
  "slice_stable lt xs = rev (foldl (\<lambda>acc x. ins_stable lt x acc) [] xs)"

text \<open>A strict weak order, the documented requirement of \<^verbatim>\<open>sort.SliceStable\<close>.\<close>

definition strict_weak :: "'a set \<Rightarrow> ('a \<Rightarrow> 'a \<Rightarrow> bool) \<Rightarrow> bool" where
  "strict_weak A lt \<longleftrightarrow>
     (\<forall>x \<in> A. \<not> lt x x) \<and>
     (\<forall>x \<in> A. \<forall>y \<in> A. \<forall>z \<in> A. lt x y \<longrightarrow> lt y z \<longrightarrow> lt x z) \<and>
     (\<forall>x \<in> A. \<forall>y \<in> A. \<forall>z \<in> A. lt x y \<longrightarrow> lt x z \<or> lt z y)"

lemma mset_ins_stable [simp]: "mset (ins_stable lt x ys) = add_mset x (mset ys)"
  by (induction ys) auto

lemma set_ins_stable [simp]: "set (ins_stable lt x ys) = insert x (set ys)"
  by (induction ys) auto

lemma mset_foldl_ins:
  "mset (foldl (\<lambda>acc x. ins_stable lt x acc) acc xs) = mset acc + mset xs"
  by (induction xs arbitrary: acc) auto

lemma mset_slice_stable [simp]: "mset (slice_stable lt xs) = mset xs"
  by (simp add: slice_stable_def mset_foldl_ins)

lemma length_slice_stable [simp]: "length (slice_stable lt xs) = length xs"
  by (metis mset_slice_stable size_mset)

lemma set_slice_stable [simp]: "set (slice_stable lt xs) = set xs"
  by (metis mset_slice_stable set_mset_mset)

lemma sorted_ins_stable:
  assumes "strict_weak A lt" and "x \<in> A" and "set ys \<subseteq> A"
    and "sorted_wrt (\<lambda>u v. \<not> lt u v) ys"
  shows "sorted_wrt (\<lambda>u v. \<not> lt u v) (ins_stable lt x ys)"
  using assms(3,4)
proof (induction ys)
  case (Cons y ys)
  show ?case
  proof (cases "lt x y")
    case True
    with assms(1,2) Cons.prems have "\<not> lt y x"
      unfolding strict_weak_def by (meson list.set_intros(1) subsetD)
    with True Cons show ?thesis by auto
  next
    case False
    with assms(1,2) Cons.prems have "\<forall>z \<in> set ys. \<not> lt x z"
      unfolding strict_weak_def
      by simp (metis subsetD)
    with False Cons.prems show ?thesis by auto
  qed
qed simp

lemma sorted_foldl_ins:
  assumes "strict_weak A lt" and "set xs \<subseteq> A" and "set acc \<subseteq> A"
    and "sorted_wrt (\<lambda>u v. \<not> lt u v) acc"
  shows "sorted_wrt (\<lambda>u v. \<not> lt u v) (foldl (\<lambda>acc x. ins_stable lt x acc) acc xs)"
  using assms(2-4)
proof (induction xs arbitrary: acc)
  case (Cons x xs)
  then show ?case using sorted_ins_stable [OF assms(1), of x acc] by simp
qed simp

lemma slice_stable_sorted:
  assumes "strict_weak (set xs) lt"
  shows "sorted_wrt (\<lambda>u v. \<not> lt v u) (slice_stable lt xs)"
  using sorted_foldl_ins [OF assms subset_refl, of "[]"]
  by (simp add: slice_stable_def sorted_wrt_rev)

text \<open>An order without ties has only one sorted list of given elements.\<close>

lemma sorted_wrt_unique:
  assumes "mset xs = mset ys" and "sorted_wrt R xs" and "sorted_wrt R ys"
    and "\<And>x y. x \<in> set xs \<Longrightarrow> y \<in> set xs \<Longrightarrow> R x y \<Longrightarrow> R y x \<Longrightarrow> x = y"
  shows "xs = ys"
  using assms
proof (induction xs arbitrary: ys)
  case (Cons x xs)
  then obtain y ys' where ys: "ys = y # ys'" by (cases ys) auto
  have set: "set (x # xs) = set (y # ys')" using mset_eq_setD [OF Cons.prems(1)] by (simp only: ys)
  have "x = y"
  proof (rule ccontr)
    assume "x \<noteq> y"
    with set have "y \<in> set xs" "x \<in> set ys'" by auto
    with Cons.prems(2-4) ys have "x = y" by auto
    with \<open>x \<noteq> y\<close> show False by contradiction
  qed
  moreover have "xs = ys'" by (rule Cons.IH) (use Cons.prems ys \<open>x = y\<close> in auto)
  ultimately show ?case by (simp add: ys)
qed simp

lemma slice_stable_unique:
  assumes "mset xs = mset ys" and "strict_weak (set xs) lt"
    and "\<And>x y. x \<in> set xs \<Longrightarrow> y \<in> set xs \<Longrightarrow> \<not> lt x y \<Longrightarrow> \<not> lt y x \<Longrightarrow> x = y"
  shows "slice_stable lt xs = slice_stable lt ys"
proof (rule sorted_wrt_unique)
  have "set ys = set xs" using mset_eq_setD [OF assms(1)] by simp
  with assms(2) show "sorted_wrt (\<lambda>u v. \<not> lt v u) (slice_stable lt ys)" by (intro slice_stable_sorted) simp
qed (use assms in \<open>auto intro: slice_stable_sorted\<close>)

text \<open>Elements neither of which is less than the other keep their order.\<close>

definition tied :: "('a \<Rightarrow> 'a \<Rightarrow> bool) \<Rightarrow> 'a \<Rightarrow> 'a \<Rightarrow> bool" where
  "tied lt x y \<longleftrightarrow> \<not> lt x y \<and> \<not> lt y x"

lemma filter_ins_stable_other:
  "\<not> P x \<Longrightarrow> filter P (ins_stable lt x ys) = filter P ys"
  by (induction ys) auto

lemma filter_ins_stable_tied:
  assumes "strict_weak A lt" and "z \<in> A" and "x \<in> A" and "set ys \<subseteq> A" and "tied lt z x"
  shows "filter (tied lt z) (ins_stable lt x ys) = x # filter (tied lt z) ys"
  using assms(4)
proof (induction ys)
  case (Cons y ys)
  have "lt x y \<Longrightarrow> \<not> tied lt z y"
    using assms Cons.prems unfolding strict_weak_def tied_def
    by (meson list.set_intros(1) subsetD)
  with Cons assms(5) show ?case by auto
qed (use assms(5) in simp)

lemma filter_foldl_ins:
  assumes "strict_weak A lt" and "z \<in> A" and "set xs \<subseteq> A" and "set acc \<subseteq> A"
  shows "filter (tied lt z) (foldl (\<lambda>acc x. ins_stable lt x acc) acc xs)
       = rev (filter (tied lt z) xs) @ filter (tied lt z) acc"
  using assms(3,4)
proof (induction xs arbitrary: acc)
  case (Cons x xs)
  then show ?case
    using filter_ins_stable_tied [OF assms(1,2), of x acc]
    by (cases "tied lt z x") (simp_all add: filter_ins_stable_other)
qed simp

lemma slice_stable_stable:
  assumes "strict_weak (set xs) lt" and "z \<in> set xs"
  shows "filter (tied lt z) (slice_stable lt xs) = filter (tied lt z) xs"
  using filter_foldl_ins [OF assms subset_refl, of "[]"]
  by (simp add: slice_stable_def rev_filter [symmetric])

lemma stable_sort_unique:
  assumes "strict_weak A lt"
    and "set xs \<subseteq> A" and "sorted_wrt (\<lambda>u v. \<not> lt v u) xs"
    and "set ys \<subseteq> A" and "sorted_wrt (\<lambda>u v. \<not> lt v u) ys"
    and "\<And>z. z \<in> A \<Longrightarrow> filter (tied lt z) xs = filter (tied lt z) ys"
  shows "xs = ys"
  using assms(2-)
proof (induction xs arbitrary: ys)
  case Nil
  have "y \<notin> set ys" for y
  proof
    assume y: "y \<in> set ys"
    then have "tied lt y y" using assms(1) Nil.prems(3) by (auto simp: strict_weak_def tied_def)
    moreover have "filter (tied lt y) ys = []" using Nil.prems(3,5) y by force
    ultimately show False using y by (simp add: filter_empty_conv)
  qed
  then show ?case by (cases ys) auto
next
  case (Cons x xs)
  have refl: "tied lt z z" if "z \<in> A" for z
    using assms(1) that by (auto simp: strict_weak_def tied_def)
  have x: "x \<in> A" using Cons.prems(1) by simp
  from Cons.prems(5) [OF x] refl [OF x] have "x \<in> set (filter (tied lt x) ys)" by (metis filter.simps(2) list.set_intros(1))
  then have xys: "x \<in> set ys" by simp
  then obtain y ys' where ys: "ys = y # ys'" by (cases ys) auto
  then have y: "y \<in> A" using Cons.prems(3) by simp
  from Cons.prems(5) [OF y] refl [OF y] ys have "y \<in> set (filter (tied lt y) (x # xs))" by simp
  then have "y \<in> set (x # xs)" by (metis filter_is_subset subsetD)
  then have "\<not> lt y x" using Cons.prems(2) refl [OF x] by (auto simp: tied_def)
  moreover have "\<not> lt x y" using xys ys Cons.prems(4) refl [OF y] by (auto simp: tied_def)
  ultimately have "tied lt x y" by (simp add: tied_def)
  with Cons.prems(5) [OF x] refl [OF x] ys have "x = y" by simp
  moreover have "xs = ys'"
  proof (rule Cons.IH)
    fix z assume "z \<in> A"
    from Cons.prems(5) [OF this] ys \<open>x = y\<close> show "filter (tied lt z) xs = filter (tied lt z) ys'"
      by (auto split: if_splits)
  qed (use Cons.prems ys in auto)
  ultimately show ?case using ys by simp
qed

end
