(* ===== verification/Go_Float.thy ===== *)
theory Go_Float
  imports Timongo_Prelude
begin

text \<open>
  IEEE 754 binary floating point as Go's \<^verbatim>\<open>float64\<close> and \<^verbatim>\<open>float32\<close> compute with it: a finite
  number is a sign, a mantissa and an exponent, every operation is the exact result rounded to
  nearest, ties to even, and nothing is approximated by reals. The theory also has the conversions
  the program relies on (\<^verbatim>\<open>float64(n)\<close>, \<^verbatim>\<open>int64(f)\<close>, \<^verbatim>\<open>int32(f)\<close>) and the shortest decimal text of
  \<^verbatim>\<open>strconv.FormatFloat(f, 'g', -1, bits)\<close>, which \<^verbatim>\<open>fmt\<close> prints for a float. It models the language
  and its standard library, so nothing in it stands for a file under \<^verbatim>\<open>src/\<close>.
\<close>

section \<open>Formats, values, rounding\<close>

datatype fpformat = Binary32 | Binary64

primrec fp_prec :: "fpformat \<Rightarrow> nat" where
  "fp_prec Binary32 = 24"
| "fp_prec Binary64 = 53"

primrec fp_emin :: "fpformat \<Rightarrow> int" where
  "fp_emin Binary32 = - 149"
| "fp_emin Binary64 = - 1074"

primrec fp_emax :: "fpformat \<Rightarrow> int" where
  "fp_emax Binary32 = 104"
| "fp_emax Binary64 = 971"

text \<open>\<open>Fin s m e\<close> is \<open>m * 2 ^ e\<close>, negative when \<open>s\<close>; \<open>Inf s\<close> is an infinity of that sign.\<close>

datatype fp = NaN | Inf bool | Fin bool nat int

fun nbits :: "nat \<Rightarrow> nat" where
  "nbits n = (if n = 0 then 0 else Suc (nbits (n div 2)))"

declare nbits.simps [simp del]

lemma nbits_0 [simp]: "nbits 0 = 0"
  by (simp add: nbits.simps)

lemma nbits_pos: "0 < n \<Longrightarrow> nbits n = Suc (nbits (n div 2))"
  by (simp add: nbits.simps [of n])

lemma nbits_upper: "n < 2 ^ nbits n"
proof (induction n rule: nbits.induct)
  case (1 n)
  show ?case
  proof (cases "n = 0")
    case False
    with 1 have "n div 2 < 2 ^ nbits (n div 2)" by simp
    with False show ?thesis by (simp add: nbits_pos)
  qed simp
qed

lemma nbits_lower: "0 < n \<Longrightarrow> 2 ^ (nbits n - 1) \<le> n"
proof (induction n rule: nbits.induct)
  case (1 n)
  show ?case
  proof (cases "n div 2 = 0")
    case True
    with "1.prems" have "n = 1" by simp
    then show ?thesis by (simp add: nbits_pos)
  next
    case False
    with 1 have "2 ^ (nbits (n div 2) - 1) \<le> n div 2" by simp
    moreover have "0 < nbits (n div 2)" using False by (simp add: nbits_pos)
    then have "(2::nat) ^ nbits (n div 2) = 2 * 2 ^ (nbits (n div 2) - 1)"
      by (metis Suc_pred' power_Suc)
    ultimately show ?thesis using "1.prems" by (simp add: nbits_pos)
  qed
qed

lemma nbits_le: "n < 2 ^ p \<Longrightarrow> nbits n \<le> p"
proof (cases "n = 0")
  case False
  assume "n < 2 ^ p"
  with nbits_lower [of n] False have "(2::nat) ^ (nbits n - 1) < 2 ^ p" by linarith
  then have "nbits n - 1 < p" by (rule power_less_imp_less_exp [rotated]) simp
  then show ?thesis by simp
qed simp

text \<open>\<open>floor_log2 n d\<close> is the \<open>k\<close> with \<open>2 ^ k \<le> n / d < 2 ^ (k + 1)\<close>.\<close>

definition floor_log2 :: "nat \<Rightarrow> nat \<Rightarrow> int" where
  "floor_log2 n d =
     (let k = int (nbits n) - int (nbits d)
      in if (if 0 \<le> k then d * 2 ^ nat k \<le> n else d \<le> n * 2 ^ nat (- k)) then k else k - 1)"

text \<open>\<open>n / d\<close> rounded to an integer, ties to even, as the mantissa at exponent \<open>e\<close>.\<close>

definition round_even :: "nat \<Rightarrow> nat \<Rightarrow> nat" where
  "round_even n d =
     (if d < 2 * (n mod d) \<or> (2 * (n mod d) = d \<and> n div d mod 2 = 1) then n div d + 1 else n div d)"

definition fp_pack :: "fpformat \<Rightarrow> bool \<Rightarrow> nat \<Rightarrow> int \<Rightarrow> fp" where
  "fp_pack F s q e =
     (let m = (if q = 2 ^ fp_prec F then 2 ^ (fp_prec F - 1) else q);
          e' = (if q = 2 ^ fp_prec F then e + 1 else e)
      in if fp_emax F < e' then Inf s else Fin s m e')"

text \<open>The nearest float to \<open>n / d\<close>, ties to even, overflow to infinity.\<close>

definition fp_round :: "fpformat \<Rightarrow> bool \<Rightarrow> nat \<Rightarrow> nat \<Rightarrow> fp" where
  "fp_round F s n d =
     (if n = 0 then Fin s 0 (fp_emin F)
      else
        (let e = max (fp_emin F) (floor_log2 n d - int (fp_prec F) + 1)
         in fp_pack F s (if 0 \<le> e then round_even n (d * 2 ^ nat e)
                         else round_even (n * 2 ^ nat (- e)) d) e))"

text \<open>The nearest float to \<open>m * 2 ^ e\<close>.\<close>

definition fp_scale :: "fpformat \<Rightarrow> bool \<Rightarrow> nat \<Rightarrow> int \<Rightarrow> fp" where
  "fp_scale F s m e =
     (if 0 \<le> e then fp_round F s (m * 2 ^ nat e) 1 else fp_round F s m (2 ^ nat (- e)))"

text \<open>\<^verbatim>\<open>float64(n)\<close> for an integer \<open>n\<close>.\<close>

definition fp_of_int :: "int \<Rightarrow> fp" where
  "fp_of_int i = fp_round Binary64 (i < 0) (nat \<bar>i\<bar>) 1"

text \<open>\<^verbatim>\<open>float64(f)\<close> for a \<^verbatim>\<open>float32\<close> \<open>f\<close>: exact, renormalised.\<close>

fun fp_widen :: "fp \<Rightarrow> fp" where
  "fp_widen (Fin s m e) = fp_scale Binary64 s m e"
| "fp_widen x = x"

section \<open>Arithmetic and comparison\<close>

text \<open>The signed mantissa of \<open>Fin s m e\<close> at a common exponent \<open>e0 \<le> e\<close>.\<close>

definition fp_align :: "int \<Rightarrow> bool \<Rightarrow> nat \<Rightarrow> int \<Rightarrow> int" where
  "fp_align e0 s m e = (if s then - 1 else 1) * int m * 2 ^ nat (e - e0)"

instantiation fp :: "{plus, times}"
begin

fun plus_fp :: "fp \<Rightarrow> fp \<Rightarrow> fp" where
  "plus_fp NaN y = NaN"
| "plus_fp x NaN = NaN"
| "plus_fp (Inf s) (Inf t) = (if s = t then Inf s else NaN)"
| "plus_fp (Inf s) (Fin _ _ _) = Inf s"
| "plus_fp (Fin _ _ _) (Inf t) = Inf t"
| "plus_fp (Fin s m e) (Fin t n f) =
     (let e0 = min e f; v = fp_align e0 s m e + fp_align e0 t n f
      in if v = 0 then Fin (s \<and> t) 0 (fp_emin Binary64)
         else fp_scale Binary64 (v < 0) (nat \<bar>v\<bar>) e0)"

fun times_fp :: "fp \<Rightarrow> fp \<Rightarrow> fp" where
  "times_fp NaN y = NaN"
| "times_fp x NaN = NaN"
| "times_fp (Inf s) (Inf t) = Inf (s \<noteq> t)"
| "times_fp (Inf s) (Fin t n f) = (if n = 0 then NaN else Inf (s \<noteq> t))"
| "times_fp (Fin s m e) (Inf t) = (if m = 0 then NaN else Inf (s \<noteq> t))"
| "times_fp (Fin s m e) (Fin t n f) = fp_scale Binary64 (s \<noteq> t) (m * n) (e + f)"

instance ..

end

fun fp_div :: "fp \<Rightarrow> fp \<Rightarrow> fp" where
  "fp_div NaN y = NaN"
| "fp_div x NaN = NaN"
| "fp_div (Inf s) (Inf t) = NaN"
| "fp_div (Inf s) (Fin t n f) = Inf (s \<noteq> t)"
| "fp_div (Fin s m e) (Inf t) = Fin (s \<noteq> t) 0 (fp_emin Binary64)"
| "fp_div (Fin s m e) (Fin t n f) =
     (if n = 0 then (if m = 0 then NaN else Inf (s \<noteq> t))
      else if f \<le> e then fp_round Binary64 (s \<noteq> t) (m * 2 ^ nat (e - f)) n
      else fp_round Binary64 (s \<noteq> t) m (n * 2 ^ nat (f - e)))"

instantiation fp :: ord
begin

fun less_fp :: "fp \<Rightarrow> fp \<Rightarrow> bool" where
  "less_fp NaN y = False"
| "less_fp x NaN = False"
| "less_fp (Inf s) (Inf t) = (s \<and> \<not> t)"
| "less_fp (Inf s) (Fin _ _ _) = s"
| "less_fp (Fin _ _ _) (Inf t) = (\<not> t)"
| "less_fp (Fin s m e) (Fin t n f) = (fp_align (min e f) s m e < fp_align (min e f) t n f)"

fun less_eq_fp :: "fp \<Rightarrow> fp \<Rightarrow> bool" where
  "less_eq_fp NaN y = False"
| "less_eq_fp x NaN = False"
| "less_eq_fp (Inf s) (Inf t) = (s \<or> \<not> t)"
| "less_eq_fp (Inf s) (Fin _ _ _) = s"
| "less_eq_fp (Fin _ _ _) (Inf t) = (\<not> t)"
| "less_eq_fp (Fin s m e) (Fin t n f) = (fp_align (min e f) s m e \<le> fp_align (min e f) t n f)"

instance ..

end

text \<open>Go's \<^verbatim>\<open>==\<close> on floats: no NaN equals anything, the two zeros are equal.\<close>

fun fp_eq :: "fp \<Rightarrow> fp \<Rightarrow> bool" where
  "fp_eq NaN y = False"
| "fp_eq x NaN = False"
| "fp_eq (Inf s) (Inf t) = (s = t)"
| "fp_eq (Inf s) (Fin _ _ _) = False"
| "fp_eq (Fin _ _ _) (Inf t) = False"
| "fp_eq (Fin s m e) (Fin t n f) = (fp_align (min e f) s m e = fp_align (min e f) t n f)"

abbreviation fp_zero :: fp where
  "fp_zero \<equiv> Fin False 0 (fp_emin Binary64)"

section \<open>Conversion to integers\<close>

text \<open>The number towards zero, for a finite float.\<close>

definition fp_trunc :: "bool \<Rightarrow> nat \<Rightarrow> int \<Rightarrow> int" where
  "fp_trunc s m e =
     (let a = (if 0 \<le> e then m * 2 ^ nat e else m div 2 ^ nat (- e))
      in if s then - int a else int a)"

text \<open>
  \<^verbatim>\<open>int64(f)\<close>, \<^verbatim>\<open>int(f)\<close> and \<^verbatim>\<open>int32(f)\<close>: the language leaves the result open when the number does
  not fit; on amd64, the architecture the project packages for, the conversion instruction gives
  the most negative number.
\<close>

fun fp_to_i64 :: "fp \<Rightarrow> 64 word" where
  "fp_to_i64 (Fin s m e) =
     (let t = fp_trunc s m e
      in if - (2 ^ 63) \<le> t \<and> t < 2 ^ 63 then word_of_int t else word_of_int (- (2 ^ 63)))"
| "fp_to_i64 _ = word_of_int (- (2 ^ 63))"

fun fp_to_i32 :: "fp \<Rightarrow> 32 word" where
  "fp_to_i32 (Fin s m e) =
     (let t = fp_trunc s m e
      in if - (2 ^ 31) \<le> t \<and> t < 2 ^ 31 then word_of_int t else word_of_int (- (2 ^ 31)))"
| "fp_to_i32 _ = word_of_int (- (2 ^ 31))"

section \<open>Exact integers\<close>

text \<open>
  \<open>fp_is_int x i\<close>: the float \<open>x\<close> is exactly the integer \<open>i\<close>, held with a non-positive exponent.
  Every integer below \<open>2 ^ 53\<close> in magnitude converts to such a float, and on such floats
  comparison, addition and truncation are the operations on the integers.
\<close>

definition fp_is_int :: "fp \<Rightarrow> int \<Rightarrow> bool" where
  "fp_is_int x i \<longleftrightarrow>
     (\<exists>s m a. x = Fin s m (- int a) \<and> (if s then - 1 else 1) * int m = i * 2 ^ a)"

lemma fp_is_intE:
  assumes "fp_is_int x i"
  obtains s m a where "x = Fin s m (- int a)" and "(if s then - 1 else 1) * int m = i * 2 ^ a"
  using assms by (auto simp: fp_is_int_def)

lemma nbits_shift: "0 < n \<Longrightarrow> nbits (n * 2 ^ a) = nbits n + a"
proof (induction a)
  case (Suc a)
  have "nbits (n * 2 ^ Suc a) = Suc (nbits (n * 2 ^ Suc a div 2))"
    by (rule nbits_pos) (use Suc.prems in simp)
  also have "n * 2 ^ Suc a div 2 = n * 2 ^ a" by simp
  finally show ?case using Suc by simp
qed simp

lemma floor_log2_int: "0 < n \<Longrightarrow> floor_log2 n 1 = int (nbits n) - 1"
  using nbits_lower [of n] nbits_pos [of n]
  by (simp add: floor_log2_def nbits_pos)

lemma floor_log2_shift:
  assumes "0 < n" and "0 < d"
  shows "floor_log2 (n * 2 ^ a) (d * 2 ^ a) = floor_log2 n d"
proof -
  have "d * 2 ^ a * x \<le> n * 2 ^ a \<longleftrightarrow> d * x \<le> n" for x :: nat
    by (simp add: mult.assoc mult.commute [of _ x] flip: mult.assoc [of _ x])
  moreover have "d * 2 ^ a \<le> n * 2 ^ a * x \<longleftrightarrow> d \<le> n * x" for x :: nat
    by (simp add: mult.assoc mult.commute [of _ x] flip: mult.assoc [of _ x])
  ultimately show ?thesis using assms by (simp add: floor_log2_def nbits_shift Let_def)
qed

lemma round_even_1 [simp]: "round_even n 1 = n"
  by (simp add: round_even_def)

lemma round_even_shift: "0 < c \<Longrightarrow> round_even (n * c) (d * c) = round_even n d"
proof -
  assume c: "0 < c"
  have "n * c div (d * c) = n div d" and m: "n * c mod (d * c) = n mod d * c"
    using c by (simp_all add: mod_mult_mult2)
  moreover have "d * c < 2 * (n mod d * c) \<longleftrightarrow> d < 2 * (n mod d)"
    and "2 * (n mod d * c) = d * c \<longleftrightarrow> 2 * (n mod d) = d"
    using c by (simp_all flip: mult.assoc)
  ultimately show ?thesis by (simp only: round_even_def)
qed

lemma round_even_power: "round_even (n * 2 ^ a) (d * 2 ^ a) = round_even n d"
  by (rule round_even_shift) simp

lemma fp_round_small:
  assumes "0 < n" and "n < 2 ^ fp_prec F"
  shows "fp_round F s n 1 = Fin s (n * 2 ^ (fp_prec F - nbits n)) (- int (fp_prec F - nbits n))"
proof -
  let ?j = "fp_prec F - nbits n"
  have le: "nbits n \<le> fp_prec F" using assms(2) by (rule nbits_le)
  have e: "max (fp_emin F) (floor_log2 n 1 - int (fp_prec F) + 1) = - int ?j"
    unfolding floor_log2_int [OF assms(1)] using le assms(1) by (cases F) (auto simp: nbits_pos)
  have "n * 2 ^ ?j < 2 ^ nbits n * 2 ^ ?j" using nbits_upper [of n] by simp
  also have "\<dots> = 2 ^ fp_prec F" using le by (simp flip: power_add)
  finally have "n * 2 ^ ?j \<noteq> 2 ^ fp_prec F" by simp
  moreover have "\<not> fp_emax F < - int ?j" by (cases F) auto
  ultimately show ?thesis
    using assms(1) unfolding fp_round_def e
    by (cases "?j = 0") (simp_all del: of_nat_diff add: fp_pack_def round_even_def Let_def)
qed

lemma fp_round_shift:
  assumes "0 < d"
  shows "fp_round F s (n * 2 ^ a) (d * 2 ^ a) = fp_round F s n d"
proof (cases "n = 0")
  case False
  have "round_even (n * 2 ^ a) (d * 2 ^ a * x) = round_even n (d * x)"
    and "round_even (n * 2 ^ a * x) (d * 2 ^ a) = round_even (n * x) d" for x :: nat
    using round_even_power [of n a "d * x"] round_even_power [of "n * x" a d]
    by (simp_all only: ac_simps)
  then show ?thesis
    using False assms by (simp add: fp_round_def floor_log2_shift Let_def)
qed (simp add: fp_round_def)

lemma fp_is_int_of_int:
  assumes "\<bar>i\<bar> < 2 ^ 53"
  shows "fp_is_int (fp_of_int i) i"
proof (cases "i = 0")
  case True
  have "Fin False 0 (- 1074) = Fin False 0 (- int 1074)" by simp
  with True show ?thesis
    by (auto simp: fp_of_int_def fp_round_def fp_is_int_def intro: exI [of _ 1074])
next
  case False
  with assms have "0 < nat \<bar>i\<bar>" and "nat \<bar>i\<bar> < 2 ^ fp_prec Binary64" by (simp_all add: nat_less_iff)
  from fp_round_small [OF this, of "i < 0"] show ?thesis
    by (auto simp: fp_of_int_def fp_is_int_def)
qed

lemma fp_align_is_int:
  assumes "(if s then - 1 else 1) * int m = i * 2 ^ a" and "e0 \<le> - int a"
  shows "fp_align e0 s m (- int a) = i * 2 ^ nat (- e0)"
proof -
  from assms(2) have "nat (- e0) = a + nat (- int a - e0)" by simp
  then have "i * 2 ^ nat (- e0) = i * 2 ^ a * 2 ^ nat (- int a - e0)"
    by (simp only: power_add mult.assoc)
  then show ?thesis unfolding fp_align_def assms(1) by (rule sym)
qed

lemma fp_less_is_int: "fp_is_int x i \<Longrightarrow> fp_is_int y j \<Longrightarrow> x < y \<longleftrightarrow> i < j"
  by (erule fp_is_intE, erule fp_is_intE) (simp add: fp_align_is_int)

lemma fp_eq_iff_less: "x \<noteq> NaN \<Longrightarrow> y \<noteq> NaN \<Longrightarrow> fp_eq x y \<longleftrightarrow> \<not> x < y \<and> \<not> y < x"
  by (cases x; cases y) (auto simp: min.commute)

lemma fp_eq_is_int: "fp_is_int x i \<Longrightarrow> fp_is_int y j \<Longrightarrow> fp_eq x y \<longleftrightarrow> i = j"
  by (erule fp_is_intE, erule fp_is_intE) (simp add: fp_align_is_int)

lemma fp_plus_is_int:
  assumes "fp_is_int x i" and "fp_is_int y j" and "\<bar>i + j\<bar> < 2 ^ 53"
  shows "fp_is_int (x + y) (i + j)"
proof -
  obtain s m a t n b where
    x: "x = Fin s m (- int a)" "(if s then - 1 else 1) * int m = i * 2 ^ a" and
    y: "y = Fin t n (- int b)" "(if t then - 1 else 1) * int n = j * 2 ^ b"
    using assms(1,2) by (metis fp_is_intE)
  let ?c = "max a b" and ?v = "(i + j) * 2 ^ max a b"
  have e0: "min (- int a) (- int b) = - int ?c" by simp
  have sum: "fp_align (- int ?c) s m (- int a) + fp_align (- int ?c) t n (- int b) = ?v"
    using x(2) y(2) by (simp add: fp_align_is_int distrib_right)
  show ?thesis
  proof (cases "i + j = 0")
    case True
    then show ?thesis
      unfolding x(1) y(1) plus_fp.simps Let_def e0 sum
      by (auto simp: fp_is_int_def intro: exI [of _ 1074])
  next
    case False
    have "nat \<bar>?v\<bar> = nat \<bar>i + j\<bar> * 2 ^ ?c"
      by (simp add: abs_mult nat_mult_distrib nat_power_eq)
    moreover have "fp_scale Binary64 s (k * 2 ^ ?c) (- int ?c) = fp_round Binary64 s k 1" for s k
      using fp_round_shift [of 1 Binary64 s k ?c] by (cases "?c = 0") (auto simp: fp_scale_def)
    moreover have "?v < 0 \<longleftrightarrow> i + j < 0" by (simp add: mult_less_0_iff)
    ultimately have "x + y = fp_of_int (i + j)"
      using False unfolding x(1) y(1) plus_fp.simps Let_def e0 sum by (simp add: fp_of_int_def)
    then show ?thesis using assms(3) by (simp only: fp_is_int_of_int)
  qed
qed

lemma fp_trunc_is_int:
  assumes "(if s then - 1 else 1) * int m = i * 2 ^ a"
  shows "fp_trunc s m (- int a) = i"
proof -
  have sgn: "(if s then i \<le> 0 else 0 \<le> i)"
  proof (rule ccontr)
    assume "\<not> ?thesis"
    then have "(if s then 0 < i else i < 0)" by (simp split: if_splits)
    then have "(if s then 0 < i * 2 ^ a else i * 2 ^ a < 0)"
      by (simp add: zero_less_mult_iff mult_less_0_iff)
    with assms show False by (simp split: if_splits)
  qed
  then have "int m = \<bar>i\<bar> * 2 ^ a" using assms by (auto split: if_splits)
  then have "int m = int (nat \<bar>i\<bar> * 2 ^ a)" by simp
  then have "m = nat \<bar>i\<bar> * 2 ^ a" by (simp only: of_nat_eq_iff)
  with sgn show ?thesis by (cases "a = 0") (auto simp: fp_trunc_def Let_def)
qed

lemma fp_to_i64_is_int:
  "fp_is_int x i \<Longrightarrow> - (2 ^ 63) \<le> i \<Longrightarrow> i < 2 ^ 63 \<Longrightarrow> fp_to_i64 x = word_of_int i"
  by (erule fp_is_intE) (simp add: fp_trunc_is_int)

lemma fp_to_i32_is_int:
  "fp_is_int x i \<Longrightarrow> - (2 ^ 31) \<le> i \<Longrightarrow> i < 2 ^ 31 \<Longrightarrow> fp_to_i32 x = word_of_int i"
  by (erule fp_is_intE) (simp add: fp_trunc_is_int)

text \<open>Evaluation of the conversions on numerals, by rewriting.\<close>

lemmas fp_eval =
  fp_of_int_def fp_round_def fp_pack_def floor_log2_def round_even_def nbits_pos fp_align_def fp_trunc_def
  fp_scale_def Let_def

section \<open>Order of floats\<close>

text \<open>
  A comparison may be made at any common exponent, so three floats can be compared at once:
  \<open><\<close> is irreflexive, transitive and, away from NaN, negatively transitive.
\<close>

lemma fp_align_lower:
  assumes "e1 \<le> e0" and "e0 \<le> e"
  shows "fp_align e1 s m e = fp_align e0 s m e * 2 ^ nat (e0 - e1)"
proof -
  have "nat (e - e1) = nat (e - e0) + nat (e0 - e1)" using assms by simp
  then show ?thesis by (simp add: fp_align_def power_add)
qed

lemma fp_less_at:
  "e0 \<le> e \<Longrightarrow> e0 \<le> f \<Longrightarrow> Fin s m e < Fin t n f \<longleftrightarrow> fp_align e0 s m e < fp_align e0 t n f"
  by (simp add: fp_align_lower [of e0 "min e f"])

lemma fp_less_irrefl: "\<not> x < (x :: fp)"
  by (cases x) auto

lemma fp_less_trans:
  assumes "x < y" and "y < z"
  shows "x < (z :: fp)"
proof (cases "\<exists>s m e t n f u k g. x = Fin s m e \<and> y = Fin t n f \<and> z = Fin u k g")
  case True
  then obtain s m e t n f u k g where *: "x = Fin s m e" "y = Fin t n f" "z = Fin u k g"
    by auto
  let ?k = "min e (min f g)"
  have "?k \<le> e" "?k \<le> f" "?k \<le> g" by simp_all
  with assms show ?thesis unfolding * by (auto simp only: fp_less_at [of ?k])
next
  case False
  with assms show ?thesis by (cases x; cases y; cases z) auto
qed

lemma fp_less_neg_trans:
  assumes "x < y" and "z \<noteq> NaN"
  shows "x < z \<or> z < (y :: fp)"
proof (cases "\<exists>s m e t n f u k g. x = Fin s m e \<and> y = Fin t n f \<and> z = Fin u k g")
  case True
  then obtain s m e t n f u k g where *: "x = Fin s m e" "y = Fin t n f" "z = Fin u k g"
    by auto
  let ?k = "min e (min f g)"
  have "?k \<le> e" "?k \<le> f" "?k \<le> g" by simp_all
  with assms show ?thesis unfolding * by (auto simp only: fp_less_at [of ?k])
next
  case False
  with assms show ?thesis by (cases x; cases y; cases z) auto
qed

lemma fp_less_asym: "x < y \<Longrightarrow> \<not> y < (x :: fp)"
  using fp_less_irrefl fp_less_trans by blast

section \<open>The shortest decimal text\<close>

text \<open>
  \<open>dec_point n d\<close> is the \<open>p\<close> with \<open>10 ^ (p - 1) \<le> n / d < 10 ^ p\<close>, for positive \<open>n\<close> and \<open>d\<close>.
\<close>

fun ndigits :: "nat \<Rightarrow> nat" where
  "ndigits n = (if n < 10 then 1 else Suc (ndigits (n div 10)))"

declare ndigits.simps [simp del]

function lead_zeros :: "nat \<Rightarrow> nat \<Rightarrow> nat" where
  "lead_zeros n d = (if n = 0 \<or> d \<le> 10 * n then 0 else Suc (lead_zeros (10 * n) d))"
  by pat_completeness auto
termination
  by (relation "measure (\<lambda>(n, d). d - n)") auto

declare lead_zeros.simps [simp del]

definition dec_point :: "nat \<Rightarrow> nat \<Rightarrow> int" where
  "dec_point n d = (if d \<le> n then int (ndigits (n div d)) else - int (lead_zeros n d))"

text \<open>The float that \<open>c * 10 ^ k\<close> reads as.\<close>

definition fp_of_dec :: "fpformat \<Rightarrow> bool \<Rightarrow> nat \<Rightarrow> int \<Rightarrow> fp" where
  "fp_of_dec F s c k =
     (if 0 \<le> k then fp_round F s (c * 10 ^ nat k) 1 else fp_round F s c (10 ^ nat (- k)))"

text \<open>
  The candidates with \<open>nd\<close> digits are the two neighbours of the exact value, the nearer one
  first; the text uses the first \<open>nd\<close> with a candidate that reads back as the float.
\<close>

definition dec_candidates :: "nat \<Rightarrow> nat \<Rightarrow> int \<Rightarrow> nat list" where
  "dec_candidates n d j =
     (let n' = (if 0 \<le> j then n * 10 ^ nat j else n);
          d' = (if 0 \<le> j then d else d * 10 ^ nat (- j));
          q = n' div d'; r = n' mod d'
      in if r = 0 then [q] else if 2 * r \<le> d' then [q, q + 1] else [q + 1, q])"

definition short_dec :: "fpformat \<Rightarrow> nat \<Rightarrow> int \<Rightarrow> nat \<times> int" where
  "short_dec F m e =
     (let n = (if 0 \<le> e then m * 2 ^ nat e else m);
          d = (if 0 \<le> e then 1 else 2 ^ nat (- e));
          p = dec_point n d;
          cs = concat (map (\<lambda>nd. map (\<lambda>c. (c, p - int nd)) (dec_candidates n d (int nd - p)))
                         [1 ..< 18])
      in case find (\<lambda>(c, k). fp_of_dec F False c k = Fin False m e) cs of
           Some ck \<Rightarrow> ck
         | None \<Rightarrow> last cs)"

fun strip_zeros :: "string \<Rightarrow> string" where
  "strip_zeros ds = rev (dropWhile (\<lambda>c. c = CHR ''0'') (rev ds))"

text \<open>
  \<^verbatim>\<open>%g\<close> with the shortest precision is \<^verbatim>\<open>%e\<close> when the decimal exponent is below -4 or at least 6
  (the precision \<^verbatim>\<open>strconv\<close> takes for this decision when no precision is given), else \<^verbatim>\<open>%f\<close>.
  \<open>x\<close> is the decimal exponent of the first digit.
\<close>

definition fmt_exp :: "int \<Rightarrow> string" where
  "fmt_exp x =
     (let a = dec_nat (nat \<bar>x\<bar>)
      in (if x < 0 then ''-'' else ''+'') @ (if length a < 2 then CHR ''0'' # a else a))"

definition fmt_digits :: "string \<Rightarrow> int \<Rightarrow> string" where
  "fmt_digits ds x =
     (if x < - 4 \<or> 6 \<le> x then
        hd ds # (if tl ds = [] then [] else CHR ''.'' # tl ds) @ ''e'' @ fmt_exp x
      else if x < 0 then ''0.'' @ replicate (nat (- x - 1)) CHR ''0'' @ ds
      else
        (let i = nat (x + 1)
         in if length ds \<le> i then ds @ replicate (i - length ds) CHR ''0''
            else take i ds @ CHR ''.'' # drop i ds))"

fun fmt_float :: "fpformat \<Rightarrow> fp \<Rightarrow> string" where
  "fmt_float F NaN = ''NaN''"
| "fmt_float F (Inf s) = (if s then ''-Inf'' else ''+Inf'')"
| "fmt_float F (Fin s m e) =
     (if s then ''-'' else '''') @
     (if m = 0 then ''0''
      else case short_dec F m e of (c, k) \<Rightarrow>
             fmt_digits (strip_zeros (dec_nat c)) (k + int (ndigits c) - 1))"

end
