(* ===== verification/Go_Value.thy ===== *)
theory Go_Value
  imports Go_Float
begin

text \<open>
  The dynamic values of the program: what a Go \<^verbatim>\<open>any\<close> holds when it comes out of a BSON document,
  with the language operations the code applies to such values (\<^verbatim>\<open>fmt.Sprint\<close>, \<^verbatim>\<open>%#v\<close>, \<^verbatim>\<open>%T\<close>, use as
  a map key), and the environment \<open>goenv\<close>: the parts of the outside world the code reads, which
  are the parameters of the model. Nothing here stands for a file under \<^verbatim>\<open>src/\<close>.
\<close>

section \<open>Values\<close>

text \<open>
  Every constructor is a dynamic type. \<open>GDoc\<close> is \<^verbatim>\<open>bson.M\<close>, \<open>GMap\<close> \<^verbatim>\<open>map[string]any\<close>, \<open>GArr\<close> \<^verbatim>\<open>bson.A\<close>,
  \<open>GSlice\<close> \<^verbatim>\<open>[]any\<close>, \<open>GDocs\<close> \<^verbatim>\<open>[]bson.M\<close>, \<open>GD\<close> \<^verbatim>\<open>bson.D\<close>; \<open>GObjectID\<close> holds its 12 bytes,
  \<open>GDateTime\<close> its milliseconds. \<open>GDriver t p\<close> is a value of another type \<open>t\<close> of the MongoDB driver
  (\<^verbatim>\<open>bson.Binary\<close>, \<^verbatim>\<open>bson.Regex\<close>, \<^verbatim>\<open>bson.Decimal128\<close>, ...) with contents \<open>p\<close>, which the program never
  looks into. A nil \<^verbatim>\<open>bson.M\<close> reads as an empty one everywhere, so \<open>GDoc []\<close> stands for both.
\<close>

datatype gval =
    GNil
  | GBool bool
  | GInt "64 word"
  | GInt32 "32 word"
  | GInt64 "64 word"
  | GFloat32 fp
  | GFloat64 fp
  | GString string
  | GBytes string
  | GDoc "(string \<times> gval) list"
  | GMap "(string \<times> gval) list"
  | GArr "gval list"
  | GSlice "gval list"
  | GDocs "(string \<times> gval) list list"
  | GD "(string \<times> gval) list"
  | GObjectID string
  | GDateTime "64 word"
  | GDriver string string

type_synonym doc = "(string \<times> gval) list"

text \<open>A document: a map has each key once, at every level.\<close>

fun wf_val :: "gval \<Rightarrow> bool" and wf_entries :: "doc \<Rightarrow> bool"
  and wf_list :: "gval list \<Rightarrow> bool" and wf_docs :: "doc list \<Rightarrow> bool" where
  "wf_val (GDoc m) = (distinct (keys m) \<and> wf_entries m)"
| "wf_val (GMap m) = (distinct (keys m) \<and> wf_entries m)"
| "wf_val (GArr xs) = wf_list xs"
| "wf_val (GSlice xs) = wf_list xs"
| "wf_val (GDocs ds) = wf_docs ds"
| "wf_val (GD m) = wf_entries m"
| "wf_val _ = True"
| "wf_entries [] = True"
| "wf_entries ((k, v) # m) = (wf_val v \<and> wf_entries m)"
| "wf_list [] = True"
| "wf_list (x # xs) = (wf_val x \<and> wf_list xs)"
| "wf_docs [] = True"
| "wf_docs (d # ds) = (distinct (keys d) \<and> wf_entries d \<and> wf_docs ds)"

abbreviation wf_doc :: "doc \<Rightarrow> bool" where
  "wf_doc d \<equiv> wf_val (GDoc d)"

lemma wf_entries_iff: "wf_entries m \<longleftrightarrow> (\<forall>(k, v) \<in> set m. wf_val v)"
  by (induction m) auto

lemma wf_list_iff: "wf_list xs \<longleftrightarrow> (\<forall>x \<in> set xs. wf_val x)"
  by (induction xs) auto

lemma wf_docs_iff: "wf_docs ds \<longleftrightarrow> (\<forall>d \<in> set ds. wf_doc d)"
  by (induction ds) auto

lemma wf_doc_lookup: "wf_doc d \<Longrightarrow> map_of d k = Some v \<Longrightarrow> wf_val v"
  by (fastforce simp: wf_entries_iff dest: map_of_SomeD)

lemma wf_doc_put [intro]: "wf_doc d \<Longrightarrow> wf_val v \<Longrightarrow> wf_doc (put k v d)"
  using set_put_subset [of k v d] by (auto simp: wf_entries_iff map_simps)

lemma wf_doc_del [intro]: "wf_doc d \<Longrightarrow> wf_doc (del k d)"
  using set_keys_del [of k d] distinct_del [of d k]
  by (auto simp: wf_entries_iff AList.delete_eq)

section \<open>The environment\<close>

text \<open>
  What the code reads from outside itself. \<open>env_print\<close> and \<open>env_gosyntax\<close> are \<^verbatim>\<open>fmt.Sprint\<close> and
  \<^verbatim>\<open>%#v\<close> of a value whose type the driver declares, which may have methods of its own;
  \<open>env_hashable\<close> says whether such a type can be a map key; \<open>env_oid_hex\<close> is \<^verbatim>\<open>ObjectID.Hex\<close>;
  \<open>env_regex\<close> is \<^verbatim>\<open>regexp.Compile\<close> followed by \<^verbatim>\<open>MatchString\<close> (\<open>None\<close>: the pattern does not
  compile); \<open>env_quote\<close> is \<^verbatim>\<open>strconv.Quote\<close>, whose table of printable characters is Unicode's;
  \<open>env_now\<close> and \<open>env_nano\<close> are readings of the clock, by the number of the reading; \<open>env_iter\<close>
  is the order in which a \<^verbatim>\<open>range\<close> loop over a stored collection or over the groups of a pipeline
  visits the entries, by the number of the loop in the operation; \<open>env_first\<close> is which entry a loop over a
  document visits first, for a loop that ends there.
\<close>

record goenv =
  env_print :: "gval \<Rightarrow> string"
  env_gosyntax :: "gval \<Rightarrow> string"
  env_hashable :: "string \<Rightarrow> bool"
  env_oid_hex :: "string \<Rightarrow> string"
  env_regex :: "string \<Rightarrow> (string \<Rightarrow> bool) option"
  env_quote :: "string \<Rightarrow> string"
  env_now :: "nat \<Rightarrow> 64 word"
  env_nano :: "nat \<Rightarrow> int"
  env_iter :: "nat \<Rightarrow> (string \<times> doc) list \<Rightarrow> (string \<times> doc) list"
  env_first :: "nat \<Rightarrow> doc \<Rightarrow> nat"

text \<open>A loop over a map visits every entry exactly once.\<close>

definition fair_iter :: "goenv \<Rightarrow> bool" where
  "fair_iter E \<longleftrightarrow> (\<forall>i m. mset (env_iter E i m) = mset m)"

lemma fair_iter_mset [simp]: "fair_iter E \<Longrightarrow> mset (env_iter E i m) = mset m"
  by (simp add: fair_iter_def)

lemma fair_iter_set [simp]: "fair_iter E \<Longrightarrow> set (env_iter E i m) = set m"
  by (metis fair_iter_mset set_mset_mset)

lemma fair_iter_length [simp]: "fair_iter E \<Longrightarrow> length (env_iter E i m) = length m"
  by (metis fair_iter_mset size_mset)

lemma fair_iter_distinct [simp]:
  "fair_iter E \<Longrightarrow> distinct (keys (env_iter E i m)) \<longleftrightarrow> distinct (keys m)"
  by (metis fair_iter_mset mset_eq_imp_distinct_iff mset_map)

text \<open>The environment that witnesses use: simple functions for every parameter.\<close>

definition demo_env :: goenv where
  "demo_env =
     \<lparr>env_print = (\<lambda>v. case v of GDoc _ \<Rightarrow> ''map[]'' | GArr _ \<Rightarrow> ''[]'' | _ \<Rightarrow> ''driver''),
      env_gosyntax = (\<lambda>v. ''driver''), env_hashable = (\<lambda>t. t \<noteq> ''bson.Binary''),
      env_oid_hex = (\<lambda>b. b), env_regex = (\<lambda>p. Some (\<lambda>s. p = s)),
      env_quote = (\<lambda>s. ''\"'' @ s @ ''\"''), env_now = (\<lambda>i. 0), env_nano = int,
      env_iter = (\<lambda>i m. m), env_first = (\<lambda>i m. 0)\<rparr>"

lemma fair_iter_demo [simp]: "fair_iter demo_env"
  by (simp add: fair_iter_def demo_env_def)

lemma iter_demo [simp]: "env_iter demo_env i m = m"
  by (simp add: demo_env_def)

section \<open>Printing\<close>

fun join :: "string \<Rightarrow> string list \<Rightarrow> string" where
  "join sep [] = []"
| "join sep [x] = x"
| "join sep (x # y # ys) = x @ sep @ join sep (y # ys)"

text \<open>\<^verbatim>\<open>fmt.Sprint(v)\<close>; \<^verbatim>\<open>fmt\<close> prints a map in the order of its keys.\<close>

fun sprint :: "goenv \<Rightarrow> gval \<Rightarrow> string" and sprint_entries :: "goenv \<Rightarrow> doc \<Rightarrow> (string \<times> string) list"
  and sprint_list :: "goenv \<Rightarrow> gval list \<Rightarrow> string list" where
  "sprint E GNil = ''<nil>''"
| "sprint E (GBool b) = (if b then ''true'' else ''false'')"
| "sprint E (GInt n) = dec_int (sint n)"
| "sprint E (GInt32 n) = dec_int (sint n)"
| "sprint E (GInt64 n) = dec_int (sint n)"
| "sprint E (GFloat32 x) = fmt_float Binary32 x"
| "sprint E (GFloat64 x) = fmt_float Binary64 x"
| "sprint E (GString s) = s"
| "sprint E (GBytes bs) = ''['' @ join '' '' (map (\<lambda>b. dec_nat (of_char b)) bs) @ '']''"
| "sprint E (GMap m) =
     ''map['' @ join '' '' (map (\<lambda>(k, s). k @ '':'' @ s) (sort_key fst (sprint_entries E m))) @ '']''"
| "sprint E (GSlice xs) = ''['' @ join '' '' (sprint_list E xs) @ '']''"
| "sprint E (GDocs ds) = ''['' @ join '' '' (map (\<lambda>d. env_print E (GDoc d)) ds) @ '']''"
| "sprint E v = env_print E v"
| "sprint_entries E [] = []"
| "sprint_entries E ((k, v) # m) = (k, sprint E v) # sprint_entries E m"
| "sprint_list E [] = []"
| "sprint_list E (x # xs) = sprint E x # sprint_list E xs"

text \<open>
  \<^verbatim>\<open>fmt.Sprintf("%#v", v)\<close>: strings are quoted, numbers print as with \<^verbatim>\<open>%v\<close> and without their
  type, a nil inside a container prints as \<^verbatim>\<open>interface {}(nil)\<close>.
\<close>

fun hex_digits :: "nat \<Rightarrow> string" where
  "hex_digits n =
     (let c = (\<lambda>d. if d < 10 then char_of (48 + d) else char_of (87 + d :: nat))
      in if n < 16 then [c n] else [c (n div 16), c (n mod 16)])"

fun gosyntax :: "goenv \<Rightarrow> gval \<Rightarrow> string" and gosyntax_in :: "goenv \<Rightarrow> gval \<Rightarrow> string"
  and gosyntax_entries :: "goenv \<Rightarrow> doc \<Rightarrow> (string \<times> string) list"
  and gosyntax_list :: "goenv \<Rightarrow> gval list \<Rightarrow> string list" where
  "gosyntax E GNil = ''<nil>''"
| "gosyntax E (GBool b) = (if b then ''true'' else ''false'')"
| "gosyntax E (GInt n) = dec_int (sint n)"
| "gosyntax E (GInt32 n) = dec_int (sint n)"
| "gosyntax E (GInt64 n) = dec_int (sint n)"
| "gosyntax E (GFloat32 x) = fmt_float Binary32 x"
| "gosyntax E (GFloat64 x) = fmt_float Binary64 x"
| "gosyntax E (GString s) = env_quote E s"
| "gosyntax E (GBytes bs) =
     ''[]byte{'' @ join '', '' (map (\<lambda>b. ''0x'' @ hex_digits (of_char b)) bs) @ ''}''"
| "gosyntax E (GMap m) =
     ''map[string]interface {}{'' @
     join '', '' (map (\<lambda>(k, s). env_quote E k @ '':'' @ s) (sort_key fst (gosyntax_entries E m))) @ ''}''"
| "gosyntax E (GSlice xs) = ''[]interface {}{'' @ join '', '' (gosyntax_list E xs) @ ''}''"
| "gosyntax E (GDocs ds) = ''[]bson.M{'' @ join '', '' (map (\<lambda>d. env_gosyntax E (GDoc d)) ds) @ ''}''"
| "gosyntax E v = env_gosyntax E v"
| "gosyntax_in E GNil = ''interface {}(nil)''"
| "gosyntax_in E v = gosyntax E v"
| "gosyntax_entries E [] = []"
| "gosyntax_entries E ((k, v) # m) = (k, gosyntax_in E v) # gosyntax_entries E m"
| "gosyntax_list E [] = []"
| "gosyntax_list E (x # xs) = gosyntax_in E x # gosyntax_list E xs"

text \<open>\<^verbatim>\<open>%T\<close>: the name of the dynamic type.\<close>

fun type_name :: "gval \<Rightarrow> string" where
  "type_name GNil = ''<nil>''"
| "type_name (GBool _) = ''bool''"
| "type_name (GInt _) = ''int''"
| "type_name (GInt32 _) = ''int32''"
| "type_name (GInt64 _) = ''int64''"
| "type_name (GFloat32 _) = ''float32''"
| "type_name (GFloat64 _) = ''float64''"
| "type_name (GString _) = ''string''"
| "type_name (GBytes _) = ''[]uint8''"
| "type_name (GDoc _) = ''bson.M''"
| "type_name (GMap _) = ''map[string]interface {}''"
| "type_name (GArr _) = ''bson.A''"
| "type_name (GSlice _) = ''[]interface {}''"
| "type_name (GDocs _) = ''[]bson.M''"
| "type_name (GD _) = ''bson.D''"
| "type_name (GObjectID _) = ''bson.ObjectID''"
| "type_name (GDateTime _) = ''bson.DateTime''"
| "type_name (GDriver t _) = t"

section \<open>Values as map keys\<close>

text \<open>
  A \<^verbatim>\<open>map[any]T\<close> hashes the dynamic value of its key: a map or a slice cannot be hashed, and using
  one as a key panics. Keys are equal when type and contents are; a NaN equals nothing.
\<close>

fun hashable :: "goenv \<Rightarrow> gval \<Rightarrow> bool" where
  "hashable E (GBytes _) = False"
| "hashable E (GDoc _) = False"
| "hashable E (GMap _) = False"
| "hashable E (GArr _) = False"
| "hashable E (GSlice _) = False"
| "hashable E (GDocs _) = False"
| "hashable E (GD _) = False"
| "hashable E (GDriver t _) = env_hashable E t"
| "hashable E _ = True"

fun iface_eq :: "gval \<Rightarrow> gval \<Rightarrow> bool" where
  "iface_eq (GFloat32 x) (GFloat32 y) = fp_eq x y"
| "iface_eq (GFloat64 x) (GFloat64 y) = fp_eq x y"
| "iface_eq v w = (v = w)"

text \<open>\<^verbatim>\<open>v, _ := x.(string)\<close>, \<^verbatim>\<open>x.(bool)\<close> and \<^verbatim>\<open>x.(bson.M)\<close>.\<close>

fun as_string :: "gval \<Rightarrow> string option" where
  "as_string (GString s) = Some s"
| "as_string _ = None"

fun as_doc :: "gval \<Rightarrow> doc option" where
  "as_doc (GDoc m) = Some m"
| "as_doc _ = None"

fun as_arr :: "gval \<Rightarrow> gval list option" where
  "as_arr (GArr xs) = Some xs"
| "as_arr _ = None"

text \<open>\<^verbatim>\<open>v := m[k]\<close> with one result: the zero value \<^verbatim>\<open>nil\<close> when the key is missing.\<close>

definition field :: "doc \<Rightarrow> string \<Rightarrow> gval" where
  "field m k = (case map_of m k of None \<Rightarrow> GNil | Some v \<Rightarrow> v)"

lemma field_Some [simp]: "map_of m k = Some v \<Longrightarrow> field m k = v"
  by (simp add: field_def)

lemma field_None [simp]: "map_of m k = None \<Longrightarrow> field m k = GNil"
  by (simp add: field_def)

end
