(* ===== verification/Bson_Util.thy ===== *)
theory Bson_Util
  imports Go_Value
begin

text \<open>
  \<^verbatim>\<open>internal/bsonutil/bsonutil.go\<close>: the text key under which a document is stored (\<open>ValueKey\<close>,
  \<open>DocumentIDKey\<close>), the normal form of decoded values (\<open>normalizeValue\<close>), and the conversions from and
  to Extended JSON, which are calls into the MongoDB driver. The lemmas show that the key determines
  the identifier, and that normalising is a projection onto the values without \<^verbatim>\<open>bson.D\<close> and \<^verbatim>\<open>[]any\<close>.
\<close>

section \<open>Keys\<close>

text \<open>\<^verbatim>\<open>base64.StdEncoding\<close>: three bytes are four characters, with padding at the end.\<close>

definition base64_char :: "nat \<Rightarrow> char" where
  "base64_char i =
     (if i < 26 then char_of (65 + i)
      else if i < 52 then char_of (97 + (i - 26))
      else if i < 62 then char_of (48 + (i - 52))
      else if i = 62 then CHR ''+'' else CHR ''/'')"

fun base64 :: "string \<Rightarrow> string" where
  "base64 [] = []"
| "base64 [a] =
     (let n = of_char a * 65536 in
      [base64_char (n div 262144), base64_char (n div 4096 mod 64), CHR ''='', CHR ''=''])"
| "base64 [a, b] =
     (let n = of_char a * 65536 + of_char b * 256 in
      [base64_char (n div 262144), base64_char (n div 4096 mod 64), base64_char (n div 64 mod 64),
       CHR ''=''])"
| "base64 (a # b # c # bs) =
     (let n = of_char a * 65536 + of_char b * 256 + of_char c in
      [base64_char (n div 262144), base64_char (n div 4096 mod 64), base64_char (n div 64 mod 64),
       base64_char (n mod 64)] @ base64 bs)"

fun ValueKey :: "goenv \<Rightarrow> gval \<Rightarrow> string res" where
  "ValueKey E (GObjectID oid) = Ok (''objectid:'' @ env_oid_hex E oid)"
| "ValueKey E (GString s) = Ok (''string:'' @ s)"
| "ValueKey E (GInt n) = Ok (''int64:'' @ dec_int (sint n))"
| "ValueKey E (GInt32 n) = Ok (''int32:'' @ dec_int (sint n))"
| "ValueKey E (GInt64 n) = Ok (''int64:'' @ dec_int (sint n))"
| "ValueKey E (GFloat64 x) = Ok (''double:'' @ fmt_float Binary64 x)"
| "ValueKey E (GBytes bs) = Ok (''binary:'' @ base64 bs)"
| "ValueKey E v = Err (PlainError (''unsupported _id type '' @ type_name v))"

definition DocumentIDKey :: "goenv \<Rightarrow> doc \<Rightarrow> string res" where
  "DocumentIDKey E d =
     (case map_of d ''_id'' of
        None \<Rightarrow> Err (PlainError ''missing _id'')
      | Some v \<Rightarrow> ValueKey E v)"

section \<open>Normal forms\<close>

text \<open>A \<^verbatim>\<open>bson.D\<close> becomes a map in which the last of several equal keys wins.\<close>

fun normalizeValue :: "gval \<Rightarrow> gval" and normalizeEntries :: "doc \<Rightarrow> doc"
  and normalizeList :: "gval list \<Rightarrow> gval list" where
  "normalizeValue (GD m) = GDoc (fold (\<lambda>(k, v) res. put k v res) (normalizeEntries m) [])"
| "normalizeValue (GDoc m) = GDoc (normalizeEntries m)"
| "normalizeValue (GArr xs) = GArr (normalizeList xs)"
| "normalizeValue (GSlice xs) = GArr (normalizeList xs)"
| "normalizeValue v = v"
| "normalizeEntries [] = []"
| "normalizeEntries ((k, v) # m) = (k, normalizeValue v) # normalizeEntries m"
| "normalizeList [] = []"
| "normalizeList (x # xs) = normalizeValue x # normalizeList xs"

section \<open>Extended JSON\<close>

text \<open>
  The driver's conversions of a document to and from Extended JSON are parameters: \<open>xj_encode\<close> is
  \<^verbatim>\<open>bson.MarshalExtJSON(doc, true, false)\<close>, \<open>xj_decode\<close> is \<^verbatim>\<open>bson.UnmarshalExtJSON(raw, true, &doc)\<close>. The
  program never looks into the text, so its type \<open>'j\<close> is a parameter too.
\<close>

record 'j extjson =
  xj_encode :: "doc \<Rightarrow> 'j res"
  xj_decode :: "'j \<Rightarrow> doc res"

definition MarshalExtJSON :: "'j extjson \<Rightarrow> doc \<Rightarrow> 'j res" where
  "MarshalExtJSON X d = xj_encode X d"

definition UnmarshalExtJSON :: "'j extjson \<Rightarrow> 'j \<Rightarrow> doc res" where
  "UnmarshalExtJSON X raw = mapR normalizeEntries (xj_decode X raw)"

section \<open>Lemmas on keys\<close>

text \<open>The identifiers the drivers generate: ObjectIDs, strings and integers.\<close>

fun plain_id :: "gval \<Rightarrow> bool" where
  "plain_id (GObjectID _) = True"
| "plain_id (GString _) = True"
| "plain_id (GInt32 _) = True"
| "plain_id (GInt64 _) = True"
| "plain_id _ = False"

lemma plain_id_not_nil [simp]: "plain_id v \<Longrightarrow> v \<noteq> GNil"
  by auto

lemma ValueKey_total: "plain_id v \<Longrightarrow> \<exists>k. ValueKey E v = Ok k"
  by (cases v) auto

lemma ValueKey_no_panic: "\<not> is_Panic (ValueKey E v)"
  by (cases v) auto

lemma DocumentIDKey_no_panic: "\<not> is_Panic (DocumentIDKey E d)"
  by (auto simp: DocumentIDKey_def ValueKey_no_panic split: option.split)

lemma ValueKey_inject:
  assumes "inj (env_oid_hex E)" and "plain_id v" and "plain_id w" and "ValueKey E v = ValueKey E w"
  shows "v = w"
  using assms by (cases v; cases w) (auto dest: injD simp: signed_word_eqI)

lemma ValueKey_hex: "env_oid_hex E = env_oid_hex E' \<Longrightarrow> ValueKey E v = ValueKey E' v"
  by (cases v) simp_all

lemma DocumentIDKey_hex: "env_oid_hex E = env_oid_hex E' \<Longrightarrow> DocumentIDKey E d = DocumentIDKey E' d"
  using ValueKey_hex [of E E'] by (simp add: DocumentIDKey_def split: option.split)

text \<open>The key of a document as a function of the printing of ObjectIDs.\<close>

definition idKey :: "(string \<Rightarrow> string) \<Rightarrow> doc \<Rightarrow> string res" where
  "idKey hex = DocumentIDKey (demo_env\<lparr>env_oid_hex := hex\<rparr>)"

lemma DocumentIDKey_idKey: "env_oid_hex E = hex \<Longrightarrow> DocumentIDKey E d = idKey hex d"
  unfolding idKey_def by (rule DocumentIDKey_hex) simp

lemma DocumentIDKey_cong: "map_of d ''_id'' = map_of d' ''_id'' \<Longrightarrow> DocumentIDKey E d = DocumentIDKey E d'"
  by (simp add: DocumentIDKey_def)

section \<open>Lemmas on normal forms\<close>

fun normal_val :: "gval \<Rightarrow> bool" and normal_entries :: "doc \<Rightarrow> bool"
  and normal_list :: "gval list \<Rightarrow> bool" where
  "normal_val (GD _) = False"
| "normal_val (GSlice _) = False"
| "normal_val (GDoc m) = normal_entries m"
| "normal_val (GArr xs) = normal_list xs"
| "normal_val _ = True"
| "normal_entries [] = True"
| "normal_entries ((k, v) # m) = (normal_val v \<and> normal_entries m)"
| "normal_list [] = True"
| "normal_list (x # xs) = (normal_val x \<and> normal_list xs)"

lemma normal_entries_iff: "normal_entries m \<longleftrightarrow> (\<forall>(k, v) \<in> set m. normal_val v)"
  by (induction m) auto

lemma set_fold_put:
  "set (fold (\<lambda>(k, v) res. put k v res) m r) \<subseteq> set m \<union> set r"
proof (induction m arbitrary: r)
  case (Cons e m)
  obtain k v where e: "e = (k, v)" by (cases e)
  with set_put_subset [of k v r] Cons [of "put k v r"] show ?case by auto
qed simp

lemma normalize_normal:
  "normal_val (normalizeValue v)" "normal_entries (normalizeEntries m)" "normal_list (normalizeList xs)"
proof (induction v and m and xs rule: normalizeValue_normalizeEntries_normalizeList.induct)
  case (1 m)
  then show ?case
    using set_fold_put [of "normalizeEntries m" "[]"] by (auto simp: normal_entries_iff)
qed auto

lemma normalize_id:
  "normal_val v \<Longrightarrow> normalizeValue v = v" "normal_entries m \<Longrightarrow> normalizeEntries m = m"
  "normal_list xs \<Longrightarrow> normalizeList xs = xs"
  by (induction v and m and xs rule: normalizeValue_normalizeEntries_normalizeList.induct) auto

section \<open>Properties\<close>

text \<open>The text key under which a document is stored determines its \<open>_id\<close>, type included, for
  ObjectIDs, strings and 32- and 64-bit integers.\<close>

theorem ValueKey_determines_id:
  assumes "inj (env_oid_hex E)" and "plain_id v" and "plain_id w" and "ValueKey E v = ValueKey E w"
  shows "v = w"
  using assms by (rule ValueKey_inject)

theorem ValueKey_determines_id_witness:
  "GInt32 7 = GInt32 7 \<and> ValueKey demo_env (GInt32 7) \<noteq> ValueKey demo_env (GString ''7'')"
proof -
  have "inj (env_oid_hex demo_env)" by (simp add: demo_env_def inj_def)
  then show ?thesis
    using ValueKey_determines_id [of demo_env "GInt32 7" "GInt32 7"]
      ValueKey_determines_id [of demo_env "GInt32 7" "GString ''7''"] by auto
qed

text \<open>Normalising removes every \<^verbatim>\<open>bson.D\<close> and \<^verbatim>\<open>[]any\<close> at any depth, and normalising again
  changes nothing.\<close>

theorem normalizeValue_projects:
  "normal_val (normalizeValue v) \<and> normalizeValue (normalizeValue v) = normalizeValue v"
  using normalize_normal(1) normalize_id(1) by simp

end
