(* ===== verification/Tidb_Schema.thy ===== *)
theory Tidb_Schema
  imports Timongo_Prelude
begin

text \<open>
  \<^verbatim>\<open>internal/backend/tidb/schema.go\<close>: the name of the table that holds a collection, and the statement
  that creates it. The lemmas show that a table name has only the characters \<^verbatim>\<open>a-z0-9_\<close>, so that it
  can stand between backquotes in a statement, that simple names get different tables, and that
  others may share one.
\<close>

section \<open>Characters\<close>

text \<open>The class \<^verbatim>\<open>[a-zA-Z0-9_]\<close>, and lower case for one byte.\<close>

definition identChar :: "char \<Rightarrow> bool" where
  "identChar c \<longleftrightarrow>
     between CHR ''a'' CHR ''z'' c \<or> between CHR ''A'' CHR ''Z'' c \<or> between CHR ''0'' CHR ''9'' c \<or> c = CHR ''_''"

definition lowerChar :: "char \<Rightarrow> char" where
  "lowerChar c = (if between CHR ''A'' CHR ''Z'' c then char_of (of_char c + 32 :: nat) else c)"

text \<open>
  A regular expression matches runes, not bytes: \<open>runeWidth\<close> is the number of bytes of the first
  rune, as \<^verbatim>\<open>unicode/utf8\<close> decodes it; a byte that starts no valid encoding is a rune of its own.
\<close>

definition continuation :: "nat \<Rightarrow> bool" where
  "continuation b \<longleftrightarrow> 128 \<le> b \<and> b < 192"

fun bytesWidth :: "nat list \<Rightarrow> nat" where
  "bytesWidth (a # b # c # d # _) =
     (if 194 \<le> a \<and> a < 224 \<and> continuation b then 2
      else if 224 \<le> a \<and> a < 240 \<and> continuation b \<and> continuation c \<and>
           (a = 224 \<longrightarrow> 160 \<le> b) \<and> (a = 237 \<longrightarrow> b < 160) then 3
      else if 240 \<le> a \<and> a < 245 \<and> continuation b \<and> continuation c \<and> continuation d \<and>
           (a = 240 \<longrightarrow> 144 \<le> b) \<and> (a = 244 \<longrightarrow> b < 144) then 4
      else 1)"
| "bytesWidth _ = 1"

text \<open>The string is padded with bytes that continue nothing.\<close>

definition runeWidth :: "string \<Rightarrow> nat" where
  "runeWidth s = bytesWidth (map of_char (take 4 s) @ [0, 0, 0, 0])"

text \<open>\<^verbatim>\<open>unsafeIdent.ReplaceAllString(s, "_")\<close>.\<close>

fun replaceUnsafe :: "string \<Rightarrow> string" where
  "replaceUnsafe [] = []"
| "replaceUnsafe (c # s) =
     (if identChar c then c # replaceUnsafe s
      else CHR ''_'' # replaceUnsafe (drop (runeWidth (c # s) - 1) s))"

text \<open>\<^verbatim>\<open>strings.Trim(s, "_")\<close>.\<close>

definition trimChar :: "char \<Rightarrow> string \<Rightarrow> string" where
  "trimChar x s = rev (dropWhile (\<lambda>c. c = x) (rev (dropWhile (\<lambda>c. c = x) s)))"

section \<open>Tables\<close>

definition PhysicalTableName :: "string \<Rightarrow> string \<Rightarrow> string" where
  "PhysicalTableName dbName collection =
     (let base = ''tm_doc_'' @ dbName @ ''_'' @ collection;
          base = replaceUnsafe base;
          base = trimChar CHR ''_'' base
      in if base = '''' \<or> base = ''tm_doc'' then ''tm_doc_collection'' else map lowerChar base)"

definition DocumentTableDDL :: "string \<Rightarrow> string" where
  "DocumentTableDDL table =
     ''CREATE TABLE IF NOT EXISTS `'' @ table @ ''` ('' @
     ''`id_key` VARBINARY(768) NOT NULL,'' @
     ''`id_bson` BLOB NOT NULL,'' @
     ''`doc_bson` LONGBLOB NOT NULL,'' @
     ''`doc_json` JSON NOT NULL,'' @
     ''`revision` BIGINT NOT NULL,'' @
     ''`created_at` TIMESTAMP(6) NOT NULL DEFAULT CURRENT_TIMESTAMP(6),'' @
     ''`updated_at` TIMESTAMP(6) NOT NULL DEFAULT CURRENT_TIMESTAMP(6) ON UPDATE CURRENT_TIMESTAMP(6),'' @
     ''PRIMARY KEY (`id_key`)'' @
     '')''"

section \<open>Lemmas\<close>

definition tableChar :: "char \<Rightarrow> bool" where
  "tableChar c \<longleftrightarrow> between CHR ''a'' CHR ''z'' c \<or> between CHR ''0'' CHR ''9'' c \<or> c = CHR ''_''"

lemma replaceUnsafe_ident: "c \<in> set (replaceUnsafe s) \<Longrightarrow> identChar c"
  by (induction s rule: replaceUnsafe.induct) (auto simp: identChar_def split: if_splits)

lemma replaceUnsafe_id: "\<forall>c \<in> set s. identChar c \<Longrightarrow> replaceUnsafe s = s"
  by (induction s) auto

lemma set_trimChar: "set (trimChar x s) \<subseteq> set s"
  unfolding trimChar_def using set_dropWhileD by (metis (no_types, lifting) set_rev subsetI)

lemma lower_table: "identChar c \<Longrightarrow> tableChar (lowerChar c)"
  by (auto simp: identChar_def tableChar_def lowerChar_def less_eq_char_def)

lemma lower_id: "tableChar c \<Longrightarrow> lowerChar c = c"
  by (auto simp: tableChar_def lowerChar_def less_eq_char_def)

lemma table_ident: "tableChar c \<Longrightarrow> identChar c"
  by (auto simp: tableChar_def identChar_def)

lemma PhysicalTableName_chars: "c \<in> set (PhysicalTableName db coll) \<Longrightarrow> tableChar c"
proof -
  assume c: "c \<in> set (PhysicalTableName db coll)"
  let ?base = "trimChar CHR ''_'' (replaceUnsafe (''tm_doc_'' @ db @ ''_'' @ coll))"
  have base: "\<forall>c \<in> set ?base. identChar c"
    using set_trimChar replaceUnsafe_ident by blast
  show ?thesis
  proof (cases "?base = '''' \<or> ?base = ''tm_doc''")
    case True
    with c have "c \<in> set ''tm_doc_collection''" by (simp only: PhysicalTableName_def Let_def if_True)
    moreover have "\<forall>c \<in> set ''tm_doc_collection''. tableChar c" by (simp add: tableChar_def less_eq_char_def)
    ultimately show ?thesis by blast
  next
    case False
    with c have "c \<in> lowerChar ` set ?base" by (simp only: PhysicalTableName_def Let_def if_False set_map)
    with base lower_table show ?thesis by blast
  qed
qed

text \<open>A name that can stand between backquotes in a statement.\<close>

definition safeTable :: "string \<Rightarrow> bool" where
  "safeTable t \<longleftrightarrow> list_all tableChar t"

lemma safeTable_Physical [simp]: "safeTable (PhysicalTableName db coll)"
  using PhysicalTableName_chars by (auto simp: safeTable_def list_all_iff)

text \<open>A simple name: lower-case letters and digits. Its table name is the plain concatenation.\<close>

definition simpleName :: "string \<Rightarrow> bool" where
  "simpleName s \<longleftrightarrow> s \<noteq> '''' \<and> list_all (\<lambda>c. tableChar c \<and> c \<noteq> CHR ''_'') s"

lemma simpleName_D: "simpleName s \<Longrightarrow> c \<in> set s \<Longrightarrow> tableChar c \<and> c \<noteq> CHR ''_''"
  by (simp add: simpleName_def list_all_iff)

lemma trimChar_id: "s \<noteq> [] \<Longrightarrow> hd s \<noteq> x \<Longrightarrow> last s \<noteq> x \<Longrightarrow> trimChar x s = s"
  by (simp add: trimChar_def hd_rev dropWhile_eq_self_iff [THEN iffD2])

lemma PhysicalTableName_simple:
  assumes "simpleName db" and "simpleName c"
  shows "PhysicalTableName db c = ''tm_doc_'' @ db @ ''_'' @ c"
proof -
  let ?base = "''tm_doc_'' @ db @ ''_'' @ c"
  have chars: "\<forall>x \<in> set ?base. tableChar x"
    using assms by (auto dest: simpleName_D) (simp_all add: tableChar_def less_eq_char_def)
  then have "replaceUnsafe ?base = ?base" using table_ident by (intro replaceUnsafe_id) blast
  moreover have "last c \<noteq> CHR ''_''" "c \<noteq> []"
    using assms(2) simpleName_D [OF assms(2)] by (auto simp: simpleName_def)
  then have "trimChar CHR ''_'' ?base = ?base" by (intro trimChar_id) simp_all
  moreover have "map lowerChar ?base = ?base" using chars lower_id by (intro map_idI) blast
  moreover have "?base \<noteq> ''tm_doc''" by simp
  ultimately show ?thesis unfolding PhysicalTableName_def by (simp only: Let_def) simp
qed

end
