(* ===== verification/Sql_Database.thy ===== *)
theory Sql_Database
  imports Bson_Util Tidb_Schema
begin

text \<open>
  The SQL database as the program sees it through \<^verbatim>\<open>database/sql\<close>: statements are a text with
  arguments, and a database is the table of the driver's operations over a state type \<open>'q\<close>, which is
  a parameter of the TiDB backend. What a database promises of the statements the program sends is the
  locale \<open>sql_contract\<close> of \<open>Sql_Contract\<close>.
\<close>

section \<open>The driver\<close>

text \<open>The arguments and the columns of a row; \<open>SqlInt\<close> is an \<^verbatim>\<open>int64\<close> by its value, \<open>SqlJson\<close> Extended JSON text.\<close>

datatype 'j sqlval =
    SqlText string
  | SqlBytes string
  | SqlInt int
  | SqlJson 'j

type_synonym 'j sql = "string \<times> 'j sqlval list"

text \<open>The rows of a query, and the error that ended the iteration, if one did (\<^verbatim>\<open>rows.Err\<close>).\<close>

type_synonym 'j sqlrows = "'j sqlval list list \<times> goerr option"

record ('q, 'j) sqldb =
  db_exec :: "'j sql \<Rightarrow> ('q, unit) action"
  db_query :: "'j sql \<Rightarrow> ('q, 'j sqlrows) action"
  db_ping :: "('q, unit) action"
  db_close :: "('q, unit) action"
  tx_begin :: "('q, unit) action"
  tx_exec :: "'j sql \<Rightarrow> ('q, unit) action"
  tx_commit :: "('q, unit) action"
  tx_rollback :: "('q, unit) action"

text \<open>\<^verbatim>\<open>rows.Scan\<close> of a row with one or two columns.\<close>

definition scanError :: goerr where
  "scanError = PlainError ''sql: Scan error''"

fun scanText :: "'j sqlval \<Rightarrow> string res" where
  "scanText (SqlText s) = Ok s"
| "scanText (SqlBytes s) = Ok s"
| "scanText _ = Err scanError"

fun scanJson :: "'j sqlval \<Rightarrow> 'j res" where
  "scanJson (SqlJson raw) = Ok raw"
| "scanJson _ = Err scanError"

fun scanInt :: "'j sqlval \<Rightarrow> int res" where
  "scanInt (SqlInt n) = Ok n"
| "scanInt _ = Err scanError"

fun scan1 :: "('j sqlval \<Rightarrow> 'a res) \<Rightarrow> 'j sqlval list \<Rightarrow> 'a res" where
  "scan1 f [v] = f v"
| "scan1 f _ = Err scanError"

fun scan2 :: "('j sqlval \<Rightarrow> 'a res) \<Rightarrow> ('j sqlval \<Rightarrow> 'b res) \<Rightarrow> 'j sqlval list \<Rightarrow> ('a \<times> 'b) res" where
  "scan2 f g [v, w] = bindR (f v) (\<lambda>x. mapR (\<lambda>y. (x, y)) (g w))"
| "scan2 f g _ = Err scanError"

text \<open>A loop over the rows of a query, which ends with the check of \<^verbatim>\<open>rows.Err\<close>.\<close>

definition eachRow :: "('j sqlval list \<Rightarrow> 'a \<Rightarrow> 'a res) \<Rightarrow> 'j sqlrows \<Rightarrow> 'a \<Rightarrow> 'a res" where
  "eachRow f rows a =
     bindR (foldR f (fst rows) a) (\<lambda>b. case snd rows of None \<Rightarrow> Ok b | Some e \<Rightarrow> Err e)"

text \<open>\<^verbatim>\<open>QueryRow(...).Scan(...)\<close>: \<open>None\<close> is \<^verbatim>\<open>sql.ErrNoRows\<close>.\<close>

definition queryRow :: "('q, 'j) sqldb \<Rightarrow> 'j sql \<Rightarrow> ('j sqlval list \<Rightarrow> 'a res) \<Rightarrow> ('q, 'a option) action" where
  "queryRow D st scan =
     bindS (db_query D st) (\<lambda>rows. liftS
       (case fst rows of
          row # _ \<Rightarrow> mapR Some (scan row)
        | [] \<Rightarrow> (case snd rows of None \<Rightarrow> Ok None | Some e \<Rightarrow> Err e)))"

text \<open>\<^verbatim>\<open>defer tx.Rollback()\<close>: the transaction is rolled back unless the body committed it.\<close>

definition withRollback :: "('q, unit) action \<Rightarrow> ('q, 'a) action \<Rightarrow> ('q, 'a) action" where
  "withRollback rollback m s =
     (case m s of (Ok x, s') \<Rightarrow> (Ok x, s') | (Err e, s') \<Rightarrow> (Err e, snd (rollback s'))
      | (Panic p, s') \<Rightarrow> (Panic p, snd (rollback s')))"

lemma withRollback_Ok: "withRollback rollback m s = (Ok x, s') \<longleftrightarrow> m s = (Ok x, s')"
  by (auto simp: withRollback_def split: prod.splits res.splits)

end
