(* ===== verification/Mql_Value.thy ===== *)
theory Mql_Value
  imports Go_Value
begin

text \<open>
  The value layer of \<^verbatim>\<open>internal/mql/mql.go\<close>: conversions (\<open>asMap\<close>, \<open>asArray\<close>, \<open>ToFloat\<close>), the
  comparison every operator uses (\<open>equal\<close>, \<open>compare\<close>), type tests, and the lookup of a dotted
  path (\<open>valueByPath\<close>). The lemmas say on which values \<open>compare\<close> is an order.
\<close>

section \<open>Conversions\<close>

fun asMap :: "gval \<Rightarrow> doc" where
  "asMap (GDoc m) = m"
| "asMap (GMap m) = m"
| "asMap _ = []"

fun asArray :: "gval \<Rightarrow> gval list" where
  "asArray (GArr a) = a"
| "asArray (GSlice a) = a"
| "asArray (GDocs a) = map GDoc a"
| "asArray _ = []"

fun isNumber :: "gval \<Rightarrow> bool" where
  "isNumber (GInt _) = True"
| "isNumber (GInt32 _) = True"
| "isNumber (GInt64 _) = True"
| "isNumber (GFloat32 _) = True"
| "isNumber (GFloat64 _) = True"
| "isNumber _ = False"

fun ToFloat :: "gval \<Rightarrow> fp" where
  "ToFloat (GInt n) = fp_of_int (sint n)"
| "ToFloat (GInt32 n) = fp_of_int (sint n)"
| "ToFloat (GInt64 n) = fp_of_int (sint n)"
| "ToFloat (GFloat32 x) = fp_widen x"
| "ToFloat (GFloat64 x) = x"
| "ToFloat _ = fp_zero"

fun truthy :: "gval \<Rightarrow> bool" where
  "truthy (GBool b) = b"
| "truthy _ = False"

text \<open>\<open>CloneDoc\<close> copies the entries into a new map; the values are shared, which no value can tell.\<close>

definition CloneDoc :: "doc \<Rightarrow> doc" where
  "CloneDoc d = map (\<lambda>(k, v). (k, v)) d"

lemma CloneDoc_eq [simp]: "CloneDoc d = d"
  by (simp add: CloneDoc_def)

lemma map_CloneDoc [simp]: "map CloneDoc docs = docs"
  by (simp add: map_idI)

section \<open>Equality and order\<close>

definition equal :: "goenv \<Rightarrow> gval \<Rightarrow> gval \<Rightarrow> bool" where
  "equal E left right =
     (if isNumber left \<and> isNumber right then fp_eq (ToFloat left) (ToFloat right)
      else sprint E left = sprint E right)"

definition compare :: "goenv \<Rightarrow> gval \<Rightarrow> gval \<Rightarrow> int" where
  "compare E left right =
     (if isNumber left \<and> isNumber right then
        (let l = ToFloat left; r = ToFloat right
         in if l < r then - 1 else if r < l then 1 else 0)
      else
        (let l = sprint E left; r = sprint E right
         in if l < r then - 1 else if r < l then 1 else 0))"

definition addNumbers :: "gval \<Rightarrow> gval \<Rightarrow> gval" where
  "addNumbers left right = (if isNumber left then GFloat64 (ToFloat left + ToFloat right) else right)"

definition valueEquals :: "goenv \<Rightarrow> gval \<Rightarrow> gval \<Rightarrow> bool" where
  "valueEquals E got want \<longleftrightarrow>
     list_ex (\<lambda>item. equal E item want) (asArray got) \<or> equal E got want"

definition arrayContains :: "goenv \<Rightarrow> gval \<Rightarrow> gval \<Rightarrow> bool" where
  "arrayContains E array item \<longleftrightarrow> list_ex (\<lambda>candidate. equal E candidate item) (asArray array)"

section \<open>BSON type tests\<close>

definition matchesSingleBSONType :: "gval \<Rightarrow> string \<Rightarrow> bool" where
  "matchesSingleBSONType v name =
     (if name = ''string'' then (case v of GString _ \<Rightarrow> True | _ \<Rightarrow> False)
      else if name = ''int'' then (case v of GInt32 _ \<Rightarrow> True | _ \<Rightarrow> False)
      else if name = ''long'' then (case v of GInt64 _ \<Rightarrow> True | _ \<Rightarrow> False)
      else if name = ''double'' \<or> name = ''decimal'' then (case v of GFloat64 _ \<Rightarrow> True | _ \<Rightarrow> False)
      else if name = ''array'' then (case v of GArr _ \<Rightarrow> True | GSlice _ \<Rightarrow> True | _ \<Rightarrow> False)
      else if name = ''object'' then asMap v \<noteq> []
      else if name = ''date'' then (case v of GDateTime _ \<Rightarrow> True | _ \<Rightarrow> False)
      else True)"

definition matchesBSONType :: "goenv \<Rightarrow> gval \<Rightarrow> gval \<Rightarrow> bool" where
  "matchesBSONType E v rawType =
     (let types = (if asArray rawType = [] then [rawType] else asArray rawType)
      in list_ex (\<lambda>item. matchesSingleBSONType v (sprint E item)) types)"

definition matchesType :: "goenv \<Rightarrow> gval \<Rightarrow> string \<Rightarrow> bool" where
  "matchesType E v name = matchesBSONType E v (GString name)"

section \<open>Dotted paths\<close>

text \<open>
  One component of the path, from one value: a document gives the member, an array the member of
  each of its documents; anything else, a \<^verbatim>\<open>map[string]any\<close> included, gives nothing.
\<close>

definition pathMember :: "string \<Rightarrow> doc \<Rightarrow> gval list" where
  "pathMember part d = (case map_of d part of Some v \<Rightarrow> [v] | None \<Rightarrow> [])"

definition itemMember :: "string \<Rightarrow> gval \<Rightarrow> gval list" where
  "itemMember part item = (case item of GDoc d \<Rightarrow> pathMember part d | _ \<Rightarrow> [])"

fun pathStep :: "string \<Rightarrow> gval \<Rightarrow> gval list" where
  "pathStep part (GDoc m) = pathMember part m"
| "pathStep part (GArr a) = concat (map (itemMember part) a)"
| "pathStep part (GSlice a) = concat (map (itemMember part) a)"
| "pathStep part _ = []"

fun walkPath :: "string list \<Rightarrow> gval list \<Rightarrow> gval list option" where
  "walkPath [] vs = Some vs"
| "walkPath (part # parts) vs =
     (let next = concat (map (pathStep part) vs)
      in if next = [] then None else walkPath parts next)"

text \<open>The value and whether there is one; without one, the value is nil.\<close>

definition valueByPath :: "doc \<Rightarrow> string \<Rightarrow> gval \<times> bool" where
  "valueByPath d path =
     (case map_of d path of
        Some v \<Rightarrow> (v, True)
      | None \<Rightarrow>
          (case walkPath (split_on CHR ''.'' path) [GDoc d] of
             None \<Rightarrow> (GNil, False)
           | Some [v] \<Rightarrow> (v, True)
           | Some vs \<Rightarrow> (GArr vs, True)))"

section \<open>Lemmas on comparison\<close>

text \<open>The integer in a value of one of Go's integer types.\<close>

fun int_val :: "gval \<Rightarrow> int option" where
  "int_val (GInt n) = Some (sint n)"
| "int_val (GInt32 n) = Some (sint n)"
| "int_val (GInt64 n) = Some (sint n)"
| "int_val _ = None"

lemma int_val_number: "int_val v = Some i \<Longrightarrow> isNumber v"
  by (cases v) auto

lemma int_val_ToFloat: "int_val v = Some i \<Longrightarrow> ToFloat v = fp_of_int i"
  by (cases v) auto

lemma int_val_exact: "int_val v = Some i \<Longrightarrow> \<bar>i\<bar> < 2 ^ 53 \<Longrightarrow> fp_is_int (ToFloat v) i"
  by (simp add: int_val_ToFloat fp_is_int_of_int)

lemma sint32_range: "- (2 ^ 31) \<le> sint (n :: 32 word)" "sint (n :: 32 word) < 2 ^ 31"
  using sint_ge [of n] sint_lt [of n] by simp_all

lemma int32_exact: "fp_is_int (ToFloat (GInt32 n)) (sint n)"
  using sint32_range [of n] by (intro int_val_exact) simp_all

text \<open>An \<^verbatim>\<open>int32\<close> survives the way through \<^verbatim>\<open>float64\<close>.\<close>

lemma int32_to_i64: "sint (fp_to_i64 (ToFloat (GInt32 n))) = sint n"
proof -
  have "fp_to_i64 (ToFloat (GInt32 n)) = word_of_int (sint n)"
    using sint32_range [of n] by (intro fp_to_i64_is_int int32_exact) simp_all
  with sint32_range [of n] show ?thesis by (simp only:) (rule sint64_of_int, simp_all)
qed

lemma equal_ints:
  assumes "int_val a = Some i" and "int_val b = Some j" and "\<bar>i\<bar> < 2 ^ 53" and "\<bar>j\<bar> < 2 ^ 53"
  shows "equal E a b \<longleftrightarrow> i = j"
  using assms fp_eq_is_int [OF int_val_exact int_val_exact]
  by (simp add: equal_def int_val_number)

lemma compare_ints:
  assumes "int_val a = Some i" and "int_val b = Some j" and "\<bar>i\<bar> < 2 ^ 53" and "\<bar>j\<bar> < 2 ^ 53"
  shows "compare E a b = sgn (i - j)"
  using assms fp_less_is_int [OF int_val_exact int_val_exact, of a i b j]
    fp_less_is_int [OF int_val_exact int_val_exact, of b j a i]
  by (simp add: compare_def int_val_number Let_def sgn_if)

lemma compare_strings:
  "compare E (GString s) (GString t) = (if s < t then - 1 else if t < s then 1 else 0)"
  by (simp add: compare_def)

lemma equal_strings [simp]: "equal E (GString s) (GString t) \<longleftrightarrow> s = t"
  by (simp add: equal_def)

lemma compare_antisym: "compare E b a = - compare E a b"
  by (auto simp: compare_def Let_def dest: fp_less_asym order.asym)

text \<open>
  \<open>comparable\<close>: values on which \<open>compare\<close> is an order, either all numbers and none NaN, or no
  number among them.
\<close>

definition comparable :: "gval set \<Rightarrow> bool" where
  "comparable A \<longleftrightarrow>
     (\<forall>v \<in> A. isNumber v \<and> ToFloat v \<noteq> NaN) \<or> (\<forall>v \<in> A. \<not> isNumber v)"

lemma comparable_mono: "comparable A \<Longrightarrow> B \<subseteq> A \<Longrightarrow> comparable B"
  unfolding comparable_def by blast

lemma compare_neg_numbers:
  "isNumber a \<Longrightarrow> isNumber b \<Longrightarrow> compare E a b < 0 \<longleftrightarrow> ToFloat a < ToFloat b"
  by (simp add: compare_def Let_def)

lemma compare_neg_text:
  "\<not> isNumber a \<or> \<not> isNumber b \<Longrightarrow> compare E a b < 0 \<longleftrightarrow> sprint E a < sprint E b"
  by (auto simp: compare_def Let_def)

lemma strict_weak_cong:
  assumes "\<And>a b. a \<in> A \<Longrightarrow> b \<in> A \<Longrightarrow> lt a b \<longleftrightarrow> lt' a b" and "strict_weak A lt'"
  shows "strict_weak A lt"
  using assms unfolding strict_weak_def by meson

lemma strict_weak_text: "strict_weak A (\<lambda>a b. sprint E a < sprint E b)"
  unfolding strict_weak_def by (auto dest: order.strict_trans le_less_trans simp: not_less)

lemma strict_weak_float:
  "\<forall>v \<in> A. ToFloat v \<noteq> NaN \<Longrightarrow> strict_weak A (\<lambda>a b. ToFloat a < ToFloat b)"
  unfolding strict_weak_def
proof (intro conjI ballI impI)
  fix a b c
  assume "\<forall>v \<in> A. ToFloat v \<noteq> NaN" and "c \<in> A" and "ToFloat a < ToFloat b"
  then show "ToFloat a < ToFloat c \<or> ToFloat c < ToFloat b" by (simp add: fp_less_neg_trans)
qed (rule fp_less_irrefl, rule fp_less_trans)

lemma compare_strict_weak:
  assumes "comparable A"
  shows "strict_weak A (\<lambda>a b. compare E a b < 0)"
  using assms unfolding comparable_def
proof
  assume "\<forall>v \<in> A. isNumber v \<and> ToFloat v \<noteq> NaN"
  then show ?thesis
    by (intro strict_weak_cong [OF _ strict_weak_float]) (simp_all add: compare_neg_numbers)
next
  assume "\<forall>v \<in> A. \<not> isNumber v"
  then show ?thesis
    by (intro strict_weak_cong [OF _ strict_weak_text]) (simp add: compare_neg_text)
qed

lemma compare_pos: "compare E a b > 0 \<longleftrightarrow> compare E b a < 0"
  using compare_antisym [of E a b] by simp

lemma strict_weak_converse: "strict_weak A lt \<Longrightarrow> strict_weak A (\<lambda>a b. lt b a)"
  unfolding strict_weak_def by blast

section \<open>Lemmas on paths\<close>

text \<open>What a path means when it only goes through embedded documents.\<close>

fun docPath :: "string list \<Rightarrow> doc \<Rightarrow> gval option" where
  "docPath [] d = Some (GDoc d)"
| "docPath [p] d = map_of d p"
| "docPath (p # ps) d = (case map_of d p of Some (GDoc d') \<Rightarrow> docPath ps d' | _ \<Rightarrow> None)"

lemma walkPath_docPath:
  "parts \<noteq> [] \<Longrightarrow> docPath parts d = Some v \<Longrightarrow> walkPath parts [GDoc d] = Some [v]"
  by (induction parts d rule: docPath.induct)
    (auto simp: pathMember_def split: option.splits gval.splits)

lemma walkPath_cong:
  "map_of d = map_of d' \<Longrightarrow> ps \<noteq> [] \<Longrightarrow> walkPath ps [GDoc d] = walkPath ps [GDoc d']"
  by (cases ps) (simp_all add: pathMember_def)

lemma valueByPath_cong: "map_of d = map_of d' \<Longrightarrow> valueByPath d = valueByPath d'"
  using walkPath_cong [of d d'] by (auto simp: valueByPath_def fun_eq_iff split: option.split)

lemma valueByPath_literal: "map_of d path = Some v \<Longrightarrow> valueByPath d path = (v, True)"
  by (simp add: valueByPath_def)

lemma valueByPath_plain:
  "CHR ''.'' \<notin> set path \<Longrightarrow>
   valueByPath d path = (case map_of d path of Some v \<Rightarrow> (v, True) | None \<Rightarrow> (GNil, False))"
  by (simp add: valueByPath_def split_on_single pathMember_def split: option.splits)

lemma pathStep_wf: "wf_val v \<Longrightarrow> w \<in> set (pathStep p v) \<Longrightarrow> wf_val w"
proof (cases v)
  case (GDoc m)
  moreover assume "wf_val v" "w \<in> set (pathStep p v)"
  ultimately show ?thesis
    using wf_doc_lookup [of m p] by (auto simp: pathMember_def split: option.splits)
next
  case (GArr a)
  moreover assume "wf_val v" "w \<in> set (pathStep p v)"
  ultimately show ?thesis using wf_doc_lookup
    by (fastforce simp: itemMember_def pathMember_def wf_list_iff split: option.splits gval.splits)
next
  case (GSlice a)
  moreover assume "wf_val v" "w \<in> set (pathStep p v)"
  ultimately show ?thesis using wf_doc_lookup
    by (fastforce simp: itemMember_def pathMember_def wf_list_iff split: option.splits gval.splits)
qed auto

lemma walkPath_wf:
  "\<forall>v \<in> set vs. wf_val v \<Longrightarrow> walkPath ps vs = Some ws \<Longrightarrow> \<forall>w \<in> set ws. wf_val w"
proof (induction ps arbitrary: vs)
  case (Cons p ps)
  let ?next = "concat (map (pathStep p) vs)"
  from Cons.prems have "walkPath ps ?next = Some ws" by (auto simp: Let_def split: if_splits)
  moreover have "\<forall>v \<in> set ?next. wf_val v" using Cons.prems(1) pathStep_wf by fastforce
  ultimately show ?case using Cons.IH by blast
qed simp

lemma valueByPath_wf:
  assumes "wf_doc d"
  shows "wf_val (fst (valueByPath d path))"
proof -
  have "wf_list vs" if "walkPath (split_on CHR ''.'' path) [GDoc d] = Some vs" for vs
    using walkPath_wf [OF _ that] assms by (simp add: wf_list_iff)
  then show ?thesis
    using wf_doc_lookup [OF assms, of path] unfolding valueByPath_def
    by (auto split: option.split list.split)
qed

section \<open>Properties\<close>

text \<open>On integers below 2^53 in magnitude, whatever their Go types, \<open>equal\<close> and \<open>compare\<close> are
  equality and order of the integers.\<close>

theorem int_comparison_exact:
  assumes "int_val a = Some i" and "int_val b = Some j" and "\<bar>i\<bar> < 2 ^ 53" and "\<bar>j\<bar> < 2 ^ 53"
  shows "(equal E a b \<longleftrightarrow> i = j) \<and> compare E a b = sgn (i - j)"
  using equal_ints [OF assms] compare_ints [OF assms] by simp

theorem int_comparison_exact_witness:
  "\<not> equal demo_env (GInt32 (- 7)) (GInt64 9) \<and> compare demo_env (GInt32 (- 7)) (GInt64 9) = - 1"
  using int_comparison_exact [of "GInt32 (- 7)" "- 7" "GInt64 9" 9 demo_env] by simp

text \<open>On a set of values that are all numbers without a NaN, or all not numbers, "compares below
  0" is a strict weak order, which is what \<^verbatim>\<open>sort.SliceStable\<close> asks for.\<close>

theorem compare_orders_comparable_values:
  assumes "comparable A"
  shows "strict_weak A (\<lambda>a b. compare E a b < 0)"
  using assms by (rule compare_strict_weak)

theorem compare_orders_comparable_values_witness:
  "strict_weak {GInt32 3, GFloat64 (Inf True), GInt64 5} (\<lambda>a b. compare demo_env a b < 0)"
proof (rule compare_orders_comparable_values)
  have "fp_of_int 3 \<noteq> NaN" "fp_of_int 5 \<noteq> NaN" by (simp_all add: fp_eval)
  then show "comparable {GInt32 3, GFloat64 (Inf True), GInt64 5}" by (simp add: comparable_def)
qed

text \<open>Across types \<open>compare\<close> is no order: numbers compare by value but a number and a string
  compare as text, so 10 < "5" < 9 < 10.\<close>

theorem compare_cycle:
  "compare E (GInt32 10) (GString ''5'') < 0 \<and> compare E (GString ''5'') (GInt32 9) < 0 \<and>
   compare E (GInt32 9) (GInt32 10) < 0"
proof -
  have dec: "dec_int 10 = ''10''" "dec_int 9 = ''9''" by code_simp+
  have "compare E (GInt32 9) (GInt32 10) = sgn (9 - 10)" by (rule compare_ints) simp_all
  then show ?thesis by (simp add: compare_def dec)
qed

text \<open>\<open>equal\<close> confuses values of different type or size: an integer equals the string of its
  digits, and two \<^verbatim>\<open>int64\<close> above 2^53 that round to one \<^verbatim>\<open>float64\<close> are equal.\<close>

theorem equal_confuses:
  "equal E (GInt32 n) (GString (dec_int (sint n))) \<and>
   equal E (GInt64 9007199254740993) (GInt64 9007199254740992)"
proof -
  have "fp_eq (fp_of_int 9007199254740993) (fp_of_int 9007199254740992)" by (simp add: fp_eval)
  then show ?thesis by (simp add: equal_def)
qed

text \<open>A path through embedded documents finds the member it names, unless the document has a
  field with the dots in its name, which wins.\<close>

theorem valueByPath_embedded:
  assumes "map_of d path = None" and "docPath (split_on CHR ''.'' path) d = Some v"
  shows "valueByPath d path = (v, True)"
  using assms walkPath_docPath [OF split_on_nonempty assms(2)] by (simp add: valueByPath_def)

theorem valueByPath_embedded_witness:
  "valueByPath [(''a'', GDoc [(''b'', GInt32 7)])] ''a.b'' = (GInt32 7, True)"
  using valueByPath_embedded [of "[(''a'', GDoc [(''b'', GInt32 7)])]" "''a.b''" "GInt32 7"] by simp

text \<open>A path into an array collects the member from each document of the array, in order; a
  single hit is returned bare, several as an array.\<close>

theorem valueByPath_fanout:
  assumes "map_of d (f @ ''.'' @ g) = None" and "map_of d f = Some (GArr items)"
    and "CHR ''.'' \<notin> set f" and "CHR ''.'' \<notin> set g"
  shows "valueByPath d (f @ ''.'' @ g) =
    (case concat (map (itemMember g) items) of
       [] \<Rightarrow> (GNil, False) | [v] \<Rightarrow> (v, True) | vs \<Rightarrow> (GArr vs, True))"
  using assms split_on_append [of "CHR ''.''" f g] split_on_single [OF assms(3)] split_on_single [OF assms(4)]
  by (simp add: valueByPath_def pathMember_def Let_def del: concat_eq_Nil_conv split: list.split)

theorem valueByPath_fanout_witness:
  "valueByPath [(''l'', GArr [GDoc [(''s'', GInt32 1)], GNil, GDoc [(''s'', GInt32 2)]])] ''l.s'' =
   (GArr [GInt32 1, GInt32 2], True)"
  using valueByPath_fanout [of "[(''l'', GArr [GDoc [(''s'', GInt32 1)], GNil, GDoc [(''s'', GInt32 2)]])]"
      "''l''" "''s''" "[GDoc [(''s'', GInt32 1)], GNil, GDoc [(''s'', GInt32 2)]]"]
  by (simp add: itemMember_def pathMember_def)

end
