(* ===== verification/Mql_Update.thy ===== *)
theory Mql_Update
  imports Mql_Value
begin

unbundle bit_operations_syntax

text \<open>
  \<open>ApplyUpdate\<close> of \<^verbatim>\<open>internal/mql/mql.go\<close>: replacement documents and the update operators, one
  definition per operator. The Go function mutates its document and may return an error half way;
  both callers pass it a clone and drop the clone on an error, so the model returns the new
  document or the error. A panic (\<open>push_slice\<close>) is a result of its own.
\<close>

section \<open>Operators\<close>

definition update_set :: "doc \<Rightarrow> doc \<Rightarrow> doc" where
  "update_set body d = fold (\<lambda>(key, value) d. put key value d) body d"

definition update_inc :: "doc \<Rightarrow> doc \<Rightarrow> doc" where
  "update_inc body d = fold (\<lambda>(key, value) d. put key (addNumbers (field d key) value) d) body d"

definition update_mul :: "doc \<Rightarrow> doc \<Rightarrow> doc" where
  "update_mul body d =
     fold (\<lambda>(key, value) d. put key (GFloat64 (ToFloat (field d key) * ToFloat value)) d) body d"

definition update_min :: "goenv \<Rightarrow> doc \<Rightarrow> doc \<Rightarrow> doc" where
  "update_min E body d =
     fold (\<lambda>(key, value) d.
        if map_of d key = None \<or> compare E value (field d key) < 0 then put key value d else d) body d"

definition update_max :: "goenv \<Rightarrow> doc \<Rightarrow> doc \<Rightarrow> doc" where
  "update_max E body d =
     fold (\<lambda>(key, value) d.
        if map_of d key = None \<or> compare E value (field d key) > 0 then put key value d else d) body d"

definition update_rename :: "goenv \<Rightarrow> doc \<Rightarrow> doc \<Rightarrow> doc" where
  "update_rename E body d =
     fold (\<lambda>(source, rawTo) d.
        case map_of d source of
          Some value \<Rightarrow> del source (put (sprint E rawTo) value d)
        | None \<Rightarrow> d) body d"

definition update_unset :: "doc \<Rightarrow> doc \<Rightarrow> doc" where
  "update_unset body d = fold (\<lambda>(key, _) d. del key d) body d"

definition update_currentDate :: "64 word \<Rightarrow> doc \<Rightarrow> doc \<Rightarrow> doc" where
  "update_currentDate now body d = fold (\<lambda>(key, _) d. put key (GDateTime now) d) body d"

definition update_addToSet :: "goenv \<Rightarrow> doc \<Rightarrow> doc \<Rightarrow> doc" where
  "update_addToSet E body d =
     fold (\<lambda>(key, value) d.
        let arr = asArray (field d key);
            arr' = (if \<not> arrayContains E (GArr arr) value then arr @ [value] else arr)
        in put key (GArr arr') d) body d"

text \<open>
  \<^verbatim>\<open>arr[:n]\<close> and \<^verbatim>\<open>arr[len(arr)+n:]\<close> of \<^verbatim>\<open>$slice\<close>, with the negation and the sum in 64 bits: for the
  most negative \<open>n\<close> the negation is \<open>n\<close> itself, the guard holds and the slice expression panics.
\<close>

definition push_slice :: "64 word \<Rightarrow> 'a list \<Rightarrow> 'a list res" where
  "push_slice n arr =
     (let arr1 = (if 0 \<le> sint n \<and> sint n < int (length arr) then take (nat (sint n)) arr else arr)
      in if sint n < 0 \<and> sint (- n) < int (length arr1) then
           (let start = sint (word_of_int (int (length arr1)) + n)
            in if start < 0 \<or> int (length arr1) < start
                 then Panic ''runtime error: slice bounds out of range''
               else Ok (drop (nat start) arr1))
         else Ok arr1)"

definition push_value :: "goenv \<Rightarrow> gval \<Rightarrow> gval list \<Rightarrow> gval list res" where
  "push_value E value arr =
     (let spec = asMap value
      in if spec = [] then Ok (arr @ [value])
         else
           (let arr1 = arr @ asArray (field spec ''$each'');
                arr2 = (case map_of spec ''$sort'' of
                          None \<Rightarrow> arr1
                        | Some dir \<Rightarrow>
                            (if ToFloat dir < fp_zero
                               then slice_stable (\<lambda>x y. compare E x y > 0) arr1
                             else slice_stable (\<lambda>x y. compare E x y < 0) arr1))
            in case map_of spec ''$slice'' of
                 None \<Rightarrow> Ok arr2
               | Some rawSlice \<Rightarrow> push_slice (fp_to_i64 (ToFloat rawSlice)) arr2))"

definition update_push :: "goenv \<Rightarrow> doc \<Rightarrow> doc \<Rightarrow> doc res" where
  "update_push E body d =
     foldR (\<lambda>(key, value) d.
        mapR (\<lambda>arr. put key (GArr arr) d) (push_value E value (asArray (field d key)))) body d"

definition update_pull :: "goenv \<Rightarrow> doc \<Rightarrow> doc \<Rightarrow> doc" where
  "update_pull E body d =
     fold (\<lambda>(key, value) d.
        put key (GArr (filter (\<lambda>item. \<not> valueEquals E item value) (asArray (field d key)))) d) body d"

definition update_pop :: "doc \<Rightarrow> doc \<Rightarrow> doc" where
  "update_pop body d =
     fold (\<lambda>(key, value) d.
        let arr = asArray (field d key)
        in if arr = [] then d
           else put key (GArr (if ToFloat value < fp_zero then tl arr else butlast arr)) d) body d"

definition update_bit :: "doc \<Rightarrow> doc \<Rightarrow> doc" where
  "update_bit body d =
     fold (\<lambda>(key, value) d.
        let spec = asMap value;
            c0 = fp_to_i32 (ToFloat (field d key));
            c1 = (case map_of spec ''or'' of Some raw \<Rightarrow> c0 OR fp_to_i32 (ToFloat raw) | None \<Rightarrow> c0);
            c2 = (case map_of spec ''and'' of Some raw \<Rightarrow> c1 AND fp_to_i32 (ToFloat raw) | None \<Rightarrow> c1);
            c3 = (case map_of spec ''xor'' of Some raw \<Rightarrow> c2 XOR fp_to_i32 (ToFloat raw) | None \<Rightarrow> c2)
        in put key (GInt32 c3) d) body d"

section \<open>ApplyUpdate\<close>

definition applyOperator :: "goenv \<Rightarrow> 64 word \<Rightarrow> string \<Rightarrow> gval \<Rightarrow> doc \<Rightarrow> doc res" where
  "applyOperator E now op raw d =
     (let body = asMap raw
      in if op = ''$set'' then Ok (update_set body d)
         else if op = ''$inc'' then Ok (update_inc body d)
         else if op = ''$mul'' then Ok (update_mul body d)
         else if op = ''$min'' then Ok (update_min E body d)
         else if op = ''$max'' then Ok (update_max E body d)
         else if op = ''$rename'' then Ok (update_rename E body d)
         else if op = ''$unset'' then Ok (update_unset body d)
         else if op = ''$currentDate'' then Ok (update_currentDate now body d)
         else if op = ''$addToSet'' then Ok (update_addToSet E body d)
         else if op = ''$push'' then update_push E body d
         else if op = ''$pull'' then Ok (update_pull E body d)
         else if op = ''$pop'' then Ok (update_pop body d)
         else if op = ''$bit'' then Ok (update_bit body d)
         else Err (PlainError (''unsupported update operator '' @ op)))"

definition operatorStyle :: "doc \<Rightarrow> bool" where
  "operatorStyle update \<longleftrightarrow> list_ex (\<lambda>(key, _). key \<noteq> [] \<and> hd key = CHR ''$'') update"

text \<open>The replacement keeps the old \<open>_id\<close> unless it brings its own, or the old one is nil.\<close>

definition replaceDoc :: "doc \<Rightarrow> doc \<Rightarrow> doc" where
  "replaceDoc d update =
     (let id = field d ''_id'';
          d' = fold (\<lambda>(key, value) d. put key value d) update []
      in if map_of d' ''_id'' = None \<and> id \<noteq> GNil then put ''_id'' id d' else d')"

definition ApplyUpdate :: "goenv \<Rightarrow> 64 word \<Rightarrow> doc \<Rightarrow> doc \<Rightarrow> doc res" where
  "ApplyUpdate E now d update =
     (if update = [] then Ok d
      else if \<not> operatorStyle update then Ok (replaceDoc d update)
      else foldR (\<lambda>(op, raw) d. applyOperator E now op raw d) update d)"

section \<open>Operators that work field by field\<close>

text \<open>
  Most operators visit the fields of their argument one by one and replace each by a function of
  its old value and the operand. This is the contract \<open>fieldwise\<close>; it gives the value of every
  field afterwards, and that the order in which Go visits the argument does not matter.
\<close>

locale fieldwise =
  fixes step :: "string \<Rightarrow> gval \<Rightarrow> doc \<Rightarrow> doc"
    and G :: "gval option \<Rightarrow> gval \<Rightarrow> gval option"
  assumes step: "map_of (step k v d) = (map_of d)(k := G (map_of d k) v)"
    and step_distinct: "distinct (keys d) \<Longrightarrow> distinct (keys (step k v d))"
begin

lemma lookup:
  "distinct (keys body) \<Longrightarrow>
   map_of (fold (\<lambda>(k, v). step k v) body d) k =
     (case map_of body k of None \<Rightarrow> map_of d k | Some v \<Rightarrow> G (map_of d k) v)"
proof (induction body arbitrary: d)
  case (Cons e body)
  obtain k' v' where e: "e = (k', v')" by (cases e)
  with Cons.prems have "map_of body k' = None" and "distinct (keys body)"
    by (simp_all add: map_of_eq_None_iff)
  with Cons.IH [of "step k' v' d"] show ?case by (auto simp: e step split: option.split)
qed simp

lemma frame:
  "k \<notin> set (keys body) \<Longrightarrow> map_of (fold (\<lambda>(k, v). step k v) body d) k = map_of d k"
  by (induction body arbitrary: d) (auto simp: step)

lemma order_independent:
  assumes "distinct (keys body)" and "mset body' = mset body"
  shows "map_of (fold (\<lambda>(k, v). step k v) body' d) = map_of (fold (\<lambda>(k, v). step k v) body d)"
proof
  fix k
  have "distinct (keys body')" using assms by (metis mset_eq_imp_distinct_iff mset_map)
  then show "map_of (fold (\<lambda>(k, v). step k v) body' d) k = map_of (fold (\<lambda>(k, v). step k v) body d) k"
    using assms mset_map_of_eq [OF assms(2)] by (simp add: lookup)
qed

lemma distinct_fold:
  "distinct (keys d) \<Longrightarrow> distinct (keys (fold (\<lambda>(k, v). step k v) body d))"
  by (induction body arbitrary: d) (auto simp: step_distinct)

end

definition or_nil :: "gval option \<Rightarrow> gval" where
  "or_nil old = (case old of None \<Rightarrow> GNil | Some v \<Rightarrow> v)"

lemma or_nil_simps [simp]: "or_nil None = GNil" "or_nil (Some v) = v"
  by (simp_all add: or_nil_def)

lemma field_or_nil: "field d k = or_nil (map_of d k)"
  by (simp add: field_def or_nil_def)

text \<open>Adding to a set: nothing when an equal element is there.\<close>

definition set_insert :: "goenv \<Rightarrow> gval \<Rightarrow> gval list \<Rightarrow> gval list" where
  "set_insert E v arr = (if arrayContains E (GArr arr) v then arr else arr @ [v])"

named_theorems fieldwise_simps \<open>why an operator is fieldwise\<close>

lemmas [fieldwise_simps] =
  map_of_put map_of_del distinct_put distinct_del field_or_nil fun_upd_triv set_insert_def Let_def

interpretation set_op: fieldwise
  "\<lambda>key value d. put key value d"
  "\<lambda>_ v. Some v"
  by unfold_locales (auto simp: fieldwise_simps)

interpretation inc_op: fieldwise
  "\<lambda>key value d. put key (addNumbers (field d key) value) d"
  "\<lambda>old v. Some (addNumbers (or_nil old) v)"
  by unfold_locales (auto simp: fieldwise_simps)

interpretation mul_op: fieldwise
  "\<lambda>key value d. put key (GFloat64 (ToFloat (field d key) * ToFloat value)) d"
  "\<lambda>old v. Some (GFloat64 (ToFloat (or_nil old) * ToFloat v))"
  by unfold_locales (auto simp: fieldwise_simps)

interpretation min_op: fieldwise
  "\<lambda>key value d. if map_of d key = None \<or> compare E value (field d key) < 0 then put key value d else d"
  "\<lambda>old v. if old = None \<or> compare E v (or_nil old) < 0 then Some v else old" for E
  by unfold_locales (auto simp: fieldwise_simps)

interpretation max_op: fieldwise
  "\<lambda>key value d. if map_of d key = None \<or> compare E value (field d key) > 0 then put key value d else d"
  "\<lambda>old v. if old = None \<or> compare E v (or_nil old) > 0 then Some v else old" for E
  by unfold_locales (auto simp: fieldwise_simps)

interpretation unset_op: fieldwise
  "\<lambda>key value d. del key d"
  "\<lambda>_ _. None"
  by unfold_locales (auto simp: fieldwise_simps)

interpretation currentDate_op: fieldwise
  "\<lambda>key value d. put key (GDateTime now) d"
  "\<lambda>_ _. Some (GDateTime now)" for now
  by unfold_locales (auto simp: fieldwise_simps)

interpretation addToSet_op: fieldwise
  "\<lambda>key value d. let arr = asArray (field d key);
            arr' = (if \<not> arrayContains E (GArr arr) value then arr @ [value] else arr)
        in put key (GArr arr') d"
  "\<lambda>old v. Some (GArr (set_insert E v (asArray (or_nil old))))" for E
  by unfold_locales (auto simp: fieldwise_simps)

interpretation pull_op: fieldwise
  "\<lambda>key value d. put key (GArr (filter (\<lambda>item. \<not> valueEquals E item value) (asArray (field d key)))) d"
  "\<lambda>old v. Some (GArr (filter (\<lambda>item. \<not> valueEquals E item v) (asArray (or_nil old))))" for E
  by unfold_locales (auto simp: fieldwise_simps)

interpretation pop_op: fieldwise
  "\<lambda>key value d. let arr = asArray (field d key)
        in if arr = [] then d
           else put key (GArr (if ToFloat value < fp_zero then tl arr else butlast arr)) d"
  "\<lambda>old v. if asArray (or_nil old) = [] then old
      else Some (GArr (if ToFloat v < fp_zero then tl (asArray (or_nil old)) else butlast (asArray (or_nil old))))"
  by unfold_locales (auto simp: fieldwise_simps)

definition bit_result :: "gval option \<Rightarrow> gval \<Rightarrow> 32 word" where
  "bit_result old v =
     (let spec = asMap v;
          c0 = fp_to_i32 (ToFloat (or_nil old));
          c1 = (case map_of spec ''or'' of Some raw \<Rightarrow> c0 OR fp_to_i32 (ToFloat raw) | None \<Rightarrow> c0);
          c2 = (case map_of spec ''and'' of Some raw \<Rightarrow> c1 AND fp_to_i32 (ToFloat raw) | None \<Rightarrow> c1)
      in case map_of spec ''xor'' of Some raw \<Rightarrow> c2 XOR fp_to_i32 (ToFloat raw) | None \<Rightarrow> c2)"

interpretation bit_op: fieldwise
  "\<lambda>key value d. put key (GInt32 (bit_result (map_of d key) value)) d"
  "\<lambda>old v. Some (GInt32 (bit_result old v))"
  by unfold_locales (auto simp: fieldwise_simps)

lemma update_bit_eq:
  "update_bit body d =
     fold (\<lambda>(key, value). (\<lambda>key value d. put key (GInt32 (bit_result (map_of d key) value)) d) key value) body d"
  unfolding update_bit_def bit_result_def field_or_nil Let_def by (rule refl)

section \<open>What the operators do to a field\<close>

lemma update_set_lookup:
  "distinct (keys body) \<Longrightarrow>
   map_of (update_set body d) k = (case map_of body k of None \<Rightarrow> map_of d k | Some v \<Rightarrow> Some v)"
  unfolding update_set_def by (rule set_op.lookup)

lemma update_inc_lookup:
  "distinct (keys body) \<Longrightarrow>
   map_of (update_inc body d) k =
     (case map_of body k of None \<Rightarrow> map_of d k | Some v \<Rightarrow> Some (addNumbers (field d k) v))"
  unfolding update_inc_def field_or_nil by (rule inc_op.lookup [unfolded field_or_nil])

lemma update_addToSet_lookup:
  "distinct (keys body) \<Longrightarrow>
   map_of (update_addToSet E body d) k =
     (case map_of body k of None \<Rightarrow> map_of d k
      | Some v \<Rightarrow> Some (GArr (set_insert E v (asArray (field d k)))))"
  unfolding update_addToSet_def field_or_nil by (rule addToSet_op.lookup [unfolded field_or_nil])

lemma update_pull_lookup:
  "distinct (keys body) \<Longrightarrow>
   map_of (update_pull E body d) k =
     (case map_of body k of None \<Rightarrow> map_of d k
      | Some v \<Rightarrow> Some (GArr (filter (\<lambda>item. \<not> valueEquals E item v) (asArray (field d k)))))"
  unfolding update_pull_def field_or_nil by (rule pull_op.lookup [unfolded field_or_nil])

lemma update_bit_lookup:
  "distinct (keys body) \<Longrightarrow>
   map_of (update_bit body d) k =
     (case map_of body k of None \<Rightarrow> map_of d k | Some v \<Rightarrow> Some (GInt32 (bit_result (map_of d k) v)))"
  unfolding update_bit_eq by (rule bit_op.lookup)

text \<open>Pushing is fieldwise as far as it succeeds.\<close>

lemma update_push_frame:
  "update_push E body d = Ok d' \<Longrightarrow> k \<notin> set (keys body) \<Longrightarrow> map_of d' k = map_of d k"
  unfolding update_push_def
  by (rule foldR_invariant [where P = "\<lambda>d'. map_of d' k = map_of d k", rotated])
    (auto simp: res_simps map_simps rev_image_eqI)

lemma update_push_distinct:
  "update_push E body d = Ok d' \<Longrightarrow> distinct (keys d) \<Longrightarrow> distinct (keys d')"
  unfolding update_push_def
  by (erule foldR_invariant [where P = "\<lambda>d. distinct (keys d)"]) (auto simp: res_simps map_simps)

lemma update_push_single:
  "update_push E [(k, v)] d = mapR (\<lambda>arr. put k (GArr arr) d) (push_value E v (asArray (field d k)))"
  by (cases "push_value E v (asArray (field d k))") (simp_all add: update_push_def)

lemma update_rename_frame:
  "k \<notin> set (keys body) \<Longrightarrow> k \<notin> sprint E ` snd ` set body \<Longrightarrow>
   map_of (update_rename E body d) k = map_of d k"
  unfolding update_rename_def
  by (induction body arbitrary: d) (auto simp: map_simps image_iff split: option.splits)

lemma update_rename_distinct:
  "distinct (keys d) \<Longrightarrow> distinct (keys (update_rename E body d))"
  unfolding update_rename_def
  by (induction body arbitrary: d) (auto simp: map_simps split: option.splits)

lemma update_rename_single:
  "update_rename E [(s, v)] d =
     (case map_of d s of Some value \<Rightarrow> del s (put (sprint E v) value d) | None \<Rightarrow> d)"
  by (simp add: update_rename_def)

section \<open>Invariants of ApplyUpdate\<close>

text \<open>The fields an operator may write: its own, and for a rename the new names as well.\<close>

definition touches :: "goenv \<Rightarrow> string \<Rightarrow> gval \<Rightarrow> string set" where
  "touches E op raw =
     set (keys (asMap raw)) \<union> (if op = ''$rename'' then sprint E ` snd ` set (asMap raw) else {})"

lemma applyOperator_frame:
  assumes "applyOperator E now op raw d = Ok d'" and "k \<notin> touches E op raw"
  shows "map_of d' k = map_of d k"
proof -
  have k: "k \<notin> set (keys (asMap raw))" using assms(2) by (simp add: touches_def)
  have ren: "op = ''$rename'' \<Longrightarrow> k \<notin> sprint E ` snd ` set (asMap raw)"
    using assms(2) by (simp add: touches_def)
  note frames = set_op.frame inc_op.frame mul_op.frame min_op.frame max_op.frame unset_op.frame
    currentDate_op.frame addToSet_op.frame pull_op.frame pop_op.frame bit_op.frame
  show ?thesis
    using assms(1) k ren update_rename_frame [OF k] update_push_frame [OF _ k]
    unfolding applyOperator_def Let_def update_set_def update_inc_def update_mul_def update_min_def
      update_max_def update_unset_def update_currentDate_def update_addToSet_def [unfolded Let_def]
      update_pull_def update_pop_def [unfolded Let_def] update_bit_eq
    by (auto simp: frames [OF k, unfolded Let_def] split: if_splits)
qed

lemma applyOperator_distinct:
  assumes "applyOperator E now op raw d = Ok d'" and "distinct (keys d)"
  shows "distinct (keys d')"
proof -
  note dist = set_op.distinct_fold inc_op.distinct_fold mul_op.distinct_fold min_op.distinct_fold
    max_op.distinct_fold unset_op.distinct_fold currentDate_op.distinct_fold
    addToSet_op.distinct_fold pull_op.distinct_fold pop_op.distinct_fold bit_op.distinct_fold
  show ?thesis
    using assms(1) update_rename_distinct [OF assms(2)] update_push_distinct [OF _ assms(2)]
    unfolding applyOperator_def Let_def update_set_def update_inc_def update_mul_def update_min_def
      update_max_def update_unset_def update_currentDate_def update_addToSet_def [unfolded Let_def]
      update_pull_def update_pop_def [unfolded Let_def] update_bit_eq
    by (auto simp: dist [OF assms(2), unfolded Let_def] split: if_splits)
qed

lemma ApplyUpdate_operators_frame:
  assumes "operatorStyle update" and "ApplyUpdate E now d update = Ok d'"
    and "\<forall>(op, raw) \<in> set update. k \<notin> touches E op raw"
  shows "map_of d' k = map_of d k"
proof (cases "update = []")
  case False
  with assms(1,2) have "foldR (\<lambda>(op, raw) d. applyOperator E now op raw d) update d = Ok d'"
    by (simp add: ApplyUpdate_def)
  then show ?thesis
    using assms(3) applyOperator_frame
    by (elim foldR_invariant [where P = "\<lambda>d'. map_of d' k = map_of d k"]) auto
qed (use assms(2) in \<open>simp add: ApplyUpdate_def\<close>)

lemma replaceDoc_distinct: "distinct (keys (replaceDoc d update))"
  using set_op.distinct_fold [of "[]" update]
  by (auto simp: replaceDoc_def Let_def map_simps)

lemma ApplyUpdate_distinct:
  assumes "ApplyUpdate E now d update = Ok d'" and "distinct (keys d)"
  shows "distinct (keys d')"
proof (cases "update = [] \<or> \<not> operatorStyle update")
  case True
  with assms show ?thesis by (auto simp: ApplyUpdate_def replaceDoc_distinct split: if_splits)
next
  case False
  with assms(1) have "foldR (\<lambda>(op, raw) d. applyOperator E now op raw d) update d = Ok d'"
    by (simp add: ApplyUpdate_def)
  then show ?thesis
    using assms(2) applyOperator_distinct
    by (elim foldR_invariant [where P = "\<lambda>d. distinct (keys d)"]) auto
qed

text \<open>Replacing keeps every field of the replacement, and the old \<open>_id\<close> if the replacement has none.\<close>

lemma replaceDoc_lookup:
  assumes "distinct (keys update)"
  shows "map_of (replaceDoc d update) k =
    (if k = ''_id'' \<and> map_of update k = None \<and> field d k \<noteq> GNil then Some (field d k)
     else map_of update k)"
  using set_op.lookup [OF assms, of "[]"]
  by (auto simp: replaceDoc_def Let_def map_simps split: option.splits)

text \<open>Updates that leave \<open>_id\<close> alone.\<close>

definition keeps_id :: "goenv \<Rightarrow> doc \<Rightarrow> bool" where
  "keeps_id E update \<longleftrightarrow>
     (if operatorStyle update then \<forall>(op, raw) \<in> set update. ''_id'' \<notin> touches E op raw
      else distinct (keys update) \<and> ''_id'' \<notin> set (keys update))"

lemma ApplyUpdate_keeps_id:
  assumes "ApplyUpdate E now d update = Ok d'" and "keeps_id E update"
    and "map_of d ''_id'' = Some oid" and "oid \<noteq> GNil"
  shows "map_of d' ''_id'' = Some oid"
proof (cases "operatorStyle update")
  case True
  with assms show ?thesis
    using ApplyUpdate_operators_frame [OF True assms(1), of "''_id''"] by (simp add: keeps_id_def)
next
  case False
  with assms show ?thesis
    by (auto simp: ApplyUpdate_def keeps_id_def replaceDoc_lookup map_of_eq_None_iff split: if_splits)
qed

section \<open>Lemmas on single operators\<close>

lemma ApplyUpdate_single:
  "op \<noteq> [] \<Longrightarrow> hd op = CHR ''$'' \<Longrightarrow> ApplyUpdate E now d [(op, raw)] = applyOperator E now op raw d"
  by (cases "applyOperator E now op raw d") (simp_all add: ApplyUpdate_def operatorStyle_def)

text \<open>The slice of a push: a prefix, a suffix, or a crash.\<close>

lemma push_slice_eq:
  assumes len: "int (length arr) < 2 ^ 63"
  shows "push_slice n arr =
    (if sint n = - (2 ^ 63) then Panic ''runtime error: slice bounds out of range''
     else if 0 \<le> sint n then Ok (take (nat (sint n)) arr)
     else Ok (drop (nat (int (length arr) + sint n)) arr))"
proof -
  let ?len = "int (length arr)"
  have "sint (word_of_int ?len :: 64 word) = ?len" using len by (intro sint64_of_int) simp_all
  then have start: "sint n < 0 \<Longrightarrow> sint (word_of_int ?len + n) = ?len + sint n"
    using sint64_range(1) [of n] len by (subst sint64_plus) linarith+
  consider "0 \<le> sint n" | "sint n = - (2 ^ 63)" | "sint n < 0" "sint n \<noteq> - (2 ^ 63)" by linarith
  then show ?thesis
  proof cases
    case 1
    then show ?thesis by (simp add: push_slice_def Let_def)
  next
    case 2
    then have "n = - (2 ^ 63)" by (intro signed_word_eqI) simp
    with 2 start len show ?thesis by (simp add: push_slice_def Let_def)
  next
    case 3
    with start sint64_uminus [OF 3(2)] show ?thesis
      by (auto simp: push_slice_def Let_def)
  qed
qed

lemma push_value_doc:
  "asMap value = spec \<Longrightarrow> spec \<noteq> [] \<Longrightarrow> map_of spec ''$sort'' = None \<Longrightarrow>
   push_value E value arr =
     (case map_of spec ''$slice'' of
        None \<Rightarrow> Ok (arr @ asArray (field spec ''$each''))
      | Some n \<Rightarrow> push_slice (fp_to_i64 (ToFloat n)) (arr @ asArray (field spec ''$each'')))"
  by (auto simp: push_value_def Let_def)

lemma applyOperator_push:
  "applyOperator E now ''$push'' (GDoc body) d = update_push E body d"
  by (simp add: applyOperator_def)

text \<open>The operators with a case of their own.\<close>

definition update_operators :: "string set" where
  "update_operators =
     {''$set'', ''$inc'', ''$mul'', ''$min'', ''$max'', ''$rename'', ''$unset'', ''$currentDate'',
      ''$addToSet'', ''$push'', ''$pull'', ''$pop'', ''$bit''}"

lemma applyOperator_supported:
  "applyOperator E now op raw d = Ok d' \<Longrightarrow>
   op \<in> update_operators"
  by (auto simp: update_operators_def applyOperator_def Let_def split: if_splits)

lemma equal_refl: "ToFloat v \<noteq> NaN \<Longrightarrow> equal E v v"
  by (cases "ToFloat v") (simp_all add: equal_def)

lemma arrayContains_append:
  "arrayContains E (GArr (xs @ [v])) w \<longleftrightarrow> arrayContains E (GArr xs) w \<or> equal E v w"
  by (simp add: arrayContains_def)

lemma applyOperator_addToSet:
  "applyOperator E now ''$addToSet'' (GDoc [(k, v)]) d =
   Ok (put k (GArr (set_insert E v (asArray (field d k)))) d)"
  by (simp add: applyOperator_def update_addToSet_def set_insert_def Let_def)

section \<open>Properties\<close>

text \<open>C18: An update that does not mention \<open>_id\<close>, as operators or as a replacement, keeps the \<open>_id\<close> of
  the document, when it has one other than null.\<close>

theorem ApplyUpdate_preserves_id:
  assumes "ApplyUpdate E now d update = Ok d'" and "keeps_id E update"
    and "map_of d ''_id'' = Some oid" and "oid \<noteq> GNil"
  shows "map_of d' ''_id'' = Some oid"
  using assms by (rule ApplyUpdate_keeps_id)

theorem ApplyUpdate_preserves_id_witness:
  "map_of [(''a'', GInt32 2), (''_id'', GInt32 1)] ''_id'' = Some (GInt32 1)"
proof (rule ApplyUpdate_preserves_id)
  show "ApplyUpdate demo_env 0 [(''_id'', GInt32 1), (''b'', GNil)] [(''a'', GInt32 2)] =
      Ok [(''a'', GInt32 2), (''_id'', GInt32 1)]"
    by (simp add: ApplyUpdate_def operatorStyle_def replaceDoc_def)
qed (simp_all add: keeps_id_def operatorStyle_def)

text \<open>C40: \<^verbatim>\<open>$inc\<close> of an \<^verbatim>\<open>int32\<close> field by an \<^verbatim>\<open>int32\<close> stores exactly the sum, as a \<^verbatim>\<open>double\<close>: there is no
  wrap-around, but the field changes its type; the other fields stay.\<close>

theorem inc_int32_becomes_exact_double:
  assumes "map_of d k = Some (GInt32 i)"
  shows "\<exists>d' x. ApplyUpdate E now d [(''$inc'', GDoc [(k, GInt32 j)])] = Ok d' \<and>
    map_of d' k = Some (GFloat64 x) \<and> fp_is_int x (sint i + sint j) \<and>
    (\<forall>k'. k' \<noteq> k \<longrightarrow> map_of d' k' = map_of d k')"
  using assms fp_plus_is_int [OF int32_exact int32_exact, of i j] sint32_range [of i] sint32_range [of j]
  by (auto simp: ApplyUpdate_single applyOperator_def update_inc_def addNumbers_def map_simps)

theorem inc_int32_becomes_exact_double_witness:
  "\<exists>d' x. ApplyUpdate demo_env 0 [(''n'', GInt32 2147483647)] [(''$inc'', GDoc [(''n'', GInt32 1)])] = Ok d' \<and>
    map_of d' ''n'' = Some (GFloat64 x) \<and> fp_is_int x 2147483648"
  using inc_int32_becomes_exact_double [of "[(''n'', GInt32 2147483647)]" "''n''" 2147483647 demo_env 0 1] by auto

text \<open>C19: \<^verbatim>\<open>$push\<close> with \<^verbatim>\<open>$each\<close> and an \<^verbatim>\<open>int32\<close> \<^verbatim>\<open>$slice\<close> appends the elements and keeps the first \<open>n\<close>
  of the result, or the last \<open>- n\<close> when \<open>n\<close> is negative.\<close>

theorem push_slice_window:
  assumes "map_of d k = Some (GArr arr)" and "int (length arr + length xs) < 2 ^ 63"
  shows "\<exists>d'. ApplyUpdate E now d
      [(''$push'', GDoc [(k, GDoc [(''$each'', GArr xs), (''$slice'', GInt32 n)])])] = Ok d' \<and>
    map_of d' k = Some (GArr
      (if 0 \<le> sint n then take (nat (sint n)) (arr @ xs)
       else drop (length (arr @ xs) - nat (- sint n)) (arr @ xs)))"
proof -
  have n: "sint (fp_to_i64 (fp_of_int (sint n))) = sint n"
    using int32_to_i64 [of n] by simp
  have "nat (int (length (arr @ xs)) + sint n) = length (arr @ xs) - nat (- sint n)" if "sint n < 0"
    using that by linarith
  then show ?thesis
    using assms sint32_range [of n]
    by (auto simp: ApplyUpdate_single applyOperator_push update_push_single push_value_doc push_slice_eq
      field_def n map_simps simp del: drop_append)
qed

theorem push_slice_window_witness:
  "\<exists>d'. ApplyUpdate demo_env 0 [(''l'', GArr [GInt32 1, GInt32 2])]
      [(''$push'', GDoc [(''l'', GDoc [(''$each'', GArr [GInt32 3]), (''$slice'', GInt32 (- 2))])])] = Ok d' \<and>
    map_of d' ''l'' = Some (GArr [GInt32 2, GInt32 3])"
  using push_slice_window [of "[(''l'', GArr [GInt32 1, GInt32 2])]" "''l''" "[GInt32 1, GInt32 2]" "[GInt32 3]"
      demo_env 0 "- 2"] by auto

text \<open>A \<^verbatim>\<open>$slice\<close> of the most negative \<^verbatim>\<open>int64\<close> makes \<^verbatim>\<open>$push\<close> panic, whatever the document and the
  pushed elements: the negation in the guard wraps around. No handler recovers, so the process ends.\<close>

theorem push_slice_crash:
  assumes "int (length (asArray (field d k)) + length xs) < 2 ^ 63"
  shows "is_Panic (ApplyUpdate E now d
      [(''$push'', GDoc [(k, GDoc [(''$each'', GArr xs), (''$slice'', GInt64 (- (2 ^ 63)))])])])"
proof -
  have "sint (fp_to_i64 (fp_of_int (- (2 ^ 63)))) = - (2 ^ 63)" by (simp add: fp_eval)
  then show ?thesis
    using assms
    by (simp add: ApplyUpdate_single applyOperator_push update_push_single push_value_doc push_slice_eq
      field_def)
qed

theorem push_slice_crash_witness:
  "is_Panic (ApplyUpdate demo_env 0 []
      [(''$push'', GDoc [(''l'', GDoc [(''$each'', GArr []), (''$slice'', GInt64 (- (2 ^ 63)))])])])"
  by (rule push_slice_crash) simp

text \<open>Pushing a document that is not empty and has none of the modifiers adds nothing to the array and
  reports success: every document is taken for a list of modifiers.\<close>

theorem push_document_is_lost:
  assumes "map_of d k = Some (GArr arr)" and "v \<noteq> []"
    and "\<forall>m \<in> {''$each'', ''$sort'', ''$slice''}. m \<notin> set (keys v)"
  shows "\<exists>d'. ApplyUpdate E now d [(''$push'', GDoc [(k, GDoc v)])] = Ok d' \<and> map_of d' k = Some (GArr arr)"
proof -
  have "map_of v ''$each'' = None" "map_of v ''$sort'' = None" "map_of v ''$slice'' = None"
    using assms(3) by (simp_all add: map_of_eq_None_iff)
  with assms(1,2) show ?thesis
    by (simp add: ApplyUpdate_single applyOperator_push update_push_single push_value_doc map_simps)
qed

theorem push_document_is_lost_witness:
  "\<exists>d'. ApplyUpdate demo_env 0 [(''items'', GArr [])] [(''$push'', GDoc [(''items'', GDoc [(''sku'', GInt32 7)])])] = Ok d' \<and>
     map_of d' ''items'' = Some (GArr [])"
  using push_document_is_lost [of "[(''items'', GArr [])]" "''items''" "[]" "[(''sku'', GInt32 7)]" demo_env 0] by simp

text \<open>Renaming a field to its own name removes the field.\<close>

theorem rename_to_itself_deletes:
  "\<exists>d'. ApplyUpdate E now d [(''$rename'', GDoc [(k, GString k)])] = Ok d' \<and>
     map_of d' = (map_of d)(k := None)"
  by (simp add: ApplyUpdate_single applyOperator_def update_rename_single map_simps fun_upd_idem split: option.splits)

text \<open>\<^verbatim>\<open>$addToSet\<close> appends a value exactly when no equal one is there, so doing it again changes
  nothing (but for a NaN, which equals nothing).\<close>

theorem addToSet_is_idempotent:
  assumes "map_of d k = Some (GArr arr)" and "ToFloat v \<noteq> NaN"
  shows "\<exists>d'. ApplyUpdate E now d [(''$addToSet'', GDoc [(k, v)])] = Ok d' \<and>
     map_of d' k = Some (GArr (if arrayContains E (GArr arr) v then arr else arr @ [v])) \<and>
     ApplyUpdate E now d' [(''$addToSet'', GDoc [(k, v)])] = Ok d'"
  using assms
  by (simp add: ApplyUpdate_single applyOperator_addToSet map_simps set_insert_def arrayContains_append put_put_same equal_refl)

theorem addToSet_is_idempotent_witness:
  "\<exists>d'. ApplyUpdate demo_env 0 [(''s'', GArr [])] [(''$addToSet'', GDoc [(''s'', GString ''x'')])] = Ok d' \<and>
     map_of d' ''s'' = Some (GArr [GString ''x'']) \<and>
     ApplyUpdate demo_env 0 d' [(''$addToSet'', GDoc [(''s'', GString ''x'')])] = Ok d'"
  using addToSet_is_idempotent [of "[(''s'', GArr [])]" "''s''" "[]" "GString ''x''" demo_env 0]
  by (simp add: arrayContains_def)

text \<open>\<^verbatim>\<open>$bit\<close> on an \<^verbatim>\<open>int32\<close> field applies or, and, xor in this order on the 32 bits, although every
  operand goes through \<^verbatim>\<open>float64\<close>.\<close>

theorem bit_int32:
  assumes "map_of d k = Some (GInt32 c)"
  shows "\<exists>d'. ApplyUpdate E now d [(''$bit'', GDoc [(k, GDoc [(''or'', GInt32 a), (''and'', GInt32 b), (''xor'', GInt32 x)])])]
      = Ok d' \<and> map_of d' k = Some (GInt32 (((c OR a) AND b) XOR x))"
proof -
  have "fp_to_i32 (ToFloat (GInt32 n)) = n" for n
    using fp_to_i32_is_int [OF int32_exact, of n] sint32_range [of n] by simp
  then show ?thesis
    using assms by (simp add: ApplyUpdate_single applyOperator_def update_bit_lookup bit_result_def Let_def del: ToFloat.simps)
qed

theorem bit_int32_witness:
  "\<exists>d'. ApplyUpdate demo_env 0 [(''f'', GInt32 12)]
      [(''$bit'', GDoc [(''f'', GDoc [(''or'', GInt32 3), (''and'', GInt32 (- 2)), (''xor'', GInt32 1)])])] = Ok d' \<and>
     map_of d' ''f'' = Some (GInt32 (((12 OR 3) AND - 2) XOR 1))"
  by (rule bit_int32) simp

text \<open>An update that uses operators succeeds only if every name in it is a supported operator: neither an
  unknown operator nor a plain field among operators is ignored.\<close>

theorem ApplyUpdate_rejects_unsupported:
  assumes "ApplyUpdate E now d update = Ok d'" and "operatorStyle update" and "op \<in> set (keys update)"
  shows "op \<in> update_operators"
proof -
  from assms(3) obtain raw where op: "(op, raw) \<in> set update" by auto
  with assms have "foldR (\<lambda>(op, raw) d. applyOperator E now op raw d) update d = Ok d'"
    by (auto simp: ApplyUpdate_def split: if_splits)
  from foldR_all_Ok [OF this op] obtain u v where "applyOperator E now op raw u = Ok v" by fastforce
  then show ?thesis by (rule applyOperator_supported)
qed

theorem ApplyUpdate_rejects_unsupported_witness:
  "''$inc'' \<in> update_operators"
  by (rule ApplyUpdate_rejects_unsupported [of demo_env 0 "[]" "[(''$inc'', GDoc [])]" "[]"])
    (simp_all add: ApplyUpdate_def applyOperator_def update_inc_def operatorStyle_def)

end
