(* ===== verification/Mql_Match.thy ===== *)
theory Mql_Match
  imports Mql_Value
begin

text \<open>
  Filters and validators of \<^verbatim>\<open>internal/mql/mql.go\<close>: \<open>Matches\<close>, \<open>matchValue\<close> and
  \<open>ValidateJSONSchema\<close>. The loops over a filter, over the operators of a condition and over the
  members of a logical operator are the recursive functions \<open>Matches\<close>, \<open>matchOps\<close>, \<open>allMatches\<close> and
  \<open>anyMatches\<close>; an early \<^verbatim>\<open>return false\<close> is a false conjunct. The lemmas show that the answer does
  not depend on the order in which a map is visited, and relate the operators to one another.
\<close>

section \<open>Filters\<close>

text \<open>Go's \<^verbatim>\<open>%\<close> on \<^verbatim>\<open>int64\<close> takes the sign of the dividend.\<close>

definition i64_rem :: "64 word \<Rightarrow> 64 word \<Rightarrow> 64 word" where
  "i64_rem a b = word_of_int (sgn (sint a) * (\<bar>sint a\<bar> mod \<bar>sint b\<bar>))"

definition matchMod :: "gval \<Rightarrow> gval \<Rightarrow> bool" where
  "matchMod got arg =
     (case asArray arg of
        [a0, a1] \<Rightarrow>
          fp_to_i64 (ToFloat a0) \<noteq> 0 \<and>
          i64_rem (fp_to_i64 (ToFloat got)) (fp_to_i64 (ToFloat a0)) = fp_to_i64 (ToFloat a1)
      | _ \<Rightarrow> False)"

definition matchRegex :: "goenv \<Rightarrow> gval \<Rightarrow> gval \<Rightarrow> bool" where
  "matchRegex E got arg =
     (case env_regex E (sprint E arg) of None \<Rightarrow> False | Some matchString \<Rightarrow> matchString (sprint E got))"

lemma size_asMap: "size (GDoc (asMap v)) \<le> Suc (size v)"
  by (cases v) auto

lemma size_asArray: "sum_list (map (\<lambda>r. size (GDoc (asMap r))) (asArray v)) \<le> size v"
proof -
  have "sum_list (map (\<lambda>r. size (GDoc (asMap r))) a) \<le> size_list size a" for a
    using size_asMap by (induction a) (fastforce intro: order_trans add_mono)+
  moreover have "sum_list (map (\<lambda>d. size (GDoc d)) ds) = size_list (size_list (size_prod (\<lambda>x. 0) size)) ds" for ds
    by (induction ds) auto
  ultimately show ?thesis by (cases v) (auto simp: comp_def le_SucI simp del: gval.size(28))
qed

function (sequential) Matches :: "goenv \<Rightarrow> doc \<Rightarrow> doc \<Rightarrow> bool"
  and allMatches :: "goenv \<Rightarrow> doc \<Rightarrow> gval list \<Rightarrow> bool"
  and anyMatches :: "goenv \<Rightarrow> doc \<Rightarrow> gval list \<Rightarrow> bool"
  and matchValue :: "goenv \<Rightarrow> gval \<Rightarrow> bool \<Rightarrow> gval \<Rightarrow> bool"
  and matchOps :: "goenv \<Rightarrow> gval \<Rightarrow> bool \<Rightarrow> doc \<Rightarrow> bool"
where
  "Matches E d [] = True"
| "Matches E d ((key, want) # flt) =
     ((if key = ''$and'' then allMatches E d (asArray want)
       else if key = ''$or'' then anyMatches E d (asArray want)
       else if key = ''$nor'' then \<not> anyMatches E d (asArray want)
       else if key \<in> {''$expr'', ''$jsonSchema'', ''$text'', ''$where''} then True
       else (case valueByPath d key of (got, exists) \<Rightarrow> matchValue E got exists want))
      \<and> Matches E d flt)"
| "allMatches E d [] = True"
| "allMatches E d (raw # rest) = (Matches E d (asMap raw) \<and> allMatches E d rest)"
| "anyMatches E d [] = False"
| "anyMatches E d (raw # rest) = (Matches E d (asMap raw) \<or> anyMatches E d rest)"
| "matchValue E got exists (GDoc ops) = matchOps E got exists ops"
| "matchValue E got exists want = (exists \<and> valueEquals E got want)"
| "matchOps E got exists [] = True"
| "matchOps E got exists ((op, arg) # ops) =
     ((if op = ''$eq'' then exists \<and> valueEquals E got arg
       else if op = ''$ne'' then \<not> (exists \<and> valueEquals E got arg)
       else if op = ''$gt'' then exists \<and> compare E got arg > 0
       else if op = ''$gte'' then exists \<and> compare E got arg \<ge> 0
       else if op = ''$lt'' then exists \<and> compare E got arg < 0
       else if op = ''$lte'' then exists \<and> compare E got arg \<le> 0
       else if op = ''$in'' then list_ex (\<lambda>item. valueEquals E got item) (asArray arg)
       else if op = ''$nin'' then \<not> list_ex (\<lambda>item. valueEquals E got item) (asArray arg)
       else if op = ''$exists'' then exists = truthy arg
       else if op = ''$regex'' then matchRegex E got arg
       else if op = ''$all'' then list_all (\<lambda>item. arrayContains E got item) (asArray arg)
       else if op = ''$size'' then int (length (asArray got)) = sint (fp_to_i64 (ToFloat arg))
       else if op = ''$elemMatch'' then
         list_ex (\<lambda>item. asMap item \<noteq> [] \<and> Matches E (asMap item) (asMap arg)) (asArray got)
       else if op = ''$not'' then \<not> matchValue E got exists arg
       else if op = ''$mod'' then matchMod got arg
       else if op = ''$type'' then matchesType E got (sprint E arg)
       else if op \<in> {''$bitsAllSet'', ''$bitsAnyClear'', ''$geoWithin'', ''$geoIntersects'', ''$near''}
         then True
       else False)
      \<and> matchOps E got exists ops)"
  by pat_completeness auto
termination
proof (relation "measure (case_sum
    (case_sum (\<lambda>(E, d, f). size (GDoc f) - 1)
       (\<lambda>(E, d, raws). sum_list (map (\<lambda>r. size (GDoc (asMap r))) raws)))
    (case_sum (\<lambda>(E, d, raws). sum_list (map (\<lambda>r. size (GDoc (asMap r))) raws))
       (case_sum (\<lambda>(E, got, exists, want). Suc (size want))
          (\<lambda>(E, got, exists, ops). size (GDoc ops)))))", goal_cases)
qed (auto intro: le_less_trans [OF size_asMap [simplified]] le_less_trans [OF size_asArray [simplified]])

section \<open>Document validation\<close>

definition ValidateJSONSchema_required :: "gval list \<Rightarrow> doc \<Rightarrow> unit res" where
  "ValidateJSONSchema_required required d =
     foldR (\<lambda>raw _.
        case as_string raw of
          None \<Rightarrow> Ok ()
        | Some name \<Rightarrow>
            if name = '''' then Ok ()
            else if map_of d name = None
              then Err (PlainError (''document validation failed: missing required field '' @ name))
            else Ok ()) required ()"

definition ValidateJSONSchema_property :: "goenv \<Rightarrow> doc \<Rightarrow> string \<Rightarrow> gval \<Rightarrow> unit res" where
  "ValidateJSONSchema_property E d name rawSpec =
     (case map_of d name of
        None \<Rightarrow> Ok ()
      | Some value \<Rightarrow>
          (let spec = asMap rawSpec
           in if (case map_of spec ''enum'' of Some rawEnum \<Rightarrow> \<not> arrayContains E rawEnum value | None \<Rightarrow> False)
                then Err (PlainError (''document validation failed: '' @ name @ '' is not in enum''))
              else if (case map_of spec ''bsonType'' of
                         Some rawType \<Rightarrow> \<not> matchesBSONType E value rawType | None \<Rightarrow> False)
                then Err (PlainError (''document validation failed: '' @ name @ '' has invalid type''))
              else Ok ()))"

definition ValidateJSONSchema :: "goenv \<Rightarrow> gval \<Rightarrow> doc \<Rightarrow> unit res" where
  "ValidateJSONSchema E rawValidator d =
     (let validator = (case as_doc rawValidator of Some m \<Rightarrow> m | None \<Rightarrow> []);
          schema = (case as_doc (field validator ''$jsonSchema'') of Some m \<Rightarrow> m | None \<Rightarrow> [])
      in if schema = [] then Ok ()
         else
           bindR (ValidateJSONSchema_required (asArray (field schema ''required'')) d)
             (\<lambda>_. foldR (\<lambda>(name, rawSpec) _. ValidateJSONSchema_property E d name rawSpec)
                    (asMap (field schema ''properties'')) ()))"

section \<open>Lemmas on filters\<close>

text \<open>A filter is the conjunction of its entries, a condition of its operators.\<close>

lemma Matches_iff: "Matches E d f \<longleftrightarrow> (\<forall>e \<in> set f. Matches E d [e])"
  by (induction f) auto

lemma allMatches_iff: "allMatches E d raws \<longleftrightarrow> (\<forall>raw \<in> set raws. Matches E d (asMap raw))"
  by (induction raws) auto

lemma anyMatches_iff: "anyMatches E d raws \<longleftrightarrow> (\<exists>raw \<in> set raws. Matches E d (asMap raw))"
  by (induction raws) auto

lemma matchOps_iff: "matchOps E got exists ops \<longleftrightarrow> (\<forall>e \<in> set ops. matchOps E got exists [e])"
  by (induction ops) auto

lemma Matches_append: "Matches E d (f @ g) \<longleftrightarrow> Matches E d f \<and> Matches E d g"
  using Matches_iff [of E d f] Matches_iff [of E d g] Matches_iff [of E d "f @ g"] by auto

lemma Matches_order: "set f = set f' \<Longrightarrow> Matches E d f \<longleftrightarrow> Matches E d f'"
  by (subst (1 2) Matches_iff) simp

lemma matchOps_order: "set ops = set ops' \<Longrightarrow> matchOps E got ex ops \<longleftrightarrow> matchOps E got ex ops'"
  by (subst (1 2) matchOps_iff) simp

lemma Matches_path_cong:
  "valueByPath d = valueByPath d' \<Longrightarrow> Matches E d f = Matches E d' f"
  "valueByPath d = valueByPath d' \<Longrightarrow> allMatches E d raws = allMatches E d' raws"
  "valueByPath d = valueByPath d' \<Longrightarrow> anyMatches E d raws = anyMatches E d' raws"
  "True" "True"
  by (induction E d f and E d raws and E d raws and E "got :: gval" "ex :: bool" "want :: gval"
      and E "got :: gval" "ex :: bool" "ops :: doc"
      rule: Matches_allMatches_anyMatches_matchValue_matchOps.induct) auto

lemma Matches_doc_cong: "map_of d = map_of d' \<Longrightarrow> Matches E d f = Matches E d' f"
  by (intro Matches_path_cong valueByPath_cong)

text \<open>
  Two calls of one process: the clock and the orders of loops differ, but values print the same and patterns mean the
  same, and so filters and comparisons give the same answers.
\<close>

definition alike :: "goenv \<Rightarrow> goenv \<Rightarrow> bool" where
  "alike E E' \<longleftrightarrow> env_print E' = env_print E \<and> env_regex E' = env_regex E"

lemma sprint_alike:
  assumes "alike E E'"
  shows "sprint E' v = sprint E v" "sprint_entries E' m = sprint_entries E m" "sprint_list E' xs = sprint_list E xs"
  using assms by (induction E v and E m and E xs rule: sprint_sprint_entries_sprint_list.induct) (simp_all add: alike_def)

lemma compare_alike: "alike E E' \<Longrightarrow> compare E' = compare E" "alike E E' \<Longrightarrow> equal E' = equal E"
  by (auto simp: compare_def equal_def sprint_alike fun_eq_iff)

lemma tests_alike:
  assumes "alike E E'"
  shows "valueEquals E' = valueEquals E" "arrayContains E' = arrayContains E" "matchesType E' = matchesType E" "matchRegex E' = matchRegex E"
  using compare_alike [OF assms] assms [unfolded alike_def]
  by (simp_all add: valueEquals_def arrayContains_def matchesType_def matchesBSONType_def matchRegex_def sprint_alike [OF assms] fun_eq_iff
    split: option.split)

lemma Matches_alike:
  "alike E E' \<Longrightarrow> Matches E' d f = Matches E d f"
  "alike E E' \<Longrightarrow> allMatches E' d raws = allMatches E d raws"
  "alike E E' \<Longrightarrow> anyMatches E' d raws = anyMatches E d raws"
  "alike E E' \<Longrightarrow> matchValue E' got exists want = matchValue E got exists want"
  "alike E E' \<Longrightarrow> matchOps E' got exists ops = matchOps E got exists ops"
  by (induction E d f and E d raws and E d raws and E got exists want and E got exists ops
      rule: Matches_allMatches_anyMatches_matchValue_matchOps.induct)
    (simp_all add: tests_alike compare_alike sprint_alike split: prod.split cong: if_cong conj_cong list_ex_cong)

text \<open>The names \<open>Matches\<close> does not read as a field of the document.\<close>

definition filter_operators :: "string set" where
  "filter_operators = {''$and'', ''$or'', ''$nor'', ''$expr'', ''$jsonSchema'', ''$text'', ''$where''}"

lemma Matches_field:
  assumes "k \<notin> filter_operators" and "CHR ''.'' \<notin> set k"
  shows "Matches E d [(k, want)] \<longleftrightarrow>
    (case map_of d k of Some v \<Rightarrow> matchValue E v True want | None \<Rightarrow> matchValue E GNil False want)"
  using assms by (auto simp: filter_operators_def valueByPath_plain split: option.split)

lemma matchValue_simple: "as_doc want = None \<Longrightarrow> matchValue E got ex want \<longleftrightarrow> ex \<and> valueEquals E got want"
  by (cases want) auto

lemma matchOps_complement:
  "matchOps E got ex [(''$ne'', a)] \<longleftrightarrow> \<not> matchOps E got ex [(''$eq'', a)]"
  "matchOps E got ex [(''$nin'', a)] \<longleftrightarrow> \<not> matchOps E got ex [(''$in'', a)]"
  "matchOps E got ex [(''$not'', a)] \<longleftrightarrow> \<not> matchValue E got ex a"
  by auto

section \<open>Lemmas on validation\<close>

lemma foldR_unit_Ok:
  "foldR (\<lambda>x _. f x) xs u = Ok v \<longleftrightarrow> v = (u :: unit) \<and> (\<forall>x \<in> set xs. f x = Ok ())"
proof (induction xs)
  case (Cons x xs)
  then show ?case by (cases "f x") auto
qed auto

lemma validate_required_Ok:
  "ValidateJSONSchema_required required d = Ok () \<longleftrightarrow>
     (\<forall>name. GString name \<in> set required \<longrightarrow> name \<noteq> '''' \<longrightarrow> name \<in> set (keys d))"
proof -
  have "(case as_string raw of None \<Rightarrow> Ok () | Some name \<Rightarrow>
      if name = '''' then Ok () else if map_of d name = None then Err (m name) else Ok ()) = Ok ()
    \<longleftrightarrow> (\<forall>name. raw = GString name \<longrightarrow> name \<noteq> '''' \<longrightarrow> name \<in> set (keys d))" for raw m
    by (cases raw) (auto simp: map_of_eq_None_iff)
  then show ?thesis unfolding ValidateJSONSchema_required_def foldR_unit_Ok by auto
qed

text \<open>What a property specification asks of the value of a field that is there.\<close>

definition property_ok :: "goenv \<Rightarrow> gval \<Rightarrow> doc \<Rightarrow> bool" where
  "property_ok E value spec \<longleftrightarrow>
     (\<forall>enum. map_of spec ''enum'' = Some enum \<longrightarrow> arrayContains E enum value) \<and>
     (\<forall>t. map_of spec ''bsonType'' = Some t \<longrightarrow> matchesBSONType E value t)"

lemma validate_property_Ok:
  "ValidateJSONSchema_property E d name rawSpec = Ok () \<longleftrightarrow>
     (\<forall>value. map_of d name = Some value \<longrightarrow> property_ok E value (asMap rawSpec))"
  by (auto simp: ValidateJSONSchema_property_def property_ok_def Let_def split: option.splits)

lemma validate_no_panic: "\<not> is_Panic (ValidateJSONSchema E v d)"
proof -
  have "\<not> is_Panic (ValidateJSONSchema_required required d)" for required
    unfolding ValidateJSONSchema_required_def by (rule foldR_no_panic) (auto split: option.split)
  moreover have "\<not> is_Panic (ValidateJSONSchema_property E d name rawSpec)" for name rawSpec
    unfolding ValidateJSONSchema_property_def Let_def by (auto split: option.split)
  then have "\<not> is_Panic (foldR (\<lambda>(name, rawSpec) _. ValidateJSONSchema_property E d name rawSpec) ps ())" for ps
    by (intro foldR_no_panic) (auto split: prod.split)
  ultimately show ?thesis
    unfolding ValidateJSONSchema_def Let_def by (simp add: is_Panic_bindR)
qed

lemma validate_schema_Ok:
  assumes "schema \<noteq> []"
  shows "ValidateJSONSchema E (GDoc [(''$jsonSchema'', GDoc schema)]) d = Ok () \<longleftrightarrow>
    (\<forall>name. GString name \<in> set (asArray (field schema ''required'')) \<longrightarrow> name \<noteq> '''' \<longrightarrow>
       name \<in> set (keys d)) \<and>
    (\<forall>(name, spec) \<in> set (asMap (field schema ''properties'')).
       \<forall>value. map_of d name = Some value \<longrightarrow> property_ok E value (asMap spec))"
proof -
  have loop: "(\<lambda>(name, rawSpec) _. ValidateJSONSchema_property E d name rawSpec) =
      (\<lambda>e _. case e of (name, rawSpec) \<Rightarrow> ValidateJSONSchema_property E d name rawSpec)"
    by (simp add: fun_eq_iff split: prod.split)
  have "field [(''$jsonSchema'', GDoc schema)] ''$jsonSchema'' = GDoc schema" by simp
  with assms show ?thesis
    unfolding ValidateJSONSchema_def loop
    by (simp add: Let_def bindR_eq_Ok validate_required_Ok foldR_unit_Ok)
      (simp add: validate_property_Ok case_prod_beta)
qed

section \<open>Properties\<close>

text \<open>C15: The answer of a filter depends neither on the order in which Go visits the entries of the filter at its top level
  nor on the order of the document's own fields.\<close>

theorem Matches_order_independent:
  assumes "set f = set f'" and "map_of d = map_of d'"
  shows "Matches E d f = Matches E d' f'"
  using Matches_order [OF assms(1)] Matches_doc_cong [OF assms(2)] by metis

theorem Matches_order_independent_witness:
  "Matches demo_env [(''a'', GInt32 1), (''b'', GInt32 2)] [(''a'', GInt32 1), (''$nor'', GArr [])] =
   Matches demo_env [(''b'', GInt32 2), (''a'', GInt32 1)] [(''$nor'', GArr []), (''a'', GInt32 1)]"
  by (rule Matches_order_independent) auto

text \<open>C16: A range condition on a field of the document, with a name that is no operator and has no dot, that holds an integer
  selects exactly the integers of the range, when the integer and both ends of the range are smaller than \<^verbatim>\<open>2^53\<close> in magnitude:
  comparisons are those of \<^verbatim>\<open>float64\<close>.\<close>

theorem range_filter:
  assumes "k \<notin> filter_operators" and "CHR ''.'' \<notin> set k"
    and "map_of d k = Some v" and "int_val v = Some i" and "\<bar>i\<bar> < 2 ^ 53"
    and "int_val lo = Some l" and "\<bar>l\<bar> < 2 ^ 53" and "int_val hi = Some h" and "\<bar>h\<bar> < 2 ^ 53"
  shows "Matches E d [(k, GDoc [(''$gte'', lo), (''$lt'', hi)])] \<longleftrightarrow> l \<le> i \<and> i < h"
proof -
  have "compare E v lo = sgn (i - l)" and "compare E v hi = sgn (i - h)"
    using assms by (simp_all add: compare_ints)
  then show ?thesis
    unfolding Matches_field [OF assms(1,2)] using assms(3) by (auto simp: sgn_if)
qed

theorem range_filter_witness:
  "Matches demo_env [(''age'', GInt32 30)] [(''age'', GDoc [(''$gte'', GInt32 18), (''$lt'', GInt64 65)])]"
  using range_filter [of "''age''" "[(''age'', GInt32 30)]" "GInt32 30" 30 "GInt32 18" 18 "GInt64 65" 65 demo_env]
  by (simp add: filter_operators_def)

text \<open>A filter that consists of \<^verbatim>\<open>$expr\<close>, \<^verbatim>\<open>$where\<close>, \<^verbatim>\<open>$text\<close> or \<^verbatim>\<open>$jsonSchema\<close> is not
  evaluated: it selects every document.\<close>

theorem unsupported_filters_select_everything:
  "list_all (\<lambda>key. Matches E d [(key, want)]) [''$expr'', ''$where'', ''$text'', ''$jsonSchema'']"
  by simp

text \<open>\<^verbatim>\<open>$type\<close> accepts every value, and every missing field, for a type name it does not know,
  such as "bool", and for every numeric type code.\<close>

theorem unknown_type_matches_everything:
  assumes "name \<notin> {''string'', ''int'', ''long'', ''double'', ''decimal'', ''array'', ''object'', ''date''}"
  shows "matchOps E got exists [(''$type'', GString name)]"
  using assms by (simp add: matchesType_def matchesBSONType_def matchesSingleBSONType_def)

theorem unknown_type_matches_everything_witness:
  "matchOps demo_env (GString ''yes'') True [(''$type'', GString ''bool'')]"
  by (rule unknown_type_matches_everything) simp

text \<open>C17: Validation accepts a document exactly when every required field is there and every
  field that has a specification satisfies it; it never panics.\<close>

theorem ValidateJSONSchema_accepts_iff:
  assumes "schema \<noteq> []"
  shows "(ValidateJSONSchema E (GDoc [(''$jsonSchema'', GDoc schema)]) d = Ok () \<longleftrightarrow>
    (\<forall>name. GString name \<in> set (asArray (field schema ''required'')) \<longrightarrow> name \<noteq> '''' \<longrightarrow>
       name \<in> set (keys d)) \<and>
    (\<forall>(name, spec) \<in> set (asMap (field schema ''properties'')).
       \<forall>value. map_of d name = Some value \<longrightarrow> property_ok E value (asMap spec)))
    \<and> \<not> is_Panic (ValidateJSONSchema E (GDoc [(''$jsonSchema'', GDoc schema)]) d)"
  using assms validate_schema_Ok [of schema E d] validate_no_panic by simp

theorem ValidateJSONSchema_accepts_iff_witness:
  "ValidateJSONSchema demo_env (GDoc [(''$jsonSchema'', GDoc [(''required'', GArr [GString ''a''])])])
     [(''a'', GInt32 1)] = Ok ()"
  using ValidateJSONSchema_accepts_iff [of "[(''required'', GArr [GString ''a''])]" demo_env "[(''a'', GInt32 1)]"]
  by (simp add: field_def)

end
