(* ===== verification/Mql_Pipeline.thy ===== *)
theory Mql_Pipeline
  imports Mql_Match
begin

text \<open>
  Query results and aggregation of \<^verbatim>\<open>internal/mql/mql.go\<close>: sort, skip, limit and projection of a
  find (\<open>ApplyFindOptions\<close>), expressions (\<open>evalExpr\<close>), grouping (\<open>group\<close>) and the stages of a
  pipeline (\<open>ApplyPipeline\<close>). A slice expression out of bounds is a \<open>Panic\<close>. Grouping visits its
  table of groups in an order Go does not fix: \<open>env_iter E n\<close>, where \<open>n\<close> numbers the sorts and groupings of a
  pipeline from 1 (order 0 is the scan of the collection the pipeline reads).
\<close>

section \<open>Sorting\<close>

text \<open>The order by one field of a sort specification: \<^verbatim>\<open>less\<close> of \<open>sortDocs\<close>.\<close>

definition sortLess :: "goenv \<Rightarrow> string \<Rightarrow> gval \<Rightarrow> doc \<Rightarrow> doc \<Rightarrow> bool" where
  "sortLess E key dir x y =
     (let cmp = compare E (fst (valueByPath x key)) (fst (valueByPath y key))
      in if ToFloat dir < fp_zero then cmp > 0 else cmp < 0)"

text \<open>
  The loop over the specification, a map, ends with the entry it visits first, which Go does not fix:
  \<open>env_first E i\<close> for the \<open>i\<close>-th sort of an operation.
\<close>

definition sortDocs :: "goenv \<Rightarrow> nat \<Rightarrow> doc list \<Rightarrow> doc \<Rightarrow> doc list" where
  "sortDocs E i docs spec =
     (if spec = [] then docs
      else case spec ! (env_first E i spec mod length spec) of (key, dir) \<Rightarrow>
        if key = ''$natural'' then docs else slice_stable (sortLess E key dir) docs)"

section \<open>Projection\<close>

definition nonzero :: "gval \<Rightarrow> bool" where
  "nonzero v \<longleftrightarrow> \<not> fp_eq (ToFloat v) fp_zero"

definition includeMode :: "doc \<Rightarrow> bool" where
  "includeMode spec \<longleftrightarrow> list_ex (\<lambda>(key, include). key \<noteq> ''_id'' \<and> nonzero include) spec"

definition projectExclude :: "doc \<Rightarrow> doc \<Rightarrow> doc" where
  "projectExclude spec d =
     fold (\<lambda>(key, include) next. if \<not> nonzero include then del key next else next) spec (CloneDoc d)"

definition projectInclude :: "doc \<Rightarrow> doc \<Rightarrow> doc" where
  "projectInclude spec d =
     (let includeID = \<not> list_ex (\<lambda>(key, include). key = ''_id'' \<and> \<not> nonzero include) spec;
          next = fold (\<lambda>(key, include) next.
                    if key = ''_id'' \<and> \<not> nonzero include then next
                    else if nonzero include then
                      (case valueByPath d key of (value, ok) \<Rightarrow> if ok then put key value next else next)
                    else next) spec []
      in if includeID then
           (case map_of d ''_id'' of Some value \<Rightarrow> put ''_id'' value next | None \<Rightarrow> next)
         else next)"

definition project :: "doc list \<Rightarrow> doc \<Rightarrow> doc list" where
  "project docs spec =
     map (\<lambda>d. if includeMode spec then projectInclude spec d else projectExclude spec d) docs"

section \<open>Find options\<close>

record FindOptions =
  opt_Projection :: doc
  opt_Sort :: doc
  opt_Skip :: "64 word"
  opt_Limit :: "64 word"

definition ApplyFindOptions :: "goenv \<Rightarrow> doc list \<Rightarrow> FindOptions \<Rightarrow> doc list" where
  "ApplyFindOptions E input opts =
     (let docs0 = map CloneDoc input;
          docs1 = sortDocs E 0 docs0 (opt_Sort opts);
          skip = sint (opt_Skip opts);
          docs2 = (if skip > 0 then
                     (if skip \<ge> int (length docs1) then [] else drop (nat skip) docs1)
                   else docs1);
          limit = sint (opt_Limit opts);
          docs3 = (if limit > 0 \<and> limit < int (length docs2) then take (nat limit) docs2 else docs2)
      in if opt_Projection opts \<noteq> [] then project docs3 (opt_Projection opts) else docs3)"

section \<open>Expressions\<close>

fun evalExpr :: "doc \<Rightarrow> gval \<Rightarrow> gval" and evalFields :: "doc \<Rightarrow> doc \<Rightarrow> doc" where
  "evalExpr d (GString s) =
     (if 1 < length s \<and> hd s = CHR ''$'' then fst (valueByPath d (tl s)) else GString s)"
| "evalExpr d (GDoc m) = (if m = [] then GDoc [] else GDoc (evalFields d m))"
| "evalExpr d (GMap m) = (if m = [] then GMap [] else GDoc (evalFields d m))"
| "evalExpr d expr = expr"
| "evalFields d [] = []"
| "evalFields d ((k, v) # m) = (k, evalExpr d v) # evalFields d m"

section \<open>Stages on documents\<close>

definition addFields :: "doc list \<Rightarrow> doc \<Rightarrow> doc list" where
  "addFields docs spec =
     map (\<lambda>d. fold (\<lambda>(key, expr) next. put key (evalExpr d expr) next) spec (CloneDoc d)) docs"

definition unsetNames :: "goenv \<Rightarrow> gval \<Rightarrow> string list" where
  "unsetNames E raw =
     (case raw of GString v \<Rightarrow> [v] | GArr v \<Rightarrow> map (sprint E) v | GSlice v \<Rightarrow> map (sprint E) v | _ \<Rightarrow> [])"

definition unsetFields :: "goenv \<Rightarrow> doc list \<Rightarrow> gval \<Rightarrow> doc list" where
  "unsetFields E docs raw = map (\<lambda>d. fold del (unsetNames E raw) (CloneDoc d)) docs"

definition unwindPath :: "goenv \<Rightarrow> gval \<Rightarrow> string" where
  "unwindPath E raw =
     (case raw of
        GString v \<Rightarrow> trim_prefix ''$'' v
      | GDoc v \<Rightarrow> trim_prefix ''$'' (sprint E (field v ''path''))
      | _ \<Rightarrow> '''')"

definition unwind :: "goenv \<Rightarrow> doc list \<Rightarrow> gval \<Rightarrow> doc list" where
  "unwind E docs raw =
     (let path = unwindPath E raw
      in if path = '''' then docs
         else concat (map (\<lambda>d. map (\<lambda>item. put path item (CloneDoc d)) (asArray (field d path))) docs))"

section \<open>Grouping\<close>

text \<open>The state of one group: the output document and the number of values of each average.\<close>

record gstate =
  gs_doc :: doc
  gs_counts :: "(string \<times> fp) list"

definition groupAcc :: "goenv \<Rightarrow> string \<Rightarrow> string \<Rightarrow> gval \<Rightarrow> gstate \<Rightarrow> gstate res" where
  "groupAcc E out op value st =
     (let d = gs_doc st
      in if op = ''$sum'' then
           Ok (st\<lparr>gs_doc := put out (GFloat64 (ToFloat (field d out) + ToFloat value)) d\<rparr>)
         else if op = ''$avg'' then
           (let c = (case map_of (gs_counts st) out of Some c \<Rightarrow> c | None \<Rightarrow> fp_zero)
            in Ok \<lparr>gs_doc = put out (GFloat64 (ToFloat (field d out) + ToFloat value)) d,
                   gs_counts = put out (c + fp_of_int 1) (gs_counts st)\<rparr>)
         else if op = ''$min'' then
           Ok (if map_of d out = None \<or> compare E value (field d out) < 0
                 then st\<lparr>gs_doc := put out value d\<rparr> else st)
         else if op = ''$max'' then
           Ok (if map_of d out = None \<or> compare E value (field d out) > 0
                 then st\<lparr>gs_doc := put out value d\<rparr> else st)
         else if op = ''$push'' then
           Ok (st\<lparr>gs_doc := put out (GArr (asArray (field d out) @ [value])) d\<rparr>)
         else if op = ''$addToSet'' then
           (let arr = asArray (field d out);
                arr' = (if \<not> arrayContains E (GArr arr) value then arr @ [value] else arr)
            in Ok (st\<lparr>gs_doc := put out (GArr arr') d\<rparr>))
         else Err (PlainError (''unsupported group accumulator '' @ op)))"

text \<open>One document into its group: every accumulator of every output field.\<close>

definition groupDoc :: "goenv \<Rightarrow> doc \<Rightarrow> doc \<Rightarrow> gstate \<Rightarrow> gstate res" where
  "groupDoc E spec d st =
     foldR (\<lambda>(out, rawAcc) st.
        if out = ''_id'' then Ok st
        else foldR (\<lambda>(op, expr) st. groupAcc E out op (evalExpr d expr) st) (asMap rawAcc) st) spec st"

definition groupStep :: "goenv \<Rightarrow> doc \<Rightarrow> doc \<Rightarrow> (string \<times> gstate) list \<Rightarrow> (string \<times> gstate) list res" where
  "groupStep E spec d groups =
     (let id = evalExpr d (field spec ''_id'');
          key = gosyntax E id;
          st = (case map_of groups key of
                  Some st \<Rightarrow> st | None \<Rightarrow> \<lparr>gs_doc = [(''_id'', id)], gs_counts = []\<rparr>)
      in mapR (\<lambda>st'. put key st' groups) (groupDoc E spec d st))"

definition groupFinish :: "gstate \<Rightarrow> doc" where
  "groupFinish st =
     fold (\<lambda>(key, count) d.
        if fp_zero < count then put key (GFloat64 (fp_div (ToFloat (field d key)) count)) d else d)
       (gs_counts st) (gs_doc st)"

definition group :: "goenv \<Rightarrow> nat \<Rightarrow> doc list \<Rightarrow> doc \<Rightarrow> doc list res" where
  "group E n docs spec =
     mapR (\<lambda>groups. map snd (env_iter E n (map (\<lambda>(key, st). (key, groupFinish st)) groups)))
       (foldR (groupStep E spec) docs [])"

section \<open>Pipelines\<close>

text \<open>\<^verbatim>\<open>docs[:n]\<close> and \<^verbatim>\<open>docs[n:]\<close> for an \<open>n\<close> that the guards leave below the length.\<close>

definition slice_to :: "64 word \<Rightarrow> 'a list \<Rightarrow> 'a list res" where
  "slice_to n xs =
     (if sint n < 0 then Panic ''runtime error: slice bounds out of range'' else Ok (take (nat (sint n)) xs))"

definition slice_from :: "64 word \<Rightarrow> 'a list \<Rightarrow> 'a list res" where
  "slice_from n xs =
     (if sint n < 0 \<or> int (length xs) < sint n then Panic ''runtime error: slice bounds out of range''
      else Ok (drop (nat (sint n)) xs))"

definition stageLimit :: "gval \<Rightarrow> doc list \<Rightarrow> doc list res" where
  "stageLimit raw docs =
     (let n = fp_to_i64 (ToFloat raw)
      in if sint n < int (length docs) then slice_to n docs else Ok docs)"

definition stageSkip :: "gval \<Rightarrow> doc list \<Rightarrow> doc list res" where
  "stageSkip raw docs =
     (let n = fp_to_i64 (ToFloat raw)
      in if sint n \<ge> int (length docs) then Ok [] else slice_from n docs)"

definition stageCount :: "gval \<Rightarrow> doc list \<Rightarrow> doc list" where
  "stageCount raw docs =
     (let name = (case as_string raw of Some s \<Rightarrow> s | None \<Rightarrow> '''')
      in [[(if name = '''' then ''count'' else name, GInt64 (word_of_int (int (length docs))))]])"

definition stageReplaceRoot :: "gval \<Rightarrow> doc list \<Rightarrow> doc list" where
  "stageReplaceRoot raw docs =
     concat (map (\<lambda>d. case as_doc (evalExpr d (field (asMap raw) ''newRoot'')) of
                        Some r \<Rightarrow> [r] | None \<Rightarrow> []) docs)"

definition stageSample :: "gval \<Rightarrow> doc list \<Rightarrow> doc list" where
  "stageSample raw docs =
     (let size = sint (fp_to_i64 (ToFloat (field (asMap raw) ''size'')))
      in if size > 0 \<and> size < int (length docs) then take (nat size) docs else docs)"

text \<open>One operator of one stage. The state is the documents and the number of the next loop over a map.\<close>

definition stage :: "goenv \<Rightarrow> string \<Rightarrow> gval \<Rightarrow> doc list \<times> nat \<Rightarrow> (doc list \<times> nat) res" where
  "stage E op raw s =
     (case s of (docs, n) \<Rightarrow>
        if op = ''$match'' then Ok (filter (\<lambda>d. Matches E d (asMap raw)) docs, n)
        else if op = ''$limit'' then mapR (\<lambda>docs. (docs, n)) (stageLimit raw docs)
        else if op = ''$skip'' then mapR (\<lambda>docs. (docs, n)) (stageSkip raw docs)
        else if op = ''$sort'' then Ok (sortDocs E n docs (asMap raw), n + 1)
        else if op = ''$project'' then Ok (project docs (asMap raw), n)
        else if op = ''$addFields'' \<or> op = ''$set'' then Ok (addFields docs (asMap raw), n)
        else if op = ''$unset'' then Ok (unsetFields E docs raw, n)
        else if op = ''$unwind'' then Ok (unwind E docs raw, n)
        else if op = ''$count'' then Ok (stageCount raw docs, n)
        else if op = ''$group'' then mapR (\<lambda>docs. (docs, n + 1)) (group E n docs (asMap raw))
        else if op = ''$sortByCount'' then
          mapR (\<lambda>grouped. (sortDocs E n grouped [(''count'', GInt32 (- 1))], n + 1))
            (group E n docs [(''_id'', raw), (''count'', GDoc [(''$sum'', GInt32 1)])])
        else if op = ''$replaceRoot'' then Ok (stageReplaceRoot raw docs, n)
        else if op = ''$sample'' then Ok (stageSample raw docs, n)
        else if op = ''$planCacheStats'' then
          Ok ([[(''createdFromQuery'', GDoc []), (''works'', GInt32 0)]], n)
        else Err (PlainError (''unsupported aggregation stage '' @ op)))"

definition ApplyPipeline :: "goenv \<Rightarrow> doc list \<Rightarrow> gval list \<Rightarrow> doc list res" where
  "ApplyPipeline E input pipeline =
     mapR fst
       (foldR (\<lambda>rawStage s. foldR (\<lambda>(op, raw) s. stage E op raw s) (asMap rawStage) s) pipeline
          (map CloneDoc input, 1))"

section \<open>Lemmas on sorting\<close>

lemma strict_weak_image:
  "strict_weak (f ` A) lt \<Longrightarrow> strict_weak A (\<lambda>x y. lt (f x) (f y))"
  unfolding strict_weak_def by blast

abbreviation sortValue :: "string \<Rightarrow> doc \<Rightarrow> gval" where
  "sortValue key d \<equiv> fst (valueByPath d key)"

lemma sortLess_strict_weak:
  assumes "comparable (sortValue key ` A)"
  shows "strict_weak A (sortLess E key dir)"
proof -
  have "strict_weak A (\<lambda>x y. compare E (sortValue key x) (sortValue key y) < 0)"
    using compare_strict_weak [OF assms] by (rule strict_weak_image)
  moreover from strict_weak_converse [OF this]
  have "strict_weak A (\<lambda>x y. compare E (sortValue key x) (sortValue key y) > 0)"
    by (simp only: compare_pos)
  ultimately show ?thesis
    by (cases "ToFloat dir < fp_zero") (simp_all add: sortLess_def [abs_def] Let_def)
qed

text \<open>The order a sort promises: numbers by size, other values by the bytes of their printed form.\<close>

definition inOrder :: "goenv \<Rightarrow> gval \<Rightarrow> gval \<Rightarrow> bool" where
  "inOrder E v w \<longleftrightarrow> (if isNumber v \<and> isNumber w then \<not> ToFloat w < ToFloat v else sprint E v \<le> sprint E w)"

lemma compare_inOrder: "compare E w v < 0 \<longleftrightarrow> \<not> inOrder E v w"
  by (auto simp: compare_def inOrder_def Let_def)

lemma sortLess_inOrder:
  "sortLess E key dir y x \<longleftrightarrow> \<not> (if ToFloat dir < fp_zero then inOrder E (sortValue key y) (sortValue key x)
     else inOrder E (sortValue key x) (sortValue key y))"
  by (simp add: sortLess_def Let_def compare_pos compare_inOrder)

lemma sortLess_tied:
  assumes "comparable (sortValue key ` A)" and "x \<in> A" and "y \<in> A"
  shows "tied (sortLess E key dir) y x \<longleftrightarrow> equal E (sortValue key x) (sortValue key y)"
  using assms by (auto simp: tied_def sortLess_inOrder inOrder_def equal_def comparable_def fp_eq_iff_less)

lemma sortDocs_Nil_spec [simp]: "sortDocs E i docs [] = docs"
  by (simp add: sortDocs_def)

lemma sortDocs_one [simp]:
  "sortDocs E i docs [(key, dir)] = (if key = ''$natural'' then docs else slice_stable (sortLess E key dir) docs)"
  by (simp add: sortDocs_def)

lemma mset_sortDocs [simp]: "mset (sortDocs E i docs spec) = mset docs"
  by (simp add: sortDocs_def split: prod.split)

lemma length_sortDocs [simp]: "length (sortDocs E i docs spec) = length docs"
  by (metis mset_sortDocs size_mset)

section \<open>Lemmas on find options\<close>

lemma ApplyFindOptions_window:
  assumes "0 \<le> sint (opt_Skip opts)" and "0 < sint (opt_Limit opts)"
  shows "ApplyFindOptions E docs opts =
    (let page = take (nat (sint (opt_Limit opts))) (drop (nat (sint (opt_Skip opts))) (sortDocs E 0 docs (opt_Sort opts)))
     in if opt_Projection opts \<noteq> [] then project page (opt_Projection opts) else page)"
  using assms by (auto simp: ApplyFindOptions_def Let_def)

lemma ApplyFindOptions_all:
  "opt_Skip opts = 0 \<Longrightarrow> opt_Limit opts = 0 \<Longrightarrow> opt_Projection opts = [] \<Longrightarrow>
   ApplyFindOptions E docs opts = sortDocs E 0 docs (opt_Sort opts)"
  by (simp add: ApplyFindOptions_def)

text \<open>A page of documents without ties does not depend on the order they come in.\<close>

lemma sorted_page:
  assumes "alike E E'" and "mset docs' = mset docs" and "key \<noteq> ''$natural''" and "comparable (sortValue key ` set docs)"
    and untied: "\<forall>x \<in> set docs. \<forall>y \<in> set docs. equal E (sortValue key x) (sortValue key y) \<longrightarrow> x = y"
    and opts: "opt_Sort opts = [(key, dir)]" "0 \<le> sint (opt_Skip opts)" "0 < sint (opt_Limit opts)"
  shows "ApplyFindOptions E' docs' opts =
    (let page = take (nat (sint (opt_Limit opts))) (drop (nat (sint (opt_Skip opts))) (sortDocs E 0 docs [(key, dir)]))
     in if opt_Projection opts \<noteq> [] then project page (opt_Projection opts) else page)"
proof -
  have set: "set docs' = set docs" using mset_eq_setD [OF assms(2)] .
  have less: "sortLess E' key dir = sortLess E key dir" by (simp add: sortLess_def [abs_def] compare_alike [OF assms(1)])
  have "slice_stable (sortLess E key dir) docs' = slice_stable (sortLess E key dir) docs"
  proof (rule slice_stable_unique [OF assms(2)])
    show "strict_weak (set docs') (sortLess E key dir)" unfolding set by (rule sortLess_strict_weak [OF assms(4)])
    fix x y assume "x \<in> set docs'" "y \<in> set docs'" "\<not> sortLess E key dir x y" "\<not> sortLess E key dir y x"
    with sortLess_tied [OF assms(4), of x y E dir] untied show "x = y" by (simp add: set tied_def)
  qed
  then show ?thesis using assms(3) opts by (simp add: ApplyFindOptions_window less)
qed

lemma window_append:
  fixes k a b :: "64 word"
  assumes "0 \<le> sint k" and "0 < sint a" and "0 < sint b" and "sint k + sint a + sint b < 2 ^ 63"
  shows "take (nat (sint a)) (drop (nat (sint k)) xs) @ take (nat (sint b)) (drop (nat (sint (k + a))) xs) =
    take (nat (sint (a + b))) (drop (nat (sint k)) xs)" and "0 \<le> sint (k + a)" and "0 < sint (a + b)"
proof -
  have "sint (k + a) = sint k + sint a" "sint (a + b) = sint a + sint b" using assms by (simp_all add: sint64_plus)
  then show "take (nat (sint a)) (drop (nat (sint k)) xs) @ take (nat (sint b)) (drop (nat (sint (k + a))) xs) =
      take (nat (sint (a + b))) (drop (nat (sint k)) xs)" and "0 \<le> sint (k + a)" and "0 < sint (a + b)"
    using assms by (simp_all add: nat_add_distrib take_add drop_drop add.commute)
qed

section \<open>Lemmas on projection\<close>

lemma fold_del_lookup:
  "map_of (fold (\<lambda>(key, include) next. if \<not> nonzero include then del key next else next) spec d) k =
   (if \<exists>v. (k, v) \<in> set spec \<and> \<not> nonzero v then None else map_of d k)"
  by (induction spec arbitrary: d) (auto simp: map_simps)

lemma projectExclude_lookup:
  "map_of (projectExclude spec d) k =
   (if \<exists>v. (k, v) \<in> set spec \<and> \<not> nonzero v then None else map_of d k)"
  by (simp add: projectExclude_def fold_del_lookup)

lemma projectInclude_lookup:
  "map_of (projectInclude spec d) k =
    (if k = ''_id'' \<and> map_of d k \<noteq> None \<and> \<not> (\<exists>v. (k, v) \<in> set spec \<and> \<not> nonzero v) then map_of d k
     else if (\<exists>v. (k, v) \<in> set spec \<and> nonzero v) \<and> snd (valueByPath d k)
       then Some (fst (valueByPath d k)) else None)"
proof -
  have loop: "map_of (fold (\<lambda>(key, include) next.
          if key = ''_id'' \<and> \<not> nonzero include then next
          else if nonzero include then
            (case valueByPath d key of (value, ok) \<Rightarrow> if ok then put key value next else next)
          else next) spec next) k =
      (if (\<exists>v. (k, v) \<in> set spec \<and> nonzero v) \<and> snd (valueByPath d k) then Some (fst (valueByPath d k))
       else map_of next k)" for "next"
    by (induction spec arbitrary: "next") (auto simp: map_simps split: prod.splits)
  have "list_ex (\<lambda>(key, include). key = ''_id'' \<and> \<not> nonzero include) spec \<longleftrightarrow>
      (\<exists>v. (''_id'', v) \<in> set spec \<and> \<not> nonzero v)"
    by (auto simp: list_ex_iff)
  then show ?thesis
    using loop [of "[]"] unfolding projectInclude_def Let_def by (auto simp: map_simps split: option.split)
qed

section \<open>Lemmas on grouping\<close>

definition groupKey :: "goenv \<Rightarrow> doc \<Rightarrow> doc \<Rightarrow> string" where
  "groupKey E spec d = gosyntax E (evalExpr d (field spec ''_id''))"

definition groupInit :: "doc \<Rightarrow> doc \<Rightarrow> gstate" where
  "groupInit spec d = \<lparr>gs_doc = [(''_id'', evalExpr d (field spec ''_id''))], gs_counts = []\<rparr>"

definition groupRun :: "goenv \<Rightarrow> doc \<Rightarrow> doc list \<Rightarrow> gstate option \<Rightarrow> gstate option res" where
  "groupRun E spec ds st =
     (case ds of [] \<Rightarrow> Ok st
      | d # _ \<Rightarrow> mapR Some (foldR (groupDoc E spec) ds (case st of Some s \<Rightarrow> s | None \<Rightarrow> groupInit spec d)))"

lemma groupRun_Cons:
  "groupRun E spec (d # ds) st =
    bindR (groupDoc E spec d (case st of Some s \<Rightarrow> s | None \<Rightarrow> groupInit spec d)) (\<lambda>s. groupRun E spec ds (Some s))"
  by (cases ds; cases "groupDoc E spec d (case st of Some s \<Rightarrow> s | None \<Rightarrow> groupInit spec d)")
    (simp_all add: groupRun_def)

lemma groupStep_Ok:
  "groupStep E spec d groups = Ok groups' \<longleftrightarrow>
    (\<exists>st. groupDoc E spec d (case map_of groups (groupKey E spec d) of Some s \<Rightarrow> s | None \<Rightarrow> groupInit spec d) = Ok st \<and>
       groups' = put (groupKey E spec d) st groups)"
  unfolding groupStep_def Let_def groupKey_def groupInit_def by (rule mapR_eq_Ok)

lemma group_table:
  assumes "foldR (groupStep E spec) docs groups = Ok table"
  shows "groupRun E spec (filter (\<lambda>d. groupKey E spec d = k) docs) (map_of groups k) = Ok (map_of table k)"
  using assms
proof (induction docs arbitrary: groups)
  case Nil
  then show ?case by (simp add: groupRun_def)
next
  case (Cons d docs)
  then obtain st where st: "groupDoc E spec d (case map_of groups (groupKey E spec d) of Some s \<Rightarrow> s | None \<Rightarrow> groupInit spec d) = Ok st"
    and rest: "foldR (groupStep E spec) docs (put (groupKey E spec d) st groups) = Ok table"
    by (auto simp: groupStep_Ok res_simps)
  from Cons.IH [OF rest] show ?case
    using st by (auto simp: groupRun_Cons map_simps)
qed

lemma group_table_keys:
  "foldR (groupStep E spec) docs groups = Ok table \<Longrightarrow>
   set (keys table) = groupKey E spec ` set docs \<union> set (keys groups)"
proof (induction docs arbitrary: groups)
  case (Cons d docs)
  then obtain st where "foldR (groupStep E spec) docs (put (groupKey E spec d) st groups) = Ok table"
    by (auto simp: groupStep_Ok bindR_eq_Ok)
  from Cons.IH [OF this] show ?case by (simp only: set_keys_put list.set image_insert) blast
qed simp

lemma group_table_distinct:
  "foldR (groupStep E spec) docs groups = Ok table \<Longrightarrow> distinct (keys groups) \<Longrightarrow> distinct (keys table)"
  by (erule foldR_invariant) (auto simp: groupStep_Ok map_simps)

text \<open>Counting: the accumulator \<^verbatim>\<open>{$sum: 1}\<close>.\<close>

definition countSpec :: "gval \<Rightarrow> doc" where
  "countSpec e = [(''_id'', e), (''count'', GDoc [(''$sum'', GInt32 1)])]"

lemma fp_is_int_zero: "fp_is_int fp_zero 0"
  using fp_is_int_of_int [of 0] by (simp add: fp_eval)

lemma groupDoc_countSpec:
  "groupDoc E (countSpec e) d st =
    Ok (st\<lparr>gs_doc := put ''count'' (GFloat64 (ToFloat (field (gs_doc st) ''count'') + fp_of_int 1)) (gs_doc st)\<rparr>)"
  by (simp add: groupDoc_def countSpec_def groupAcc_def Let_def)

text \<open>A group of \<open>n\<close> documents whose first is \<open>d\<close>.\<close>

definition counted :: "doc \<Rightarrow> doc \<Rightarrow> int \<Rightarrow> gstate \<Rightarrow> bool" where
  "counted spec d n st \<longleftrightarrow> gs_counts st = [] \<and>
     (\<exists>x. gs_doc st = [(''_id'', evalExpr d (field spec ''_id'')), (''count'', GFloat64 x)] \<and> fp_is_int x n)"

lemma counted_Suc:
  assumes "counted (countSpec e) d n st" and "0 \<le> n" and "n + 1 < 2 ^ 53"
  obtains st' where "groupDoc E (countSpec e) d' st = Ok st'" and "counted (countSpec e) d (n + 1) st'"
proof -
  obtain x where x: "gs_doc st = [(''_id'', evalExpr d (field (countSpec e) ''_id'')), (''count'', GFloat64 x)]"
    "fp_is_int x n" using assms(1) by (auto simp: counted_def)
  have "fp_is_int (x + fp_of_int 1) (n + 1)"
    using fp_plus_is_int [OF x(2) fp_is_int_of_int] assms(2,3) by simp
  then show thesis
    using that assms(1) x(1) by (simp add: groupDoc_countSpec counted_def field_def)
qed

lemma foldR_counted:
  assumes "counted (countSpec e) d n st" and "0 \<le> n" and "n + int (length ds) < 2 ^ 53"
  shows "\<exists>st'. foldR (groupDoc E (countSpec e)) ds st = Ok st' \<and> counted (countSpec e) d (n + int (length ds)) st'"
  using assms
proof (induction ds arbitrary: n st)
  case (Cons d' ds)
  then obtain st' where st': "groupDoc E (countSpec e) d' st = Ok st'" "counted (countSpec e) d (n + 1) st'"
    using counted_Suc [of e d n st E d'] by auto
  with Cons.IH [OF st'(2)] Cons.prems(2,3) show ?case by (simp add: algebra_simps)
qed auto

lemma groupRun_counted:
  assumes "int (length ds) < 2 ^ 53" and "ds \<noteq> []"
  shows "\<exists>st. groupRun E (countSpec e) ds None = Ok (Some st) \<and> counted (countSpec e) (hd ds) (int (length ds)) st"
proof -
  obtain d ds' where ds: "ds = d # ds'" using assms(2) by (cases ds) auto
  have zero: "fp_is_int (fp_zero + fp_of_int 1) 1"
    using fp_plus_is_int [OF fp_is_int_zero fp_is_int_of_int [of 1]] by simp
  have "\<exists>st. groupDoc E (countSpec e) d (groupInit (countSpec e) d) = Ok st \<and> counted (countSpec e) d 1 st"
    using zero by (simp add: groupDoc_countSpec groupInit_def counted_def)
  then obtain st where "groupDoc E (countSpec e) d (groupInit (countSpec e) d) = Ok st"
    and "counted (countSpec e) d 1 st" by blast
  with foldR_counted [OF this(2), of ds' E] assms(1) show ?thesis
    by (auto simp: ds groupRun_def algebra_simps)
qed

lemma group_counts_table:
  assumes "int (length docs) < 2 ^ 53"
  shows "\<exists>table. foldR (groupStep E (countSpec e)) docs [] = Ok table \<and>
    distinct (keys table) \<and> set (keys table) = groupKey E (countSpec e) ` set docs \<and>
    (\<forall>(k, st) \<in> set table. let ds = filter (\<lambda>d. groupKey E (countSpec e) d = k) docs
       in counted (countSpec e) (hd ds) (int (length ds)) st)"
proof -
  let ?spec = "countSpec e"
  have "\<exists>t. groupStep E ?spec d g = Ok t" for d g by (auto simp: groupStep_Ok groupDoc_countSpec)
  from foldR_total [of "groupStep E ?spec", OF this] obtain table
    where table: "foldR (groupStep E ?spec) docs [] = Ok table" by blast
  have dist: "distinct (keys table)" using group_table_distinct [OF table] by simp
  have "counted ?spec (hd ds) (int (length ds)) st"
    if "(k, st) \<in> set table" and ds: "ds = filter (\<lambda>d. groupKey E ?spec d = k) docs" for k st ds
  proof -
    from that dist have "map_of table k = Some st" by simp
    with group_table [OF table, of k] have run: "groupRun E ?spec ds None = Ok (Some st)" by (simp add: ds)
    then have "ds \<noteq> []" by (auto simp: groupRun_def)
    moreover have "int (length ds) < 2 ^ 53"
      using assms length_filter_le [of "\<lambda>d. groupKey E ?spec d = k" docs] unfolding ds by linarith
    ultimately show ?thesis using groupRun_counted [of ds E e] run by auto
  qed
  with table dist group_table_keys [OF table] show ?thesis by (auto simp: Let_def)
qed


section \<open>Lemmas on pipelines\<close>

lemma groupAcc_no_panic: "\<not> is_Panic (groupAcc E out op value st)"
  by (simp add: groupAcc_def Let_def)

lemma groupDoc_no_panic: "\<not> is_Panic (groupDoc E spec d st)"
  unfolding groupDoc_def
proof (rule foldR_no_panic)
  fix x s
  show "\<not> is_Panic ((\<lambda>(out, rawAcc) st. if out = ''_id'' then Ok st
      else foldR (\<lambda>(op, expr) st. groupAcc E out op (evalExpr d expr) st) (asMap rawAcc) st) x s)"
    by (cases x) (simp add: foldR_no_panic groupAcc_no_panic case_prod_beta)
qed

lemma group_no_panic: "\<not> is_Panic (group E n docs spec)"
  unfolding group_def is_Panic_mapR
  by (rule foldR_no_panic) (simp add: groupStep_def Let_def groupDoc_no_panic)

text \<open>Bounds that are not negative.\<close>

definition bounds_ok :: "gval list \<Rightarrow> bool" where
  "bounds_ok pipeline \<longleftrightarrow>
     (\<forall>st \<in> set pipeline. \<forall>(op, raw) \<in> set (asMap st).
        op \<in> {''$limit'', ''$skip''} \<longrightarrow> 0 \<le> sint (fp_to_i64 (ToFloat raw)))"

lemma stage_no_panic:
  assumes "op \<in> {''$limit'', ''$skip''} \<longrightarrow> 0 \<le> sint (fp_to_i64 (ToFloat raw))"
  shows "\<not> is_Panic (stage E op raw s)"
proof (cases s)
  case (Pair docs n)
  have "\<not> is_Panic (stageLimit raw docs)" if "op = ''$limit''"
    using that assms by (simp add: stageLimit_def slice_to_def Let_def)
  moreover have "\<not> is_Panic (stageSkip raw docs)" if "op = ''$skip''"
    using that assms by (simp add: stageSkip_def slice_from_def Let_def)
  ultimately show ?thesis by (simp add: Pair stage_def group_no_panic)
qed

definition pipeline_stages :: "string set" where
  "pipeline_stages =
     {''$match'', ''$limit'', ''$skip'', ''$sort'', ''$project'', ''$addFields'', ''$set'', ''$unset'',
      ''$unwind'', ''$count'', ''$group'', ''$sortByCount'', ''$replaceRoot'', ''$sample'', ''$planCacheStats''}"

lemma stage_supported: "stage E op raw s = Ok t \<Longrightarrow> op \<in> pipeline_stages"
  by (cases s) (auto simp: stage_def pipeline_stages_def split: if_splits)

lemma ApplyPipeline_single:
  "ApplyPipeline E docs [GDoc [(op, raw)]] = mapR fst (stage E op raw (docs, 1))"
  by (cases "stage E op raw (docs, 1)") (simp_all add: ApplyPipeline_def)

section \<open>Properties\<close>

text \<open>C22: Sorting by one key permutes the documents, orders them by the value at the key's path, numbers by their
  \<^verbatim>\<open>float64\<close> and other values by the bytes of their printed form, downwards when the direction is negative and upwards otherwise,
  and keeps the order of documents whose values are equal in this sense; the values are all numbers and none NaN, or none of
  them is a number.\<close>

theorem sort_correct:
  assumes "key \<noteq> ''$natural''" and "comparable ((\<lambda>d. fst (valueByPath d key)) ` set docs)"
  shows "mset (sortDocs E i docs [(key, dir)]) = mset docs \<and>
    sorted_wrt (\<lambda>x y. if ToFloat dir < fp_zero then inOrder E (fst (valueByPath y key)) (fst (valueByPath x key))
      else inOrder E (fst (valueByPath x key)) (fst (valueByPath y key))) (sortDocs E i docs [(key, dir)]) \<and>
    (\<forall>z \<in> set docs. filter (\<lambda>d. equal E (fst (valueByPath d key)) (fst (valueByPath z key))) (sortDocs E i docs [(key, dir)]) =
       filter (\<lambda>d. equal E (fst (valueByPath d key)) (fst (valueByPath z key))) docs)"
proof -
  have ties: "filter (\<lambda>d. equal E (sortValue key d) (sortValue key z)) ds = filter (tied (sortLess E key dir) z) ds"
    if "z \<in> set docs" "set ds \<subseteq> set docs" for z ds
    using that sortLess_tied [OF assms(2)] by (intro filter_cong) auto
  show ?thesis
    using assms(1) slice_stable_sorted [OF sortLess_strict_weak [OF assms(2)], of E dir]
      slice_stable_stable [OF sortLess_strict_weak [OF assms(2)], of _ E dir]
    by (simp add: ties sortLess_inOrder if_distrib [of Not] cong: if_cong)
qed

theorem sort_correct_witness:
  "sortDocs demo_env 0 [[(''a'', GString ''x'')], [(''a'', GString ''y'')]] [(''a'', GInt32 (- 1))] =
   [[(''a'', GString ''y'')], [(''a'', GString ''x'')]]"
proof -
  let ?x = "[(''a'', GString ''x'')]" and ?y = "[(''a'', GString ''y'')]"
  let ?sorted = "sortDocs demo_env 0 [?x, ?y] [(''a'', GInt32 (- 1))]"
  have "fp_of_int (- 1) < fp_zero" by (subst fp_less_is_int [OF fp_is_int_of_int fp_is_int_zero]) simp_all
  then have perm: "mset ?sorted = {#?x, ?y#}" and
    order: "sorted_wrt (\<lambda>x y. inOrder demo_env (fst (valueByPath y ''a'')) (fst (valueByPath x ''a''))) ?sorted"
    using sort_correct [of "''a''" "[?x, ?y]" demo_env 0 "GInt32 (- 1)"] by (simp_all add: comparable_def valueByPath_def)
  have "?sorted \<noteq> [?x, ?y]" using order by (auto simp del: sortDocs_one simp: inOrder_def valueByPath_def)
  with mset_pair [OF perm] show ?thesis by (simp only: simp_thms)
qed

text \<open>A sort by two keys orders by whichever key Go's map iteration visits first and ignores the other,
  so the same sort specification gives different results.\<close>

theorem sort_by_two_keys_ignores_one:
  "let docs = [[(''a'', GInt32 1), (''b'', GInt32 2)], [(''a'', GInt32 1), (''b'', GInt32 1)]];
       sorted = (\<lambda>first. sortDocs (E\<lparr>env_first := \<lambda>_ _. first\<rparr>) 0 docs [(''a'', GInt32 1), (''b'', GInt32 1)])
   in sorted 0 = docs \<and> sorted 1 = rev docs"
proof -
  have cmp: "compare E (GInt32 m) (GInt32 n) = sgn (sint m - sint n)" for E m n
    using sint32_range [of m] sint32_range [of n] by (intro compare_ints) simp_all
  have "\<not> fp_of_int 1 < fp_zero"
    by (subst fp_less_is_int [OF fp_is_int_of_int fp_is_int_zero]) simp_all
  then show ?thesis by (simp add: sortDocs_def slice_stable_def sortLess_def valueByPath_def cmp)
qed

text \<open>C24: A projection that includes fields gives each field named with a nonzero number its value at that
  path, and \<open>_id\<close> unless it is named with a zero; nothing else is in the result.\<close>

theorem projection_selects:
  assumes "includeMode spec" and "distinct (keys spec)"
  shows "map_of (hd (project [d] spec)) k =
    (if k = ''_id'' then (if \<exists>v. map_of spec k = Some v \<and> \<not> nonzero v then None else map_of d k)
     else if (\<exists>v. map_of spec k = Some v \<and> nonzero v) \<and> snd (valueByPath d k)
       then Some (fst (valueByPath d k)) else None)"
proof -
  have "valueByPath d ''_id'' = (case map_of d ''_id'' of Some v \<Rightarrow> (v, True) | None \<Rightarrow> (GNil, False))"
    by (rule valueByPath_plain) simp
  moreover have "(k, v) \<in> set spec \<longleftrightarrow> map_of spec k = Some v" for k v
    using assms(2) by simp
  ultimately show ?thesis
    using assms(1) by (auto simp: project_def projectInclude_lookup split: option.splits)
qed

theorem projection_selects_witness:
  "map_of (hd (project [[(''_id'', GInt32 9), (''a'', GInt32 5), (''b'', GInt32 6)]] [(''a'', GFloat64 (Fin False 1 0))])) ''a'' =
   Some (GInt32 5)"
  using projection_selects [of "[(''a'', GFloat64 (Fin False 1 0))]" "[(''_id'', GInt32 9), (''a'', GInt32 5), (''b'', GInt32 6)]" "''a''"]
  by (simp add: includeMode_def nonzero_def fp_align_def valueByPath_def)

text \<open>A projection \<^verbatim>\<open>{k: true}\<close> does the opposite of what it says: a boolean counts as zero, so the
  result is the document without the field.\<close>

theorem boolean_projection_excludes:
  assumes "k \<noteq> ''_id''"
  shows "map_of (hd (project [d] [(k, GBool True)])) = (map_of d)(k := None)"
proof -
  have "\<not> nonzero (GBool True)" by (simp add: nonzero_def)
  then show ?thesis
    by (auto simp: project_def includeMode_def projectExclude_lookup fun_eq_iff)
qed

theorem boolean_projection_excludes_witness:
  "map_of (hd (project [[(''_id'', GInt32 9), (''name'', GString ''x'')]] [(''name'', GBool True)])) = [''_id'' \<mapsto> GInt32 9]"
  using boolean_projection_excludes [of "''name''" "[(''_id'', GInt32 9), (''name'', GString ''x'')]"] by auto

text \<open>C20: A pipeline whose \<^verbatim>\<open>$limit\<close> and \<^verbatim>\<open>$skip\<close> arguments are not negative after their conversion to \<^verbatim>\<open>float64\<close> and then to
  \<^verbatim>\<open>int64\<close>, which turns a number too large into a negative one, never panics, whatever its stages and documents.\<close>

theorem pipeline_no_panic:
  assumes "bounds_ok pipeline"
  shows "\<not> is_Panic (ApplyPipeline E docs pipeline)"
proof -
  have "\<not> is_Panic (foldR (\<lambda>(op, raw) s. stage E op raw s) (asMap rawStage) s)"
    if "rawStage \<in> set pipeline" for rawStage s
    using that assms by (intro foldR_no_panic) (auto simp: bounds_ok_def intro!: stage_no_panic)
  then show ?thesis unfolding ApplyPipeline_def is_Panic_mapR by (rule foldR_no_panic)
qed

theorem pipeline_no_panic_witness:
  "\<not> is_Panic (ApplyPipeline demo_env [[]] [GDoc [(''$count'', GNil)], GDoc [(''$limit'', GInt32 3)]])"
proof (rule pipeline_no_panic)
  show "bounds_ok [GDoc [(''$count'', GNil)], GDoc [(''$limit'', GInt32 3)]]"
    using int32_to_i64 [of 3] by (simp add: bounds_ok_def)
qed

text \<open>A negative \<^verbatim>\<open>$limit\<close> panics on any documents, and a negative \<^verbatim>\<open>$skip\<close> on any non-empty ones: the
  slice bounds are not checked. No handler recovers, so the process ends.\<close>

theorem negative_limit_crashes:
  assumes "sint n < 0"
  shows "is_Panic (ApplyPipeline E docs [GDoc [(''$limit'', GInt32 n)]]) \<and>
    (docs \<noteq> [] \<longrightarrow> is_Panic (ApplyPipeline E docs [GDoc [(''$skip'', GInt32 n)]]))"
proof -
  have "sint (fp_to_i64 (fp_of_int (sint n))) = sint n"
    using int32_to_i64 [of n] by simp
  then show ?thesis
    using assms by (simp add: ApplyPipeline_single stage_def stageLimit_def stageSkip_def Let_def slice_to_def slice_from_def)
qed

theorem negative_limit_crashes_witness:
  "is_Panic (ApplyPipeline demo_env [] [GDoc [(''$limit'', GInt32 (- 1))]])"
  using negative_limit_crashes [of "- 1" demo_env "[]"] by simp

text \<open>So does the largest \<^verbatim>\<open>$limit\<close>: as a \<^verbatim>\<open>float64\<close> it is \<^verbatim>\<open>2^63\<close>, which no \<^verbatim>\<open>int64\<close> holds.\<close>

theorem largest_limit_crashes:
  "is_Panic (ApplyPipeline E docs [GDoc [(''$limit'', GInt64 9223372036854775807)]])"
proof -
  have "fp_to_i64 (fp_of_int 9223372036854775807) = - 9223372036854775808" by (simp add: fp_eval)
  then have "sint (fp_to_i64 (ToFloat (GInt64 9223372036854775807))) < 0" by simp
  then show ?thesis by (simp add: ApplyPipeline_single stage_def stageLimit_def Let_def slice_to_def)
qed

text \<open>A pipeline succeeds only if every stage operator in it is a supported one.\<close>

theorem pipeline_rejects_unsupported:
  assumes "ApplyPipeline E docs pipeline = Ok out" and "st \<in> set pipeline" and "op \<in> set (keys (asMap st))"
  shows "op \<in> pipeline_stages"
proof -
  obtain raw where op: "(op, raw) \<in> set (asMap st)" using assms(3) by auto
  obtain s where s: "foldR (\<lambda>rawStage s. foldR (\<lambda>(op, raw) s. stage E op raw s) (asMap rawStage) s) pipeline
      (map CloneDoc docs, 1) = Ok s" using assms(1) by (auto simp: ApplyPipeline_def mapR_eq_Ok)
  from foldR_all_Ok [OF s assms(2)] obtain u v
    where "foldR (\<lambda>(op, raw) s. stage E op raw s) (asMap st) u = Ok v" by auto
  from foldR_all_Ok [OF this op] obtain u v where "stage E op raw u = Ok v" by fastforce
  then show ?thesis by (rule stage_supported)
qed

theorem pipeline_rejects_unsupported_witness:
  "''$match'' \<in> pipeline_stages"
  by (rule pipeline_rejects_unsupported [of demo_env "[]" "[GDoc [(''$match'', GDoc [])]]" "[]" "GDoc [(''$match'', GDoc [])]"])
    (simp_all add: ApplyPipeline_single stage_def)

text \<open>Two consecutive \<^verbatim>\<open>$match\<close> stages select what one with the conditions of both selects.\<close>

theorem match_stages_fuse:
  "ApplyPipeline E docs ([GDoc [(''$match'', GDoc f)], GDoc [(''$match'', GDoc g)]] @ rest) =
   ApplyPipeline E docs ([GDoc [(''$match'', GDoc (f @ g))]] @ rest)"
  by (simp add: ApplyPipeline_def stage_def Matches_append conj_commute)

text \<open>C21: Grouping with \<^verbatim>\<open>{$sum: 1}\<close> succeeds and gives one document for each distinct value of the group
  expression (told apart by their Go syntax), holding the value of the group's first document and
  exactly the number of documents of the group.\<close>

theorem group_counts:
  assumes "int (length docs) < 2 ^ 53" and "fair_iter E"
  shows "\<exists>out ks. group E n docs [(''_id'', e), (''count'', GDoc [(''$sum'', GInt32 1)])] = Ok out \<and>
    distinct ks \<and> set ks = (\<lambda>d. gosyntax E (evalExpr d e)) ` set docs \<and>
    list_all2 (\<lambda>k g. let ds = filter (\<lambda>d. gosyntax E (evalExpr d e) = k) docs
       in \<exists>x. g = [(''_id'', evalExpr (hd ds) e), (''count'', GFloat64 x)] \<and> fp_is_int x (int (length ds))) ks out"
proof -
  let ?key = "\<lambda>d. gosyntax E (evalExpr d e)"
  have key: "groupKey E (countSpec e) = ?key" by (simp add: groupKey_def countSpec_def field_def fun_eq_iff)
  obtain table where table: "foldR (groupStep E (countSpec e)) docs [] = Ok table" "distinct (keys table)"
    "set (keys table) = ?key ` set docs"
    and counted: "\<forall>(k, st) \<in> set table. let ds = filter (\<lambda>d. ?key d = k) docs
       in counted (countSpec e) (hd ds) (int (length ds)) st"
    using group_counts_table [OF assms(1), of E e] unfolding key by blast
  let ?rows = "map (\<lambda>(k, st). (k, groupFinish st)) table"
  let ?it = "env_iter E n ?rows"
  have keys: "keys ?rows = keys table" by (simp add: case_prod_beta)
  have row: "let ds = filter (\<lambda>d. ?key d = k) docs
       in \<exists>x. g = [(''_id'', evalExpr (hd ds) e), (''count'', GFloat64 x)] \<and> fp_is_int x (int (length ds))"
    if kg: "(k, g) \<in> set ?it" for k g
  proof -
    from kg assms(2) obtain st where "(k, st) \<in> set table" "g = groupFinish st" by auto
    with counted show ?thesis
      by (fastforce simp: Let_def counted_def groupFinish_def countSpec_def field_def)
  qed
  have "group E n docs (countSpec e) = Ok (map snd ?it)" using table(1) by (simp add: group_def)
  moreover have "mset (keys ?it) = mset (keys ?rows)" by (simp only: mset_map fair_iter_mset [OF assms(2)])
  then have it: "mset (keys ?it) = mset (keys table)" unfolding keys .
  then have "distinct (keys ?it)" using table(2) mset_eq_imp_distinct_iff by blast
  moreover have "set (keys ?it) = ?key ` set docs" using mset_eq_setD [OF it] table(3) by simp
  ultimately show ?thesis
    unfolding countSpec_def
    by (intro exI [of _ "map snd ?it"] exI [of _ "keys ?it"])
      (simp add: list_all2_map1 list_all2_map2 list.rel_refl_strong row)
qed

theorem group_counts_witness:
  "\<exists>out ks. group demo_env 1 [[(''a'', GInt32 1)], [(''a'', GInt32 1)], []] [(''_id'', GString ''$a''), (''count'', GDoc [(''$sum'', GInt32 1)])] = Ok out \<and>
     distinct ks \<and> set ks = {''1'', ''<nil>''} \<and> length out = length ks"
proof -
  have keys: "(\<lambda>d. gosyntax demo_env (evalExpr d (GString ''$a''))) `
      set [[(''a'', GInt32 1)], [(''a'', GInt32 1)], []] = {''1'', ''<nil>''}"
  proof -
    have "dec_int 1 = ''1''" by code_simp
    then show ?thesis by (simp add: valueByPath_def pathMember_def)
  qed
  have "int (length [[(''a'', GInt32 1)], [(''a'', GInt32 1)], []]) < 2 ^ 53" by simp
  from group_counts [OF this fair_iter_demo, of 1 "GString ''$a''"] show ?thesis
    unfolding keys by (elim exE conjE) (intro exI conjI, assumption+, simp only: list_all2_lengthD)
qed

end
