(* ===== verification/Backend_Types.thy ===== *)
theory Backend_Types
  imports Mql_Update Mql_Pipeline Bson_Util
begin

text \<open>
  \<^verbatim>\<open>internal/backend/backend.go\<close>: the requests and results of the storage interface, and the
  interface itself. A Go interface value is a table of operations; \<open>store_ops\<close> is that table over a
  state type \<open>'s\<close>, which a backend chooses. Every operation returns the state after it, also when
  it fails, since a failing operation may already have changed something.
\<close>

record CreateCollectionOptions =
  cc_Validator :: doc

record CollectionInfo =
  ci_Name :: string
  ci_Options :: doc

record FindRequest =
  fr_Filter :: doc
  fr_Projection :: doc
  fr_Sort :: doc
  fr_Skip :: "64 word"
  fr_Limit :: "64 word"

record DistinctRequest =
  dr_Key :: string
  dr_Filter :: doc

record UpdateModel =
  um_Filter :: doc
  um_Update :: doc
  um_Multi :: bool
  um_Upsert :: bool

record UpdateResult =
  ur_Matched :: "64 word"
  ur_Modified :: "64 word"
  ur_Upserted :: "doc list"

record DeleteModel =
  dm_Filter :: doc
  dm_Limit :: "64 word"

record IndexModel =
  ix_Name :: string
  ix_Key :: doc
  ix_Opts :: doc

text \<open>A request or a result with one field is that field.\<close>

type_synonym ListCollectionsResult = "CollectionInfo list"
type_synonym InsertResult = "64 word"
type_synonym FindResult = "doc list"
type_synonym CountRequest = doc
type_synonym CountResult = "64 word"
type_synonym DistinctResult = "gval list"
type_synonym UpdateRequest = "UpdateModel list"
type_synonym DeleteRequest = "DeleteModel list"
type_synonym DeleteResult = "64 word"
type_synonym AggregateRequest = "gval list"
type_synonym AggregateResult = "doc list"
type_synonym CreateIndexesResult = "string list"
type_synonym ListIndexesResult = "doc list"

record 's store_ops =
  op_CreateCollection :: "goenv \<Rightarrow> string \<Rightarrow> string \<Rightarrow> CreateCollectionOptions \<Rightarrow> 's \<Rightarrow> unit res \<times> 's"
  op_ListCollections :: "goenv \<Rightarrow> string \<Rightarrow> doc \<Rightarrow> 's \<Rightarrow> ListCollectionsResult res \<times> 's"
  op_DropCollection :: "goenv \<Rightarrow> string \<Rightarrow> string \<Rightarrow> 's \<Rightarrow> unit res \<times> 's"
  op_Insert :: "goenv \<Rightarrow> string \<Rightarrow> string \<Rightarrow> doc list \<Rightarrow> 's \<Rightarrow> InsertResult res \<times> 's"
  op_Find :: "goenv \<Rightarrow> string \<Rightarrow> string \<Rightarrow> FindRequest \<Rightarrow> 's \<Rightarrow> FindResult res \<times> 's"
  op_Count :: "goenv \<Rightarrow> string \<Rightarrow> string \<Rightarrow> CountRequest \<Rightarrow> 's \<Rightarrow> CountResult res \<times> 's"
  op_Distinct :: "goenv \<Rightarrow> string \<Rightarrow> string \<Rightarrow> DistinctRequest \<Rightarrow> 's \<Rightarrow> DistinctResult res \<times> 's"
  op_Update :: "goenv \<Rightarrow> string \<Rightarrow> string \<Rightarrow> UpdateRequest \<Rightarrow> 's \<Rightarrow> UpdateResult res \<times> 's"
  op_Delete :: "goenv \<Rightarrow> string \<Rightarrow> string \<Rightarrow> DeleteRequest \<Rightarrow> 's \<Rightarrow> DeleteResult res \<times> 's"
  op_Aggregate :: "goenv \<Rightarrow> string \<Rightarrow> string \<Rightarrow> AggregateRequest \<Rightarrow> 's \<Rightarrow> AggregateResult res \<times> 's"
  op_CreateIndexes :: "goenv \<Rightarrow> string \<Rightarrow> string \<Rightarrow> IndexModel list \<Rightarrow> 's \<Rightarrow> CreateIndexesResult res \<times> 's"
  op_ListIndexes :: "goenv \<Rightarrow> string \<Rightarrow> string \<Rightarrow> 's \<Rightarrow> ListIndexesResult res \<times> 's"
  op_DropDatabase :: "goenv \<Rightarrow> string \<Rightarrow> 's \<Rightarrow> unit res \<times> 's"

text \<open>A request that only filters: everything else at its zero value.\<close>

definition filterRequest :: "doc \<Rightarrow> FindRequest" where
  "filterRequest flt =
     \<lparr>fr_Filter = flt, fr_Projection = [], fr_Sort = [], fr_Skip = 0, fr_Limit = 0\<rparr>"

definition findOptions :: "FindRequest \<Rightarrow> FindOptions" where
  "findOptions req =
     \<lparr>opt_Projection = fr_Projection req, opt_Sort = fr_Sort req,
      opt_Skip = fr_Skip req, opt_Limit = fr_Limit req\<rparr>"

text \<open>
  The loop of both stores' \<open>Distinct\<close>: the values of one field that were not seen before. Using a
  value that cannot be hashed as a key of \<^verbatim>\<open>seen\<close> panics.
\<close>

fun distinctLoop :: "goenv \<Rightarrow> string \<Rightarrow> doc list \<Rightarrow> gval list \<Rightarrow> gval list res" where
  "distinctLoop E key [] vs = Ok vs"
| "distinctLoop E key (d # docs) vs =
     (case map_of d key of
        None \<Rightarrow> distinctLoop E key docs vs
      | Some value \<Rightarrow>
          if \<not> hashable E value then Panic ''runtime error: hash of unhashable type''
          else if list_ex (\<lambda>s. iface_eq s value) vs then distinctLoop E key docs vs
          else distinctLoop E key docs (vs @ [value]))"

end
