(* ===== verification/Tidb_Sql.thy ===== *)
theory Tidb_Sql
  imports Sql_Database Backend_Types
begin

text \<open>
  The SQL statements of \<^verbatim>\<open>internal/backend/tidb/store.go\<close> with their arguments, the construction of the
  query of a find (\<open>BuildFindSQL\<close> and the conditions under which a filter is left to the database), and
  the bootstrap statements of \<^verbatim>\<open>internal/catalog/catalog.go\<close>. A table name stands inside the text, every
  other value is an argument.
\<close>

section \<open>Document tables\<close>

definition createTableSQL :: "string \<Rightarrow> 'j sql" where
  "createTableSQL table = (DocumentTableDDL table, [])"

definition dropTableSQL :: "string \<Rightarrow> 'j sql" where
  "dropTableSQL table = (''DROP TABLE IF EXISTS `'' @ table @ ''`'', [])"

definition rowText :: string where
  "rowText = ''` (`id_key`, `id_bson`, `doc_bson`, `doc_json`, `revision`) VALUES (?, ?, ?, CAST(? AS JSON), 1)''"

definition insertDocSQL :: "string \<Rightarrow> string \<Rightarrow> 'j \<Rightarrow> 'j sql" where
  "insertDocSQL table key raw =
     (''INSERT INTO `'' @ table @ rowText, [SqlText key, SqlText key, SqlJson raw, SqlJson raw])"

definition replaceDocSQL :: "string \<Rightarrow> string \<Rightarrow> 'j \<Rightarrow> 'j sql" where
  "replaceDocSQL table key raw =
     (''REPLACE INTO `'' @ table @ rowText, [SqlText key, SqlText key, SqlJson raw, SqlJson raw])"

definition deleteDocSQL :: "string \<Rightarrow> string \<Rightarrow> 'j sql" where
  "deleteDocSQL table key = (''DELETE FROM `'' @ table @ ''` WHERE `id_key` = ?'', [SqlText key])"

section \<open>The catalog\<close>

definition upsertCollectionSQL :: "string \<Rightarrow> string \<Rightarrow> string \<Rightarrow> 'j \<Rightarrow> 'j sql" where
  "upsertCollectionSQL dbName collection table raw =
     (''INSERT INTO `_timongo`.`collections` (`database_name`, `collection_name`, `physical_table`, `options_json`, `schema_version`) VALUES (?, ?, ?, CAST(? AS JSON), 1) '' @
      ''ON DUPLICATE KEY UPDATE `physical_table` = VALUES(`physical_table`), `options_json` = VALUES(`options_json`)'',
      [SqlBytes dbName, SqlBytes collection, SqlText table, SqlJson raw])"

definition selectOptionsSQL :: "string \<Rightarrow> string \<Rightarrow> 'j sql" where
  "selectOptionsSQL dbName collection =
     (''SELECT JSON_PRETTY(`options_json`) FROM `_timongo`.`collections` WHERE `database_name` = ? AND `collection_name` = ?'',
      [SqlBytes dbName, SqlBytes collection])"

definition selectIdSQL :: "string \<Rightarrow> string \<Rightarrow> 'j sql" where
  "selectIdSQL dbName collection =
     (''SELECT `id` FROM `_timongo`.`collections` WHERE `database_name` = ? AND `collection_name` = ?'',
      [SqlBytes dbName, SqlBytes collection])"

definition listCollectionsSQL :: "string \<Rightarrow> doc \<Rightarrow> 'j sql" where
  "listCollectionsSQL dbName flt =
     (let query = ''SELECT `collection_name`, JSON_PRETTY(`options_json`) FROM `_timongo`.`collections` WHERE `database_name` = ?'';
          order = '' ORDER BY `collection_name`''
      in case as_string (field flt ''name'') of
           Some name \<Rightarrow> (query @ '' AND `collection_name` = ?'' @ order, [SqlBytes dbName, SqlBytes name])
         | None \<Rightarrow> (query @ order, [SqlBytes dbName]))"

definition deleteCollectionSQL :: "string \<Rightarrow> string \<Rightarrow> 'j sql" where
  "deleteCollectionSQL dbName collection =
     (''DELETE FROM `_timongo`.`collections` WHERE `database_name` = ? AND `collection_name` = ?'',
      [SqlBytes dbName, SqlBytes collection])"

definition deleteDatabaseSQL :: "string \<Rightarrow> 'j sql" where
  "deleteDatabaseSQL dbName =
     (''DELETE FROM `_timongo`.`collections` WHERE `database_name` = ?'', [SqlBytes dbName])"

definition upsertIndexSQL :: "int \<Rightarrow> string \<Rightarrow> 'j \<Rightarrow> 'j sql" where
  "upsertIndexSQL collectionID name raw =
     (''INSERT INTO `_timongo`.`indexes` (`collection_id`, `name`, `definition_json`, `state`) VALUES (?, ?, CAST(? AS JSON), 'ready') '' @
      ''ON DUPLICATE KEY UPDATE `definition_json` = VALUES(`definition_json`), `state` = VALUES(`state`)'',
      [SqlInt collectionID, SqlText name, SqlJson raw])"

definition selectIndexesSQL :: "int \<Rightarrow> 'j sql" where
  "selectIndexesSQL collectionID =
     (''SELECT `name`, JSON_PRETTY(`definition_json`) FROM `_timongo`.`indexes` WHERE `collection_id` = ? ORDER BY `name`'',
      [SqlInt collectionID])"

definition showTablesSQL :: "string \<Rightarrow> 'j sql" where
  "showTablesSQL likePattern = (''SHOW TABLES LIKE ?'', [SqlText likePattern])"

section \<open>Finds\<close>

text \<open>\<^verbatim>\<open>case bson.M, map[string]any\<close>: the values that are documents.\<close>

definition isDocument :: "gval \<Rightarrow> bool" where
  "isDocument v = (case v of GDoc _ \<Rightarrow> True | GMap _ \<Rightarrow> True | _ \<Rightarrow> False)"

definition canPushDownFilter :: "doc \<Rightarrow> bool" where
  "canPushDownFilter flt =
     (if length flt = 0 then True
      else if length flt > 1 then False
      else \<not> list_ex (\<lambda>(key, value). key \<noteq> ''_id'' \<or> starts_with ''$'' key \<or> isDocument value) flt)"

definition canPushDownFind :: "FindRequest \<Rightarrow> bool" where
  "canPushDownFind req \<longleftrightarrow>
     fr_Skip req = 0 \<and> length (fr_Sort req) = 0 \<and> length (fr_Projection req) = 0 \<and>
     canPushDownFilter (fr_Filter req)"

text \<open>One entry of the filter, added to the text and the arguments.\<close>

definition pushCondition :: "goenv \<Rightarrow> string \<times> gval \<Rightarrow> 'j sql \<Rightarrow> 'j sql res" where
  "pushCondition E kv st =
     (case (kv, st) of ((k, v), (query, args)) \<Rightarrow>
        if k = ''_id'' then
          mapR (\<lambda>key. (query @ '' WHERE `id_key` = ?'', args @ [SqlText key])) (ValueKey E v)
        else
          Ok (query @ '' WHERE JSON_UNQUOTE(JSON_EXTRACT(doc_json, ?)) = ?'',
              args @ [SqlText (''$.'' @ k), SqlText (sprint E v)]))"

definition BuildFindSQL :: "goenv \<Rightarrow> string \<Rightarrow> string \<Rightarrow> FindRequest \<Rightarrow> 'j sql res" where
  "BuildFindSQL E dbName collection req =
     (let query = ''SELECT JSON_PRETTY(doc_json) FROM `'' @ PhysicalTableName dbName collection @ ''`''
      in if canPushDownFind req then
           bindR (foldR (pushCondition E) (fr_Filter req) (query, [])) (\<lambda>(query, args).
             if 0 < sint (fr_Limit req)
               then Ok (query @ '' LIMIT ?'', args @ [SqlInt (sint (fr_Limit req))]) else Ok (query, args))
         else Ok (query, []))"

section \<open>Bootstrap\<close>

definition BootstrapStatements :: "string list" where
  "BootstrapStatements =
     [''CREATE DATABASE IF NOT EXISTS `_timongo`'',
      ''CREATE TABLE IF NOT EXISTS `_timongo`.`databases` (`name` VARBINARY(256) NOT NULL PRIMARY KEY, `created_at` TIMESTAMP(6) NOT NULL DEFAULT CURRENT_TIMESTAMP(6))'',
      ''CREATE TABLE IF NOT EXISTS `_timongo`.`collections` (`id` BIGINT NOT NULL AUTO_INCREMENT PRIMARY KEY, `database_name` VARBINARY(256) NOT NULL, `collection_name` VARBINARY(256) NOT NULL, `physical_table` VARCHAR(256) NOT NULL, `options_json` JSON NOT NULL, `schema_version` BIGINT NOT NULL DEFAULT 1, UNIQUE KEY `uk_namespace` (`database_name`, `collection_name`))'',
      ''CREATE TABLE IF NOT EXISTS `_timongo`.`indexes` (`id` BIGINT NOT NULL AUTO_INCREMENT PRIMARY KEY, `collection_id` BIGINT NOT NULL, `name` VARCHAR(128) NOT NULL, `definition_json` JSON NOT NULL, `state` VARCHAR(32) NOT NULL, UNIQUE KEY `uk_collection_index` (`collection_id`, `name`))'',
      ''CREATE TABLE IF NOT EXISTS `_timongo`.`users` (`user_name` VARBINARY(256) NOT NULL, `database_name` VARBINARY(256) NOT NULL, `credentials_json` JSON NOT NULL, `roles_json` JSON NOT NULL, PRIMARY KEY (`user_name`, `database_name`))'',
      ''CREATE TABLE IF NOT EXISTS `_timongo`.`roles` (`role_name` VARBINARY(256) NOT NULL, `database_name` VARBINARY(256) NOT NULL, `privileges_json` JSON NOT NULL, PRIMARY KEY (`role_name`, `database_name`))'',
      ''CREATE TABLE IF NOT EXISTS `_timongo`.`sessions` (`lsid` VARBINARY(256) NOT NULL PRIMARY KEY, `user_name` VARBINARY(256) NOT NULL, `last_used_at` TIMESTAMP(6) NOT NULL, `expires_at` TIMESTAMP(6) NOT NULL)'',
      ''CREATE TABLE IF NOT EXISTS `_timongo`.`retryable_writes` (`lsid` VARBINARY(256) NOT NULL, `txn_number` BIGINT NOT NULL, `stmt_id` INT NOT NULL, `result_bson` LONGBLOB NOT NULL, `created_at` TIMESTAMP(6) NOT NULL DEFAULT CURRENT_TIMESTAMP(6), PRIMARY KEY (`lsid`, `txn_number`, `stmt_id`))'',
      ''CREATE TABLE IF NOT EXISTS `_timongo`.`cursors` (`id` BIGINT NOT NULL PRIMARY KEY, `namespace` VARCHAR(512) NOT NULL, `plan_json` JSON NOT NULL, `continuation_key` VARBINARY(3072) NOT NULL, `expires_at` TIMESTAMP(6) NOT NULL)'',
      ''CREATE TABLE IF NOT EXISTS `_timongo`.`transactions` (`lsid` VARBINARY(256) NOT NULL, `txn_number` BIGINT NOT NULL, `state` VARCHAR(32) NOT NULL, `owner_instance` VARCHAR(128) NOT NULL, `lease_until` TIMESTAMP(6) NOT NULL, PRIMARY KEY (`lsid`, `txn_number`))'',
      ''CREATE TABLE IF NOT EXISTS `_timongo`.`instances` (`id` VARCHAR(128) NOT NULL PRIMARY KEY, `host` VARCHAR(256) NOT NULL, `mongo_port` INT NOT NULL, `tidb_host` VARCHAR(256) NOT NULL, `tidb_port` INT NOT NULL, `last_seen_at` TIMESTAMP(6) NOT NULL)'',
      ''CREATE TABLE IF NOT EXISTS `_timongo`.`schema_locks` (`name` VARCHAR(128) NOT NULL PRIMARY KEY, `owner_instance` VARCHAR(128) NOT NULL, `lease_until` TIMESTAMP(6) NOT NULL)'']"

definition Bootstrap :: "('q, 'j) sqldb \<Rightarrow> ('q, unit) action" where
  "Bootstrap D = foldS (\<lambda>stmt. db_exec D (stmt, [])) BootstrapStatements"

end
