(* ===== verification/Tidb_Store.thy ===== *)
theory Tidb_Store
  imports Tidb_Sql
begin

text \<open>
  \<^verbatim>\<open>internal/backend/tidb/store.go\<close>: the backend that keeps documents in a SQL database. It has no state of
  its own; the state is that of the database \<open>D\<close>. \<open>X\<close> are the conversions to and from Extended JSON.
  Every statement is a step on the database, in the order the code sends them. What other clients of the
  database do between two steps is part of the database: nothing over \<open>sql_contract\<close>, anything that
  servers like this one do over the locale \<open>sql_shared\<close>.
\<close>

section \<open>Connection\<close>

text \<open>\<open>opened\<close> is the result of \<^verbatim>\<open>sql.Open\<close>, which only parses the name of the data source.\<close>

definition tidb_NewStore :: "('q, 'j) sqldb \<Rightarrow> unit res \<Rightarrow> ('q, unit) action" where
  "tidb_NewStore D opened =
     bindS (liftS opened) (\<lambda>_. withRollback (db_close D) (bindS (db_ping D) (\<lambda>_. Bootstrap D)))"

definition tidb_Close :: "('q, 'j) sqldb \<Rightarrow> ('q, unit) action" where
  "tidb_Close D = db_close D"

definition tidb_Ready :: "('q, 'j) sqldb \<Rightarrow> ('q, unit) action" where
  "tidb_Ready D = db_ping D"

section \<open>Collections\<close>

definition tidb_ensureCollection :: "('q, 'j) sqldb \<Rightarrow> string \<Rightarrow> ('q, unit) action" where
  "tidb_ensureCollection D table = db_exec D (createTableSQL table)"

definition tidb_collectionOptions ::
  "('q, 'j) sqldb \<Rightarrow> 'j extjson \<Rightarrow> string \<Rightarrow> string \<Rightarrow> ('q, doc option) action" where
  "tidb_collectionOptions D X dbName collection =
     bindS (queryRow D (selectOptionsSQL dbName collection) (scan1 scanJson)) (\<lambda>row.
     case row of
       None \<Rightarrow> returnS None
     | Some rawOptions \<Rightarrow> liftS (mapR Some (UnmarshalExtJSON X rawOptions)))"

definition optionsOrEmpty :: "doc option \<Rightarrow> doc" where
  "optionsOrEmpty existing = (case existing of None \<Rightarrow> [] | Some options \<Rightarrow> options)"

text \<open>The options a collection gets when it is created again: a new validator replaces the old one.\<close>

definition mergedOptions :: "doc option \<Rightarrow> CreateCollectionOptions \<Rightarrow> doc" where
  "mergedOptions existing opts =
     (if cc_Validator opts \<noteq> []
        then put ''validator'' (GDoc (cc_Validator opts)) (optionsOrEmpty existing)
      else optionsOrEmpty existing)"

definition tidb_collectionValidator ::
  "('q, 'j) sqldb \<Rightarrow> 'j extjson \<Rightarrow> string \<Rightarrow> string \<Rightarrow> ('q, gval) action" where
  "tidb_collectionValidator D X dbName collection =
     bindS (tidb_collectionOptions D X dbName collection) (\<lambda>options.
     returnS (case as_doc (field (optionsOrEmpty options) ''validator'') of
                Some validator \<Rightarrow> GDoc validator | None \<Rightarrow> GDoc []))"

definition tidb_collectionID ::
  "('q, 'j) sqldb \<Rightarrow> string \<Rightarrow> string \<Rightarrow> ('q, int option) action" where
  "tidb_collectionID D dbName collection = queryRow D (selectIdSQL dbName collection) (scan1 scanInt)"

definition tidb_CreateCollection ::
  "('q, 'j) sqldb \<Rightarrow> 'j extjson \<Rightarrow> goenv \<Rightarrow> string \<Rightarrow> string \<Rightarrow> CreateCollectionOptions \<Rightarrow> ('q, unit) action" where
  "tidb_CreateCollection D X E dbName collection opts =
     (let table = PhysicalTableName dbName collection in
      bindS (tidb_ensureCollection D table) (\<lambda>_.
      bindS (tidb_collectionOptions D X dbName collection) (\<lambda>existing.
      bindS (liftS (MarshalExtJSON X (mergedOptions existing opts))) (\<lambda>rawOptions.
      db_exec D (upsertCollectionSQL dbName collection table rawOptions)))))"

definition tidb_ListCollections ::
  "('q, 'j) sqldb \<Rightarrow> 'j extjson \<Rightarrow> goenv \<Rightarrow> string \<Rightarrow> doc \<Rightarrow> ('q, ListCollectionsResult) action" where
  "tidb_ListCollections D X E dbName flt =
     bindS (db_query D (listCollectionsSQL dbName flt)) (\<lambda>rows. liftS
       (eachRow (\<lambda>row collections.
          bindR (scan2 scanText scanJson row) (\<lambda>(name, rawOptions).
          bindR (UnmarshalExtJSON X rawOptions) (\<lambda>options.
          Ok (collections @ [\<lparr>ci_Name = name, ci_Options = options\<rparr>])))) rows []))"

definition tidb_DropCollection :: "('q, 'j) sqldb \<Rightarrow> goenv \<Rightarrow> string \<Rightarrow> string \<Rightarrow> ('q, unit) action" where
  "tidb_DropCollection D E dbName collection =
     bindS (db_exec D (dropTableSQL (PhysicalTableName dbName collection))) (\<lambda>_.
     db_exec D (deleteCollectionSQL dbName collection))"

text \<open>\<^verbatim>\<open>strings.TrimSuffix(prefix, "_")\<close>; the tables that match the pattern are dropped one by one.\<close>

definition databasePattern :: "string \<Rightarrow> string" where
  "databasePattern dbName =
     (let prefix = PhysicalTableName dbName '''';
          prefix = (if prefix \<noteq> [] \<and> last prefix = CHR ''_'' then butlast prefix else prefix)
      in prefix @ ''_%'')"

definition tidb_DropDatabase :: "('q, 'j) sqldb \<Rightarrow> goenv \<Rightarrow> string \<Rightarrow> ('q, unit) action" where
  "tidb_DropDatabase D E dbName =
     bindS (db_query D (showTablesSQL (databasePattern dbName))) (\<lambda>rows.
     bindS (liftS (eachRow (\<lambda>row tables. mapR (\<lambda>table. tables @ [table]) (scan1 scanText row)) rows [])) (\<lambda>tables.
     bindS (foldS (\<lambda>table. db_exec D (dropTableSQL table)) tables) (\<lambda>_.
     db_exec D (deleteDatabaseSQL dbName))))"

section \<open>Documents\<close>

text \<open>One document of an insert, inside the transaction.\<close>

definition insertRow ::
  "('q, 'j) sqldb \<Rightarrow> 'j extjson \<Rightarrow> goenv \<Rightarrow> string \<Rightarrow> gval \<Rightarrow> doc \<Rightarrow> ('q, unit) action" where
  "insertRow D X E table validator d =
     bindS (liftS (ValidateJSONSchema E validator d)) (\<lambda>_.
     bindS (liftS (DocumentIDKey E d)) (\<lambda>key.
     bindS (liftS (MarshalExtJSON X d)) (\<lambda>raw.
     tx_exec D (insertDocSQL table key raw))))"

definition tidb_Insert ::
  "('q, 'j) sqldb \<Rightarrow> 'j extjson \<Rightarrow> goenv \<Rightarrow> string \<Rightarrow> string \<Rightarrow> doc list \<Rightarrow> ('q, InsertResult) action" where
  "tidb_Insert D X E dbName collection docs =
     (let table = PhysicalTableName dbName collection in
      bindS (tidb_CreateCollection D X E dbName collection \<lparr>cc_Validator = []\<rparr>) (\<lambda>_.
      bindS (tidb_collectionValidator D X dbName collection) (\<lambda>validator.
      bindS (tx_begin D) (\<lambda>_.
      bindS (withRollback (tx_rollback D) (foldS (insertRow D X E table validator) docs)) (\<lambda>_.
      bindS (tx_commit D) (\<lambda>_.
      returnS (word_of_int (int (length docs)))))))))"

text \<open>One row of a find: its document, kept when it matches.\<close>

definition matchRow :: "'j extjson \<Rightarrow> goenv \<Rightarrow> doc \<Rightarrow> 'j sqlval list \<Rightarrow> doc list \<Rightarrow> doc list res" where
  "matchRow X E flt row matched =
     bindR (scan1 scanJson row) (\<lambda>raw.
     bindR (UnmarshalExtJSON X raw) (\<lambda>d.
     Ok (if Matches E d flt then matched @ [d] else matched)))"

definition tidb_Find ::
  "('q, 'j) sqldb \<Rightarrow> 'j extjson \<Rightarrow> goenv \<Rightarrow> string \<Rightarrow> string \<Rightarrow> FindRequest \<Rightarrow> ('q, FindResult) action" where
  "tidb_Find D X E dbName collection req =
     bindS (tidb_ensureCollection D (PhysicalTableName dbName collection)) (\<lambda>_.
     bindS (liftS (BuildFindSQL E dbName collection req)) (\<lambda>st.
     bindS (db_query D st) (\<lambda>rows.
     bindS (liftS (eachRow (matchRow X E (fr_Filter req)) rows [])) (\<lambda>matched.
     returnS (ApplyFindOptions E matched (findOptions req))))))"

definition tidb_Count ::
  "('q, 'j) sqldb \<Rightarrow> 'j extjson \<Rightarrow> goenv \<Rightarrow> string \<Rightarrow> string \<Rightarrow> CountRequest \<Rightarrow> ('q, CountResult) action" where
  "tidb_Count D X E dbName collection flt =
     bindS (tidb_Find D X E dbName collection (filterRequest flt)) (\<lambda>docs.
     returnS (word_of_int (int (length docs))))"

definition tidb_Distinct ::
  "('q, 'j) sqldb \<Rightarrow> 'j extjson \<Rightarrow> goenv \<Rightarrow> string \<Rightarrow> string \<Rightarrow> DistinctRequest \<Rightarrow> ('q, DistinctResult) action" where
  "tidb_Distinct D X E dbName collection req =
     bindS (tidb_Find D X E dbName collection (filterRequest (dr_Filter req))) (\<lambda>docs.
     liftS (distinctLoop E (dr_Key req) docs []))"

definition tidb_Aggregate ::
  "('q, 'j) sqldb \<Rightarrow> 'j extjson \<Rightarrow> goenv \<Rightarrow> string \<Rightarrow> string \<Rightarrow> AggregateRequest \<Rightarrow> ('q, AggregateResult) action" where
  "tidb_Aggregate D X E dbName collection pipeline =
     bindS (tidb_Find D X E dbName collection (filterRequest [])) (\<lambda>docs.
     liftS (ApplyPipeline E docs pipeline))"

section \<open>Updates and deletes\<close>

definition tidb_replaceDocument ::
  "('q, 'j) sqldb \<Rightarrow> 'j extjson \<Rightarrow> goenv \<Rightarrow> string \<Rightarrow> doc \<Rightarrow> ('q, unit) action" where
  "tidb_replaceDocument D X E table d =
     bindS (liftS (DocumentIDKey E d)) (\<lambda>key.
     bindS (liftS (MarshalExtJSON X d)) (\<lambda>raw.
     db_exec D (replaceDocSQL table key raw)))"

text \<open>The variables of an update: the result, the matches of the current one, and the clock readings.\<close>

record tidbUpd =
  tu_result :: UpdateResult
  tu_matchedForOp :: "64 word"
  tu_clock :: nat

definition tu_matched :: "tidbUpd \<Rightarrow> tidbUpd" where
  "tu_matched v =
     v\<lparr>tu_matchedForOp := tu_matchedForOp v + 1,
       tu_result := (tu_result v)\<lparr>ur_Matched := ur_Matched (tu_result v) + 1\<rparr>\<rparr>"

definition tu_modified :: "tidbUpd \<Rightarrow> tidbUpd" where
  "tu_modified v =
     v\<lparr>tu_result := (tu_result v)\<lparr>ur_Modified := ur_Modified (tu_result v) + 1\<rparr>, tu_clock := tu_clock v + 1\<rparr>"

definition tu_upserted :: "doc \<Rightarrow> tidbUpd \<Rightarrow> tidbUpd" where
  "tu_upserted d v =
     v\<lparr>tu_result := \<lparr>ur_Matched = ur_Matched (tu_result v) + 1, ur_Modified = ur_Modified (tu_result v) + 1,
         ur_Upserted = ur_Upserted (tu_result v) @ [[(''index'', GInt32 0), (''_id'', field d ''_id'')]]\<rparr>,
       tu_clock := tu_clock v + 1\<rparr>"

fun tidb_updateDocs ::
  "('q, 'j) sqldb \<Rightarrow> 'j extjson \<Rightarrow> goenv \<Rightarrow> string \<Rightarrow> UpdateModel \<Rightarrow> doc list \<Rightarrow> tidbUpd \<Rightarrow> ('q, tidbUpd) action" where
  "tidb_updateDocs D X E table u [] v = returnS v"
| "tidb_updateDocs D X E table u (d # docs) v =
     (if \<not> Matches E d (um_Filter u) then tidb_updateDocs D X E table u docs v
      else
        bindS (liftS (ApplyUpdate E (env_now E (tu_clock v)) (CloneDoc d) (um_Update u))) (\<lambda>next.
        bindS (tidb_replaceDocument D X E table next) (\<lambda>_.
        if \<not> um_Multi u then returnS (tu_modified (tu_matched v))
        else tidb_updateDocs D X E table u docs (tu_modified (tu_matched v)))))"

definition tidb_upsert ::
  "('q, 'j) sqldb \<Rightarrow> 'j extjson \<Rightarrow> goenv \<Rightarrow> string \<Rightarrow> UpdateModel \<Rightarrow> tidbUpd \<Rightarrow> ('q, tidbUpd) action" where
  "tidb_upsert D X E table u v =
     (if tu_matchedForOp v = 0 \<and> um_Upsert u then
        bindS (liftS (ApplyUpdate E (env_now E (tu_clock v)) (CloneDoc (um_Filter u)) (um_Update u))) (\<lambda>d.
        let d = (if map_of d ''_id'' = None
                 then put ''_id'' (GString (''upsert-'' @ dec_int (env_nano E (tu_clock v)))) d else d) in
        bindS (tidb_replaceDocument D X E table d) (\<lambda>_.
        returnS (tu_upserted d v)))
      else returnS v)"

text \<open>All updates work on the documents that one find returned before the first of them.\<close>

fun tidb_updates ::
  "('q, 'j) sqldb \<Rightarrow> 'j extjson \<Rightarrow> goenv \<Rightarrow> string \<Rightarrow> doc list \<Rightarrow> UpdateModel list \<Rightarrow> tidbUpd \<Rightarrow> ('q, tidbUpd) action" where
  "tidb_updates D X E table docs [] v = returnS v"
| "tidb_updates D X E table docs (u # us) v =
     bindS (tidb_updateDocs D X E table u docs (v\<lparr>tu_matchedForOp := 0\<rparr>)) (\<lambda>v.
     bindS (tidb_upsert D X E table u v) (\<lambda>v.
     tidb_updates D X E table docs us v))"

definition tidb_Update ::
  "('q, 'j) sqldb \<Rightarrow> 'j extjson \<Rightarrow> goenv \<Rightarrow> string \<Rightarrow> string \<Rightarrow> UpdateRequest \<Rightarrow> ('q, UpdateResult) action" where
  "tidb_Update D X E dbName collection updates =
     (let table = PhysicalTableName dbName collection in
      bindS (tidb_CreateCollection D X E dbName collection \<lparr>cc_Validator = []\<rparr>) (\<lambda>_.
      bindS (tidb_Find D X E dbName collection (filterRequest [])) (\<lambda>docs.
      bindS (tidb_updates D X E table docs updates
               \<lparr>tu_result = \<lparr>ur_Matched = 0, ur_Modified = 0, ur_Upserted = []\<rparr>, tu_matchedForOp = 0, tu_clock = 0\<rparr>) (\<lambda>v.
      returnS (tu_result v)))))"

fun tidb_deleteDocs ::
  "('q, 'j) sqldb \<Rightarrow> goenv \<Rightarrow> string \<Rightarrow> DeleteModel \<Rightarrow> doc list \<Rightarrow> 64 word \<Rightarrow> ('q, 64 word) action" where
  "tidb_deleteDocs D E table m [] n = returnS n"
| "tidb_deleteDocs D E table m (d # docs) n =
     (if \<not> Matches E d (dm_Filter m) then tidb_deleteDocs D E table m docs n
      else
        bindS (liftS (DocumentIDKey E d)) (\<lambda>key.
        bindS (db_exec D (deleteDocSQL table key)) (\<lambda>_.
        if dm_Limit m = 1 then returnS (n + 1)
        else tidb_deleteDocs D E table m docs (n + 1))))"

fun tidb_deletes ::
  "('q, 'j) sqldb \<Rightarrow> goenv \<Rightarrow> string \<Rightarrow> doc list \<Rightarrow> DeleteModel list \<Rightarrow> 64 word \<Rightarrow> ('q, 64 word) action" where
  "tidb_deletes D E table docs [] n = returnS n"
| "tidb_deletes D E table docs (m # ms) n =
     bindS (tidb_deleteDocs D E table m docs n) (tidb_deletes D E table docs ms)"

definition tidb_Delete ::
  "('q, 'j) sqldb \<Rightarrow> 'j extjson \<Rightarrow> goenv \<Rightarrow> string \<Rightarrow> string \<Rightarrow> DeleteRequest \<Rightarrow> ('q, DeleteResult) action" where
  "tidb_Delete D X E dbName collection deletes =
     (let table = PhysicalTableName dbName collection in
      bindS (tidb_Find D X E dbName collection (filterRequest [])) (\<lambda>docs.
      tidb_deletes D E table docs deletes 0))"

section \<open>Indexes\<close>

definition tidb_indexName :: "IndexModel \<Rightarrow> string" where
  "tidb_indexName idx = (if ix_Name idx = '''' then ''unnamed_1'' else ix_Name idx)"

definition tidb_indexDef :: "IndexModel \<Rightarrow> doc" where
  "tidb_indexDef idx = fold (\<lambda>(k, v) def. put k v def) (ix_Opts idx) [(''key'', GDoc (ix_Key idx))]"

text \<open>A missing row of the collection is an error here (\<^verbatim>\<open>sql.ErrNoRows\<close>), but not in \<open>ListIndexes\<close>.\<close>

definition errNoRows :: goerr where
  "errNoRows = PlainError ''sql: no rows in result set''"

definition tidb_CreateIndexes ::
  "('q, 'j) sqldb \<Rightarrow> 'j extjson \<Rightarrow> goenv \<Rightarrow> string \<Rightarrow> string \<Rightarrow> IndexModel list \<Rightarrow> ('q, CreateIndexesResult) action" where
  "tidb_CreateIndexes D X E dbName collection indexes =
     bindS (tidb_CreateCollection D X E dbName collection \<lparr>cc_Validator = []\<rparr>) (\<lambda>_.
     bindS (tidb_collectionID D dbName collection) (\<lambda>id.
     case id of
       None \<Rightarrow> liftS (Err errNoRows)
     | Some collectionID \<Rightarrow>
         bindS (foldS (\<lambda>idx.
           bindS (liftS (MarshalExtJSON X (tidb_indexDef idx))) (\<lambda>rawDef.
           db_exec D (upsertIndexSQL collectionID (tidb_indexName idx) rawDef))) indexes) (\<lambda>_.
         returnS (map tidb_indexName indexes))))"

definition defaultIndexDoc :: doc where
  "defaultIndexDoc = [(''name'', GString ''_id_''), (''key'', GDoc [(''_id'', GInt32 1)])]"

text \<open>The document of one row: the stored definition may hold a \<^verbatim>\<open>name\<close> of its own, which wins.\<close>

definition indexRowDoc :: "string \<Rightarrow> doc \<Rightarrow> doc" where
  "indexRowDoc name def =
     (let d = [(''name'', GString name)];
          d = (case map_of def ''key'' of Some key \<Rightarrow> put ''key'' key d | None \<Rightarrow> d)
      in fold (\<lambda>(k, v) d. if k \<noteq> ''key'' then put k v d else d) def d)"

definition tidb_ListIndexes ::
  "('q, 'j) sqldb \<Rightarrow> 'j extjson \<Rightarrow> goenv \<Rightarrow> string \<Rightarrow> string \<Rightarrow> ('q, ListIndexesResult) action" where
  "tidb_ListIndexes D X E dbName collection =
     bindS (tidb_collectionID D dbName collection) (\<lambda>id.
     case id of
       None \<Rightarrow> returnS [defaultIndexDoc]
     | Some collectionID \<Rightarrow>
         bindS (db_query D (selectIndexesSQL collectionID)) (\<lambda>rows. liftS
           (eachRow (\<lambda>row indexes.
              bindR (scan2 scanText scanJson row) (\<lambda>(name, rawDef).
              bindR (UnmarshalExtJSON X rawDef) (\<lambda>def.
              Ok (indexes @ [indexRowDoc name def])))) rows [defaultIndexDoc])))"

text \<open>The backend as a value of the storage interface.\<close>

definition tidb_ops :: "('q, 'j) sqldb \<Rightarrow> 'j extjson \<Rightarrow> 'q store_ops" where
  "tidb_ops D X =
     \<lparr>op_CreateCollection = tidb_CreateCollection D X, op_ListCollections = tidb_ListCollections D X,
      op_DropCollection = tidb_DropCollection D, op_Insert = tidb_Insert D X, op_Find = tidb_Find D X,
      op_Count = tidb_Count D X, op_Distinct = tidb_Distinct D X, op_Update = tidb_Update D X,
      op_Delete = tidb_Delete D X, op_Aggregate = tidb_Aggregate D X,
      op_CreateIndexes = tidb_CreateIndexes D X, op_ListIndexes = tidb_ListIndexes D X,
      op_DropDatabase = tidb_DropDatabase D\<rparr>"

end
