(* ===== verification/Sql_Contract.thy ===== *)
theory Sql_Contract
  imports Tidb_Sql
begin

text \<open>
  What TiDB documents of the statements that \<open>Tidb_Sql\<close> writes: their effect on tables (\<open>run\<close>), the rows
  they answer (\<open>answers\<close>), and transactions. The locale \<open>sql_contract\<close> states it of a database whose
  statements may fail at any time; a failing statement of its own either did nothing or did all it
  does. \<open>sql_reliable\<close> adds that statements which can be done are done.
\<close>

section \<open>Statements\<close>

datatype 'j stmt =
    CreateTable string
  | DropTable string
  | InsertDoc string string 'j
  | ReplaceDoc string string 'j
  | DeleteDoc string string
  | UpsertCollection string string string 'j
  | DeleteCollection string string
  | DeleteDatabase string
  | UpsertIndex int string 'j

fun render :: "'j stmt \<Rightarrow> 'j sql" where
  "render (CreateTable t) = createTableSQL t"
| "render (DropTable t) = dropTableSQL t"
| "render (InsertDoc t k raw) = insertDocSQL t k raw"
| "render (ReplaceDoc t k raw) = replaceDocSQL t k raw"
| "render (DeleteDoc t k) = deleteDocSQL t k"
| "render (UpsertCollection db c t raw) = upsertCollectionSQL db c t raw"
| "render (DeleteCollection db c) = deleteCollectionSQL db c"
| "render (DeleteDatabase db) = deleteDatabaseSQL db"
| "render (UpsertIndex i name raw) = upsertIndexSQL i name raw"

datatype query =
    SelectDocs string "string option" "int option"
  | SelectOptions string string
  | SelectId string string
  | ListCollections string "string option"
  | SelectIndexes int
  | ShowTables string

definition selectDocsSQL :: "string \<Rightarrow> string option \<Rightarrow> int option \<Rightarrow> 'j sql" where
  "selectDocsSQL t k l =
     (''SELECT JSON_PRETTY(doc_json) FROM `'' @ t @ ''`'' @
        (if k = None then '''' else '' WHERE `id_key` = ?'') @ (if l = None then '''' else '' LIMIT ?''),
      (case k of None \<Rightarrow> [] | Some key \<Rightarrow> [SqlText key]) @ (case l of None \<Rightarrow> [] | Some n \<Rightarrow> [SqlInt n]))"

fun render_query :: "query \<Rightarrow> 'j sql" where
  "render_query (SelectDocs t k l) = selectDocsSQL t k l"
| "render_query (SelectOptions db c) = selectOptionsSQL db c"
| "render_query (SelectId db c) = selectIdSQL db c"
| "render_query (ListCollections db name) =
     listCollectionsSQL db (case name of None \<Rightarrow> [] | Some n \<Rightarrow> [(''name'', GString n)])"
| "render_query (SelectIndexes i) = selectIndexesSQL i"
| "render_query (ShowTables pattern) = showTablesSQL pattern"

text \<open>The statements whose table name cannot end the quotation.\<close>

fun wf_stmt :: "'j stmt \<Rightarrow> bool" where
  "wf_stmt (CreateTable t) = safeTable t"
| "wf_stmt (DropTable t) = safeTable t"
| "wf_stmt (InsertDoc t _ _) = safeTable t"
| "wf_stmt (ReplaceDoc t _ _) = safeTable t"
| "wf_stmt (DeleteDoc t _) = safeTable t"
| "wf_stmt _ = True"

fun wf_query :: "query \<Rightarrow> bool" where
  "wf_query (SelectDocs t _ _) = safeTable t"
| "wf_query _ = True"

section \<open>Tables\<close>

text \<open>
  The document tables by name, each with its rows by \<^verbatim>\<open>id_key\<close>; the rows of the catalog's
  \<^verbatim>\<open>collections\<close> by namespace (identifier, physical table, options) and of \<^verbatim>\<open>indexes\<close>.
\<close>

record 'j sqlState =
  sq_tables :: "(string \<times> (string \<times> 'j) list) list"
  sq_collections :: "((string \<times> string) \<times> (int \<times> string \<times> 'j)) list"
  sq_indexes :: "((int \<times> string) \<times> 'j) list"

definition rowsOf :: "'j sqlState \<Rightarrow> string \<Rightarrow> (string \<times> 'j) list" where
  "rowsOf s t = (case map_of (sq_tables s) t of None \<Rightarrow> [] | Some rows \<Rightarrow> rows)"

definition setRows :: "string \<Rightarrow> (string \<times> 'j) list \<Rightarrow> 'j sqlState \<Rightarrow> 'j sqlState" where
  "setRows t rows s = s\<lparr>sq_tables := put t rows (sq_tables s)\<rparr>"

text \<open>
  The effect of a statement, \<open>None\<close> when it is an error: a missing table, a key that is taken, a value
  that is no JSON (\<open>json\<close> is \<^verbatim>\<open>CAST(? AS JSON)\<close> followed by \<^verbatim>\<open>JSON_PRETTY\<close>), a name or a key longer than
  its column, an identifier of more than 64 bytes. \<open>i\<close> is the identifier of a new row of \<^verbatim>\<open>collections\<close>.
\<close>

fun run :: "('j \<Rightarrow> 'j option) \<Rightarrow> int \<Rightarrow> 'j stmt \<Rightarrow> 'j sqlState \<Rightarrow> 'j sqlState option" where
  "run json i (CreateTable t) s =
     (if length t > 64 then None
      else if map_of (sq_tables s) t = None then Some (setRows t [] s) else Some s)"
| "run json i (DropTable t) s =
     (if length t > 64 then None else Some (s\<lparr>sq_tables := del t (sq_tables s)\<rparr>))"
| "run json i (InsertDoc t k raw) s =
     (case (map_of (sq_tables s) t, json raw) of
        (Some rows, Some txt) \<Rightarrow>
          if length k > 768 \<or> map_of rows k \<noteq> None then None else Some (setRows t (put k txt rows) s)
      | _ \<Rightarrow> None)"
| "run json i (ReplaceDoc t k raw) s =
     (case (map_of (sq_tables s) t, json raw) of
        (Some rows, Some txt) \<Rightarrow> if length k > 768 then None else Some (setRows t (put k txt rows) s)
      | _ \<Rightarrow> None)"
| "run json i (DeleteDoc t k) s =
     (case map_of (sq_tables s) t of None \<Rightarrow> None | Some rows \<Rightarrow> Some (setRows t (del k rows) s))"
| "run json i (UpsertCollection db c t raw) s =
     (case json raw of
        None \<Rightarrow> None
      | Some txt \<Rightarrow>
          if length db > 256 \<or> length c > 256 then None
          else
            (let id = (case map_of (sq_collections s) (db, c) of Some (i', _) \<Rightarrow> i' | None \<Rightarrow> i)
             in Some (s\<lparr>sq_collections := put (db, c) (id, t, txt) (sq_collections s)\<rparr>)))"
| "run json i (DeleteCollection db c) s = Some (s\<lparr>sq_collections := del (db, c) (sq_collections s)\<rparr>)"
| "run json i (DeleteDatabase db) s =
     Some (s\<lparr>sq_collections := filter (\<lambda>((d, c), _). d \<noteq> db) (sq_collections s)\<rparr>)"
| "run json i (UpsertIndex j name raw) s =
     (case json raw of
        None \<Rightarrow> None
      | Some txt \<Rightarrow> if length name > 128 then None else Some (s\<lparr>sq_indexes := put (j, name) txt (sq_indexes s)\<rparr>))"

text \<open>A new row gets an identifier that no row has (\<^verbatim>\<open>AUTO_INCREMENT\<close>).\<close>

definition usedIds :: "'j sqlState \<Rightarrow> int list" where
  "usedIds s = map (\<lambda>(_, (i, _)). i) (sq_collections s) @ map (\<lambda>((i, _), _). i) (sq_indexes s)"

definition runs :: "('j \<Rightarrow> 'j option) \<Rightarrow> 'j stmt \<Rightarrow> 'j sqlState \<Rightarrow> 'j sqlState \<Rightarrow> bool" where
  "runs json st s s' \<longleftrightarrow> (\<exists>i. i \<notin> set (usedIds s) \<and> run json i st s = Some s')"

text \<open>\<^verbatim>\<open>LIKE\<close>: \<^verbatim>\<open>%\<close> stands for any characters, \<^verbatim>\<open>_\<close> for one.\<close>

fun like :: "string \<Rightarrow> string \<Rightarrow> bool" where
  "like [] s = (s = [])"
| "like (p # ps) [] = (p = CHR ''%'' \<and> like ps [])"
| "like (p # ps) (x # xs) =
     (if p = CHR ''%'' then like ps (x # xs) \<or> like (p # ps) xs
      else (p = CHR ''_'' \<or> p = x) \<and> like ps xs)"

text \<open>The rows a query may answer; without \<^verbatim>\<open>ORDER BY\<close> they come in any order.\<close>

fun answers :: "query \<Rightarrow> 'j sqlState \<Rightarrow> 'j sqlval list list \<Rightarrow> bool" where
  "answers (SelectDocs t k l) s rows \<longleftrightarrow>
     (\<exists>order. mset order = mset (filter (\<lambda>(key, _). k = None \<or> k = Some key) (rowsOf s t)) \<and>
        rows = map (\<lambda>(_, txt). [SqlJson txt]) (case l of None \<Rightarrow> order | Some n \<Rightarrow> take (nat n) order))"
| "answers (SelectOptions db c) s rows \<longleftrightarrow>
     rows = (case map_of (sq_collections s) (db, c) of None \<Rightarrow> [] | Some (_, _, txt) \<Rightarrow> [[SqlJson txt]])"
| "answers (SelectId db c) s rows \<longleftrightarrow>
     rows = (case map_of (sq_collections s) (db, c) of None \<Rightarrow> [] | Some (i, _, _) \<Rightarrow> [[SqlInt i]])"
| "answers (ListCollections db name) s rows \<longleftrightarrow>
     rows = map (\<lambda>((_, c), (_, _, txt)). [SqlBytes c, SqlJson txt])
       (sort_key (\<lambda>((_, c), _). c)
         (filter (\<lambda>((d, c), _). d = db \<and> (name = None \<or> name = Some c)) (sq_collections s)))"
| "answers (SelectIndexes i) s rows \<longleftrightarrow>
     rows = map (\<lambda>((_, name), txt). [SqlText name, SqlJson txt])
       (sort_key (\<lambda>((_, name), _). name) (filter (\<lambda>((j, _), _). j = i) (sq_indexes s)))"
| "answers (ShowTables pattern) s rows \<longleftrightarrow>
     (\<exists>order. mset order = mset (filter (like pattern) (keys (sq_tables s))) \<and>
        rows = map (\<lambda>t. [SqlText t]) order)"

text \<open>A query of a document table needs the table.\<close>

fun answerable :: "query \<Rightarrow> 'j sqlState \<Rightarrow> bool" where
  "answerable (SelectDocs t _ _) s \<longleftrightarrow> map_of (sq_tables s) t \<noteq> None"
| "answerable _ s \<longleftrightarrow> True"

section \<open>The contract\<close>

text \<open>\<open>tab\<close> is what is committed, \<open>work\<close> what the open transaction sees.\<close>

locale sql_contract =
  fixes D :: "('q, 'j) sqldb"
    and json :: "'j \<Rightarrow> 'j option"
    and tab :: "'q \<Rightarrow> 'j sqlState"
    and work :: "'q \<Rightarrow> 'j sqlState"
  assumes exec_ok: "wf_stmt st \<Longrightarrow> db_exec D (render st) q = (Ok (), q') \<Longrightarrow> runs json st (tab q) (tab q')"
    and exec_err: "wf_stmt st \<Longrightarrow> db_exec D (render st) q = (Err e, q') \<Longrightarrow> tab q' = tab q \<or> runs json st (tab q) (tab q')"
    and exec_no_panic: "db_exec D sql q \<noteq> (Panic p, q')"
    and query_ok: "wf_query y \<Longrightarrow> db_query D (render_query y) q = (Ok (rows, None), q') \<Longrightarrow> answers y (tab q) rows"
    and query_tab: "wf_query y \<Longrightarrow> db_query D (render_query y) q = (answer, q') \<Longrightarrow> tab q' = tab q"
    and query_no_panic: "db_query D sql q \<noteq> (Panic p, q')"
    and begin_tab: "tx_begin D q = (r, q') \<Longrightarrow> tab q' = tab q"
    and begin_ok: "tx_begin D q = (Ok (), q') \<Longrightarrow> work q' = tab q"
    and tx_ok: "safeTable t \<Longrightarrow> tx_exec D (render (InsertDoc t k raw)) q = (Ok (), q') \<Longrightarrow> runs json (InsertDoc t k raw) (work q) (work q')"
    and tx_tab: "safeTable t \<Longrightarrow> tx_exec D (render (InsertDoc t k raw)) q = (r, q') \<Longrightarrow> tab q' = tab q"
    and commit_ok: "tx_commit D q = (Ok (), q') \<Longrightarrow> tab q' = work q"
    and commit_fails: "tx_commit D q = (r, q') \<Longrightarrow> tab q' = tab q \<or> tab q' = work q"
    and rollback_tab: "tx_rollback D q = (r, q') \<Longrightarrow> tab q' = tab q"

locale sql_reliable = sql_contract +
  assumes exec_total: "wf_stmt st \<Longrightarrow> runs json st (tab q) s' \<Longrightarrow> fst (db_exec D (render st) q) = Ok ()"
    and query_total: "wf_query y \<Longrightarrow> answerable y (tab q) \<Longrightarrow> \<exists>rows. fst (db_query D (render_query y) q) = Ok (rows, None)"

end
