(* ===== verification/Store_Contract.thy ===== *)
theory Store_Contract
  imports Backend_Types
begin

text \<open>
  What the command handlers rely on of a storage backend (\<^verbatim>\<open>backend.Store\<close>), as a locale over the
  table of operations. \<open>contents\<close> abstracts the state to the multiset of documents under each
  physical name; \<open>nsid\<close> gives the physical name of a database and a collection, which need not be
  injective; \<open>inv\<close> is the backend's own invariant. A backend states for which environments it works
  (\<open>good\<close>), which names it can store (\<open>named\<close>), which documents it gives back as they were
  (\<open>storable\<close>), and which filters it answers exactly (\<open>exact\<close>). The contract says what a find
  returns, and what each mutation does to the contents of every collection. The lemmas in the block
  are what the handlers use of it.
\<close>

locale store_contract =
  fixes ops :: "'s store_ops"
    and nsid :: "string \<Rightarrow> string \<Rightarrow> string"
    and inv :: "'s \<Rightarrow> bool"
    and contents :: "'s \<Rightarrow> string \<Rightarrow> doc multiset"
    and good :: "goenv \<Rightarrow> bool"
    and named :: "string \<Rightarrow> string \<Rightarrow> bool"
    and storable :: "doc \<Rightarrow> bool"
    and exact :: "goenv \<Rightarrow> doc multiset \<Rightarrow> doc \<Rightarrow> bool"
  assumes contents_storable: "inv s \<Longrightarrow> d \<in># contents s ns \<Longrightarrow> storable d"
    and exact_Nil: "exact E m []"
    and find_spec: "inv s \<Longrightarrow> good E \<Longrightarrow> named db c \<Longrightarrow> exact E (contents s (nsid db c)) (fr_Filter req) \<Longrightarrow>
      \<exists>found s'. mset found = filter_mset (\<lambda>d. Matches E d (fr_Filter req)) (contents s (nsid db c)) \<and>
        op_Find ops E db c req s = (Ok (ApplyFindOptions E found (findOptions req)), s') \<and>
        inv s' \<and> contents s' = contents s"
    and count_spec: "inv s \<Longrightarrow> good E \<Longrightarrow> named db c \<Longrightarrow> exact E (contents s (nsid db c)) f \<Longrightarrow>
      fst (op_Count ops E db c f s) =
        Ok (word_of_int (int (size (filter_mset (\<lambda>d. Matches E d f) (contents s (nsid db c))))))"
    and create_spec: "inv s \<Longrightarrow> named db c \<Longrightarrow> \<exists>s'. op_CreateCollection ops E db c \<lparr>cc_Validator = []\<rparr> s = (Ok (), s') \<and> inv s' \<and>
      contents s' = contents s"
    and drop_spec: "inv s \<Longrightarrow> named db c \<Longrightarrow> \<exists>s'. op_DropCollection ops E db c s = (Ok (), s') \<and> inv s' \<and>
      contents s' = (contents s)(nsid db c := {#})"
    and insert_spec: "inv s \<Longrightarrow> good E \<Longrightarrow> named db c \<Longrightarrow> \<forall>d \<in> set docs. storable d \<Longrightarrow>
      op_Insert ops E db c docs s = (Ok n, s') \<Longrightarrow>
      n = word_of_int (int (length docs)) \<and> inv s' \<and>
      contents s' = (contents s)(nsid db c := contents s (nsid db c) + mset docs)"
begin

text \<open>A find without options returns the matching documents in some order and changes no contents.\<close>

lemma find_all:
  assumes "inv s" and "good E" and "named db c" and "exact E (contents s (nsid db c)) f"
  obtains docs s' where "op_Find ops E db c (filterRequest f) s = (Ok docs, s')"
    and "mset docs = filter_mset (\<lambda>d. Matches E d f) (contents s (nsid db c))"
    and "inv s'" and "contents s' = contents s"
proof -
  from find_spec [OF assms(1-3), of "filterRequest f"] assms(4) obtain found s' where
    "mset found = filter_mset (\<lambda>d. Matches E d f) (contents s (nsid db c))"
    "op_Find ops E db c (filterRequest f) s = (Ok found, s')" "inv s'" "contents s' = contents s"
    by (auto simp: filterRequest_def findOptions_def ApplyFindOptions_all)
  with that show thesis by blast
qed

text \<open>Three finds, each in its own order, whose documents are sorted by a key without ties: two pages and their join.\<close>

lemma pages:
  assumes "inv s" and "named db c" and envs: "\<forall>i. good (Es i) \<and> alike E (Es i) \<and> exact (Es i) (contents s (nsid db c)) f"
    and "key \<noteq> ''$natural''" and page: "\<And>k n. page k n = \<lparr>fr_Filter = f, fr_Projection = p, fr_Sort = [(key, dir)], fr_Skip = k, fr_Limit = n\<rparr>"
    and values': "comparable ((\<lambda>d. fst (valueByPath d key)) ` {d. d \<in># contents s (nsid db c) \<and> Matches E d f})"
    and untied: "\<forall>x y. x \<in># contents s (nsid db c) \<and> y \<in># contents s (nsid db c) \<and> Matches E x f \<and> Matches E y f \<and>
      equal E (fst (valueByPath x key)) (fst (valueByPath y key)) \<longrightarrow> x = y"
    and bounds: "0 \<le> sint k" "0 < sint a" "0 < sint b" "sint k + sint a + sint b < 2 ^ 63"
  shows "\<exists>p1 p2 s1 s2 s3. op_Find ops (Es 0) db c (page k a) s = (Ok p1, s1) \<and> op_Find ops (Es 1) db c (page (k + a) b) s1 = (Ok p2, s2) \<and>
    op_Find ops (Es 2) db c (page k (a + b)) s2 = (Ok (p1 @ p2), s3)"
proof -
  let ?m = "filter_mset (\<lambda>d. Matches E d f) (contents s (nsid db c))"
  obtain docs where docs: "mset docs = ?m" using ex_mset by blast
  then have set: "set docs = {d. d \<in># contents s (nsid db c) \<and> Matches E d f}"
    by (metis set_mset_filter set_mset_mset)
  define cut where "cut xs = (if p \<noteq> [] then project xs p else xs)" for xs
  have find: "\<exists>t'. op_Find ops (Es i) db c (page k n) t =
      (Ok (cut (take (nat (sint n)) (drop (nat (sint k)) (sortDocs E 0 docs [(key, dir)])))), t') \<and> inv t' \<and> contents t' = contents s"
    if t: "inv t" "contents t = contents s" and "0 \<le> sint k" "0 < sint n" for i t k n
  proof -
    have E: "good (Es i)" "alike E (Es i)" "exact (Es i) (contents s (nsid db c)) f" using envs by blast+
    obtain found t' where "mset found = filter_mset (\<lambda>d. Matches (Es i) d f) (contents s (nsid db c))" and
      run: "op_Find ops (Es i) db c (page k n) t = (Ok (ApplyFindOptions (Es i) found (findOptions (page k n))), t')"
      and t': "inv t'" "contents t' = contents s"
      using find_spec [OF t(1) E(1) assms(2), of "page k n"] E(3) t(2) by (auto simp: page)
    then have "mset found = mset docs" unfolding docs Matches_alike(1) [OF E(2)] by simp
    from sorted_page [OF E(2) this assms(4), of "findOptions (page k n)" dir] values' untied that(3,4) run t' show ?thesis
      by (simp add: set page findOptions_def cut_def Let_def)
  qed
  have cut: "cut xs @ cut ys = cut (xs @ ys)" for xs ys by (simp add: cut_def project_def)
  from find [OF assms(1) refl bounds(1,2), of 0] obtain s1 where s1: "op_Find ops (Es 0) db c (page k a) s =
      (Ok (cut (take (nat (sint a)) (drop (nat (sint k)) (sortDocs E 0 docs [(key, dir)])))), s1)" "inv s1" "contents s1 = contents s" by blast
  from find [OF s1(2,3) window_append(2) [OF bounds] bounds(3), of 1] obtain s2 where s2: "op_Find ops (Es 1) db c (page (k + a) b) s1 =
      (Ok (cut (take (nat (sint b)) (drop (nat (sint (k + a))) (sortDocs E 0 docs [(key, dir)])))), s2)" "inv s2" "contents s2 = contents s" by blast
  from find [OF s2(2,3) bounds(1) window_append(3) [OF bounds], of 2] s1(1) s2(1) show ?thesis
    unfolding window_append(1) [OF bounds, symmetric] cut [symmetric] by blast
qed

text \<open>A find of one document returns one matching document, if there is any.\<close>

lemma find_one:
  assumes "inv s" and "good E" and "named db c" and "exact E (contents s (nsid db c)) f"
  obtains docs s' where "op_Find ops E db c ((filterRequest f)\<lparr>fr_Limit := 1\<rparr>) s = (Ok docs, s')"
    and "inv s'" and "contents s' = contents s"
    and "case docs of [] \<Rightarrow> filter_mset (\<lambda>d. Matches E d f) (contents s (nsid db c)) = {#}
         | d # rest \<Rightarrow> rest = [] \<and> d \<in># contents s (nsid db c) \<and> Matches E d f"
proof -
  let ?m = "filter_mset (\<lambda>d. Matches E d f) (contents s (nsid db c))"
  from find_spec [OF assms(1-3), of "(filterRequest f)\<lparr>fr_Limit := 1\<rparr>"] assms(4) obtain found s' where
    found: "mset found = ?m" and
    run: "op_Find ops E db c ((filterRequest f)\<lparr>fr_Limit := 1\<rparr>) s = (Ok (take 1 found), s')"
    and s': "inv s'" "contents s' = contents s"
    by (auto simp: filterRequest_def findOptions_def ApplyFindOptions_window Let_def)
  show thesis
  proof (rule that [OF run s'])
    show "case take 1 found of [] \<Rightarrow> ?m = {#}
        | d # rest \<Rightarrow> rest = [] \<and> d \<in># contents s (nsid db c) \<and> Matches E d f"
    proof (cases found)
      case (Cons d ds)
      then have "d \<in># ?m" using found by (metis list.set_intros(1) set_mset_mset)
      with Cons show ?thesis by simp
    qed (use found in simp)
  qed
qed

text \<open>After an insert a find returns what it returned before, and the new documents that match.\<close>

lemma insert_find:
  assumes "inv s" and "good E" and "named db c" and "\<forall>d \<in> set docs. storable d"
    and "op_Insert ops E db c docs s = (Ok n, s')"
    and "exact E (contents s (nsid db c)) f" and "exact E (contents s' (nsid db c)) f"
  shows "\<exists>old new. fst (op_Find ops E db c (filterRequest f) s) = Ok old \<and>
    fst (op_Find ops E db c (filterRequest f) s') = Ok new \<and>
    mset new = mset old + mset (filter (\<lambda>d. Matches E d f) docs)"
proof -
  from insert_spec [OF assms(1-5)] have s': "inv s'"
    "contents s' (nsid db c) = contents s (nsid db c) + mset docs" by auto
  obtain old t where "op_Find ops E db c (filterRequest f) s = (Ok old, t)"
    "mset old = filter_mset (\<lambda>d. Matches E d f) (contents s (nsid db c))"
    by (rule find_all [OF assms(1-3,6)])
  moreover obtain new t' where "op_Find ops E db c (filterRequest f) s' = (Ok new, t')"
    "mset new = filter_mset (\<lambda>d. Matches E d f) (contents s' (nsid db c))"
    by (rule find_all [OF s'(1) assms(2,3,7)])
  ultimately show ?thesis using s'(2) by simp
qed

end

text \<open>The contract extended by deletion of at most one document, which \<^verbatim>\<open>findAndModify\<close> uses.\<close>

locale store_delete_contract = store_contract +
  assumes delete_one_spec: "inv s \<Longrightarrow> good E \<Longrightarrow> named db c \<Longrightarrow>
      \<exists>n s'. op_Delete ops E db c [\<lparr>dm_Filter = f, dm_Limit = 1\<rparr>] s = (Ok n, s') \<and> inv s' \<and>
        (if filter_mset (\<lambda>d. Matches E d f) (contents s (nsid db c)) = {#}
           then n = 0 \<and> contents s' = contents s
         else n = 1 \<and> (\<exists>d. d \<in># contents s (nsid db c) \<and> Matches E d f \<and>
           contents s' = (contents s)(nsid db c := contents s (nsid db c) - {#d#})))"

end
