(* ===== verification/Tidb_Spec.thy ===== *)
theory Tidb_Spec
  imports Tidb_Store Sql_Contract Store_Contract
begin

text \<open>
  The TiDB backend over a database that keeps \<open>Sql_Contract\<close>. First what holds although any statement
  may fail; then, over a reliable database, that the backend satisfies \<open>Store_Contract\<close> for the names
  the database can hold, the documents that come back from Extended JSON as they were, and the
  filters that are either not pushed down or mean the same to the database.
\<close>

section \<open>The query of a find\<close>

definition limitOf :: "FindRequest \<Rightarrow> int option" where
  "limitOf req = (if 0 < sint (fr_Limit req) then Some (sint (fr_Limit req)) else None)"

lemma canPushDownFilter_iff:
  "canPushDownFilter f \<longleftrightarrow> f = [] \<or> (\<exists>v. f = [(''_id'', v)] \<and> \<not> isDocument v)"
  by (cases f; cases "tl f") (auto simp: canPushDownFilter_def)

lemma BuildFindSQL_eq:
  "BuildFindSQL E db c req =
    (let t = PhysicalTableName db c
     in if \<not> canPushDownFind req then Ok (render_query (SelectDocs t None None))
        else if fr_Filter req = [] then Ok (render_query (SelectDocs t None (limitOf req)))
        else mapR (\<lambda>key. render_query (SelectDocs t (Some key) (limitOf req))) (ValueKey E (snd (hd (fr_Filter req)))))"
proof (cases "canPushDownFind req")
  case True
  then consider "fr_Filter req = []" | v where "fr_Filter req = [(''_id'', v)]"
    by (auto simp: canPushDownFind_def canPushDownFilter_iff)
  then show ?thesis
  proof cases
    case 2
    with True show ?thesis
      by (cases "ValueKey E v") (simp_all add: BuildFindSQL_def pushCondition_def limitOf_def Let_def selectDocsSQL_def)
  qed (use True in \<open>simp add: BuildFindSQL_def limitOf_def Let_def selectDocsSQL_def\<close>)
qed (simp add: BuildFindSQL_def selectDocsSQL_def)

section \<open>Rows\<close>

lemma rowsOf_setRows [simp]: "rowsOf (setRows t rows s) t' = (if t' = t then rows else rowsOf s t')"
  by (simp add: rowsOf_def setRows_def map_simps)

lemma tables_setRows [simp]: "map_of (sq_tables (setRows t rows s)) t' = (if t' = t then Some rows else map_of (sq_tables s) t')"
  by (simp add: setRows_def map_simps)

lemma collections_setRows [simp]: "sq_collections (setRows t rows s) = sq_collections s"
  by (simp add: setRows_def)

lemma rowsOf_Some: "map_of (sq_tables s) t = Some rows \<Longrightarrow> rowsOf s t = rows"
  by (simp add: rowsOf_def)

text \<open>The text under which a document is stored, and the documents that come back as they were.\<close>

definition stored :: "'j extjson \<Rightarrow> ('j \<Rightarrow> 'j option) \<Rightarrow> doc \<Rightarrow> 'j \<Rightarrow> bool" where
  "stored X json d txt \<longleftrightarrow> (\<exists>raw. MarshalExtJSON X d = Ok raw \<and> json raw = Some txt)"

definition storable :: "'j extjson \<Rightarrow> ('j \<Rightarrow> 'j option) \<Rightarrow> doc \<Rightarrow> bool" where
  "storable X json d \<longleftrightarrow> (\<exists>txt. stored X json d txt \<and> UnmarshalExtJSON X txt = Ok d)"

lemma stored_storable: "stored X json d txt \<Longrightarrow> storable X json d \<Longrightarrow> UnmarshalExtJSON X txt = Ok d"
  by (auto simp: stored_def storable_def)

definition docOf :: "'j extjson \<Rightarrow> 'j \<Rightarrow> doc" where
  "docOf X txt = (case UnmarshalExtJSON X txt of Ok d \<Rightarrow> d | _ \<Rightarrow> [])"

section \<open>The course of an insert\<close>

text \<open>Where an insert can end.\<close>

lemma insert_cases:
  assumes "tidb_Insert D X E db c docs q = (r, q')"
  obtains
    (create) r1 where "tidb_CreateCollection D X E db c \<lparr>cc_Validator = []\<rparr> q = (r1, q')" "\<not> is_Ok r"
  | (validator) q1 r2 where "tidb_CreateCollection D X E db c \<lparr>cc_Validator = []\<rparr> q = (Ok (), q1)"
      "tidb_collectionValidator D X db c q1 = (r2, q')" "\<not> is_Ok r"
  | (transaction) q1 v q2 r3 where "tidb_CreateCollection D X E db c \<lparr>cc_Validator = []\<rparr> q = (Ok (), q1)"
      "tidb_collectionValidator D X db c q1 = (Ok v, q2)" "tx_begin D q2 = (r3, q')" "\<not> is_Ok r"
  | (row) q1 v q2 q3 r4 q4 r5 where "tidb_CreateCollection D X E db c \<lparr>cc_Validator = []\<rparr> q = (Ok (), q1)"
      "tidb_collectionValidator D X db c q1 = (Ok v, q2)" "tx_begin D q2 = (Ok (), q3)"
      "foldS (insertRow D X E (PhysicalTableName db c) v) docs q3 = (r4, q4)" "r4 \<noteq> Ok ()" "tx_rollback D q4 = (r5, q')" "\<not> is_Ok r"
  | (commit) q1 v q2 q3 q4 r5 where "tidb_CreateCollection D X E db c \<lparr>cc_Validator = []\<rparr> q = (Ok (), q1)"
      "tidb_collectionValidator D X db c q1 = (Ok v, q2)" "tx_begin D q2 = (Ok (), q3)"
      "foldS (insertRow D X E (PhysicalTableName db c) v) docs q3 = (Ok (), q4)" "tx_commit D q4 = (r5, q')" "is_Ok r \<longleftrightarrow> r5 = Ok ()"
proof -
  obtain r1 q1 where e1: "tidb_CreateCollection D X E db c \<lparr>cc_Validator = []\<rparr> q = (r1, q1)" by fastforce
  obtain r2 q2 where e2: "tidb_collectionValidator D X db c q1 = (r2, q2)" by fastforce
  obtain r3 q3 where e3: "tx_begin D q2 = (r3, q3)" by fastforce
  show thesis
  proof (cases "r1 = Ok () \<and> is_Ok r2 \<and> r3 = Ok ()")
    case False
    with assms e1 e2 e3 show thesis
      by (cases r1; cases r2; cases r3)
        (auto simp: tidb_Insert_def Let_def bindS_def intro: create validator transaction)
  next
    case True
    then obtain v where ok: "r1 = Ok ()" "r2 = Ok v" "r3 = Ok ()" by (auto simp: is_Ok_iff)
    obtain r4 q4 where e4: "foldS (insertRow D X E (PhysicalTableName db c) v) docs q3 = (r4, q4)" by fastforce
    obtain r5 q5 where e5: "tx_rollback D q4 = (r5, q5)" by fastforce
    obtain r6 q6 where e6: "tx_commit D q4 = (r6, q6)" by fastforce
    have run: "(r, q') = (case r4 of Ok _ \<Rightarrow> (mapR (\<lambda>_. word_of_int (int (length docs))) r6, q6)
        | Err e \<Rightarrow> (Err e, q5) | Panic p \<Rightarrow> (Panic p, q5))"
      unfolding assms [symmetric] using e1 e2 e3 e4 e5 e6 ok
      by (cases r4; cases r6) (simp_all add: tidb_Insert_def Let_def bindS_def withRollback_def returnS_def)
    show thesis
    proof (cases "r4 = Ok ()")
      case True
      with run have "q' = q6" "is_Ok r \<longleftrightarrow> r6 = Ok ()" by (auto simp: is_Ok_iff mapR_eq_Ok)
      with e1 e2 e3 e4 e6 ok True show thesis by (intro commit) simp_all
    next
      case False
      with run have "q' = q5" "\<not> is_Ok r" by (cases r4; simp)+
      with e1 e2 e3 e4 e5 ok False show thesis by (intro row) simp_all
    qed
  qed
qed

section \<open>What survives failing statements\<close>

context sql_contract
begin

lemma exec_cases:
  assumes "db_exec D (render st) q = (r, q')" and "wf_stmt st"
  obtains "r = Ok ()" "runs json st (tab q) (tab q')"
  | e where "r = Err e" "tab q' = tab q"
  | e where "r = Err e" "runs json st (tab q) (tab q')"
proof (cases r)
  case (Ok u)
  with assms exec_ok that(1) show thesis by simp
next
  case (Err e)
  with assms exec_err [of st q e q'] that(2,3) show thesis by blast
next
  case (Panic p)
  with assms exec_no_panic show thesis by blast
qed

lemma queryRow_tab: "wf_query y \<Longrightarrow> queryRow D (render_query y) f q = (r, q') \<Longrightarrow> tab q' = tab q"
  by (auto simp: queryRow_def bindS_def liftS_def dest: query_tab split: prod.splits res.splits)

lemma options_tab: "tidb_collectionOptions D X db c q = (r, q') \<Longrightarrow> tab q' = tab q"
  using queryRow_tab [of "SelectOptions db c"]
  by (fastforce simp: tidb_collectionOptions_def bindS_def liftS_def returnS_def split: prod.splits res.splits option.splits)

lemma validator_tab: "tidb_collectionValidator D X db c q = (r, q') \<Longrightarrow> tab q' = tab q"
  using options_tab [of X db c]
  by (fastforce simp: tidb_collectionValidator_def bindS_def returnS_def split: prod.splits res.splits)

lemma runs_CreateTable_rows: "runs json (CreateTable t) s s' \<Longrightarrow> rowsOf s' = rowsOf s \<and> map_of (sq_tables s') t \<noteq> None"
  by (auto simp: runs_def rowsOf_def setRows_def map_simps fun_eq_iff split: if_splits)

lemma runs_Upsert_rows: "runs json (UpsertCollection db c t raw) s s' \<Longrightarrow> sq_tables s' = sq_tables s"
  by (auto simp: runs_def Let_def split: if_splits option.splits)

lemma runs_CreateTable_collections: "runs json (CreateTable t) s s' \<Longrightarrow> sq_collections s' = sq_collections s"
  by (auto simp: runs_def setRows_def split: if_splits)

lemma runs_Upsert:
  "runs json (UpsertCollection db c t raw) s s' \<Longrightarrow> json raw = Some j \<Longrightarrow>
    \<exists>i. s' = s\<lparr>sq_collections := put (db, c) (i, t, j) (sq_collections s)\<rparr>"
  by (auto simp: runs_def Let_def split: if_splits)

text \<open>Creating a collection leaves every document alone, and afterwards its table exists.\<close>

lemma create_rows:
  assumes "tidb_CreateCollection D X E db c opts q = (r, q')"
  shows "rowsOf (tab q') = rowsOf (tab q) \<and>
    (r = Ok () \<longrightarrow> map_of (sq_tables (tab q')) (PhysicalTableName db c) \<noteq> None)"
proof -
  let ?t = "PhysicalTableName db c"
  obtain r1 q1 where e1: "db_exec D (render (CreateTable ?t)) q = (r1, q1)" by fastforce
  then have q1: "rowsOf (tab q1) = rowsOf (tab q) \<and> (r1 = Ok () \<longrightarrow> map_of (sq_tables (tab q1)) ?t \<noteq> None)"
    by (cases rule: exec_cases) (auto dest: runs_CreateTable_rows)
  show ?thesis
  proof (cases "r1 = Ok ()")
    case False
    with assms e1 q1 show ?thesis
      by (auto simp: tidb_CreateCollection_def tidb_ensureCollection_def Let_def bindS_def split: res.splits)
  next
    case True
    obtain r2 q2 where e2: "tidb_collectionOptions D X db c q1 = (r2, q2)" by fastforce
    then have q2: "tab q2 = tab q1" by (rule options_tab)
    have last: "rowsOf (tab q4) = rowsOf (tab q2) \<and> sq_tables (tab q4) = sq_tables (tab q2)"
      if "db_exec D (upsertCollectionSQL db c ?t raw) q2 = (r4, q4)" for raw r4 q4
    proof -
      from that have "db_exec D (render (UpsertCollection db c ?t raw)) q2 = (r4, q4)" by simp
      then have "sq_tables (tab q4) = sq_tables (tab q2)"
        by (cases rule: exec_cases) (simp_all add: runs_Upsert_rows)
      then show ?thesis by (simp add: rowsOf_def fun_eq_iff)
    qed
    let ?put = "\<lambda>existing. MarshalExtJSON X (mergedOptions existing opts)"
    have run: "(r, q') = (case r2 of Err e \<Rightarrow> (Err e, q2) | Panic p \<Rightarrow> (Panic p, q2)
      | Ok existing \<Rightarrow> (case ?put existing of Err e \<Rightarrow> (Err e, q2) | Panic p \<Rightarrow> (Panic p, q2)
          | Ok raw \<Rightarrow> db_exec D (upsertCollectionSQL db c ?t raw) q2))"
      unfolding assms [symmetric] using e1 e2 True
      by (cases r2)
        (simp_all add: tidb_CreateCollection_def tidb_ensureCollection_def Let_def bindS_def liftS_def split: res.split)
    have "rowsOf (tab q') = rowsOf (tab q2) \<and> sq_tables (tab q') = sq_tables (tab q2)"
    proof (cases r2)
      case (Ok existing)
      show ?thesis
      proof (cases "?put existing")
        case (Ok raw)
        with run \<open>r2 = Ok existing\<close> last [of raw r q'] show ?thesis by simp
      qed (use run Ok in auto)
    qed (use run in auto)
    with q1 q2 True show ?thesis by simp
  qed
qed

text \<open>The loop of an insert: what is committed stays, and the transaction sees the new rows.\<close>

lemma insertRow_Ok:
  assumes "insertRow D X E t v d q = (Ok (), q')" and "safeTable t"
  obtains k js rows where "DocumentIDKey E d = Ok k" "stored X json d js"
    "map_of (sq_tables (work q)) t = Some rows" "map_of rows k = None" "work q' = setRows t (put k js rows) (work q)"
proof -
  from assms obtain k raw where k: "DocumentIDKey E d = Ok k" "MarshalExtJSON X d = Ok raw"
    and "tx_exec D (render (InsertDoc t k raw)) q = (Ok (), q')"
    by (auto simp: insertRow_def bindS_Ok liftS_def)
  from tx_ok [OF assms(2) this(3)] k that show thesis
    by (auto simp: runs_def stored_def split: option.splits if_splits)
qed

lemma insertRow_tab: "safeTable t \<Longrightarrow> insertRow D X E t v d q = (r, q') \<Longrightarrow> tab q' = tab q"
  using tx_tab by (auto simp: insertRow_def bindS_def liftS_def split: res.splits prod.splits)

lemma insertRows_tab: "safeTable t \<Longrightarrow> foldS (insertRow D X E t v) docs q = (r, q') \<Longrightarrow> tab q' = tab q"
  using snd_foldS_invariant [of "\<lambda>q'. tab q' = tab q" q docs "insertRow D X E t v"] insertRow_tab
  by (metis prod.collapse snd_conv)

lemma insertRows_Ok:
  assumes "foldS (insertRow D X E t v) docs q = (Ok (), q')" and t: "safeTable t"
  shows "\<exists>ks txts. map (DocumentIDKey E) docs = map Ok ks \<and> distinct ks \<and> set ks \<inter> set (keys (rowsOf (work q) t)) = {} \<and>
    list_all2 (stored X json) docs txts \<and> rowsOf (work q') t = rowsOf (work q) t @ zip ks txts \<and>
    (\<forall>t'. t' \<noteq> t \<longrightarrow> rowsOf (work q') t' = rowsOf (work q) t') \<and> sq_collections (work q') = sq_collections (work q)"
  using assms(1)
proof (induction docs arbitrary: q)
  case (Cons d docs)
  from Cons.prems obtain q1 where run: "insertRow D X E t v d q = (Ok (), q1)"
    and rest: "foldS (insertRow D X E t v) docs q1 = (Ok (), q')" by (auto simp: bindS_Ok)
  from run t obtain k js rows where k: "DocumentIDKey E d = Ok k" "stored X json d js"
    "map_of (sq_tables (work q)) t = Some rows" "map_of rows k = None" "work q1 = setRows t (put k js rows) (work q)"
    by (rule insertRow_Ok)
  have rows: "rowsOf (work q) t = rows" "put k js rows = rows @ [(k, js)]"
    using k(3,4) by (auto simp: rowsOf_Some put_new map_of_eq_None_iff)
  from Cons.IH [OF rest] obtain ks txts where
    "map (DocumentIDKey E) docs = map Ok ks" "distinct ks" "set ks \<inter> set (keys (rowsOf (work q1) t)) = {}"
    "list_all2 (stored X json) docs txts" "rowsOf (work q') t = rowsOf (work q1) t @ zip ks txts"
    "\<forall>t'. t' \<noteq> t \<longrightarrow> rowsOf (work q') t' = rowsOf (work q1) t'" "sq_collections (work q') = sq_collections (work q1)"
    by blast
  with k rows show ?case
    by (intro exI [of _ "k # ks"] exI [of _ "js # txts"]) (auto simp: map_of_eq_None_iff)
qed (auto intro: exI [of _ "[]"])

text \<open>An insert is one step: it stores all its documents or none, whatever fails on the way.\<close>

lemma insert_atomic:
  assumes "tidb_Insert D X E db c docs q = (r, q')"
  shows "(\<forall>t. t \<noteq> PhysicalTableName db c \<longrightarrow> rowsOf (tab q') t = rowsOf (tab q) t) \<and>
    (rowsOf (tab q') (PhysicalTableName db c) = rowsOf (tab q) (PhysicalTableName db c) \<and> (is_Ok r \<longrightarrow> docs = []) \<or>
     (\<exists>ks txts. map (DocumentIDKey E) docs = map Ok ks \<and> distinct ks \<and>
        set ks \<inter> set (keys (rowsOf (tab q) (PhysicalTableName db c))) = {} \<and> list_all2 (stored X json) docs txts \<and>
        rowsOf (tab q') (PhysicalTableName db c) = rowsOf (tab q) (PhysicalTableName db c) @ zip ks txts))"
    (is "?others q' \<and> (?same q' \<and> _ \<or> ?all q')")
  using assms
proof (cases rule: insert_cases)
  case (create r1)
  with create_rows show ?thesis by metis
next
  case (validator q1 r2)
  with create_rows validator_tab show ?thesis by metis
next
  case (transaction q1 v q2 r3)
  with create_rows validator_tab begin_tab show ?thesis by metis
next
  case (row q1 v q2 q3 r4 q4 r5)
  have "tab q' = tab q3" using rollback_tab [OF row(6)] insertRows_tab [OF safeTable_Physical row(4)] by simp
  with row create_rows validator_tab begin_tab show ?thesis by metis
next
  case (commit q1 v q2 q3 q4 r5)
  have q3: "rowsOf (tab q3) = rowsOf (tab q)" "rowsOf (work q3) = rowsOf (tab q)"
    using create_rows [OF commit(1)] validator_tab [OF commit(2)] begin_tab [OF commit(3)] begin_ok [OF commit(3)] by simp_all
  have q4: "tab q4 = tab q3" by (rule insertRows_tab [OF safeTable_Physical commit(4)])
  show ?thesis
  proof (cases "tab q' = work q4")
    case True
    with insertRows_Ok [OF commit(4) safeTable_Physical] show ?thesis unfolding q3 by auto
  next
    case False
    with commit_fails [OF commit(5)] commit_ok commit(5) have "tab q' = tab q4" "r5 \<noteq> Ok ()" by auto
    with commit(6) q3 q4 show ?thesis by simp
  qed
qed

end

section \<open>The invariant and the contents\<close>

text \<open>Every row holds a document that comes back as it was, under its own key; so do the options.\<close>

definition rows_ok :: "'j extjson \<Rightarrow> ('j \<Rightarrow> 'j option) \<Rightarrow> (string \<Rightarrow> string) \<Rightarrow> (string \<times> 'j) list \<Rightarrow> bool" where
  "rows_ok X json hex rows \<longleftrightarrow> distinct (keys rows) \<and>
     (\<forall>(k, j) \<in> set rows. \<exists>d. UnmarshalExtJSON X j = Ok d \<and> storable X json d \<and> idKey hex d = Ok k)"

definition tidb_inv :: "'j extjson \<Rightarrow> ('j \<Rightarrow> 'j option) \<Rightarrow> (string \<Rightarrow> string) \<Rightarrow> 'j sqlState \<Rightarrow> bool" where
  "tidb_inv X json hex s \<longleftrightarrow> (\<forall>t. rows_ok X json hex (rowsOf s t)) \<and>
     (\<forall>ns i t j. map_of (sq_collections s) ns = Some (i, t, j) \<longrightarrow>
        (\<exists>opts. UnmarshalExtJSON X j = Ok opts \<and> storable X json opts))"

definition tidb_contents :: "'j extjson \<Rightarrow> 'j sqlState \<Rightarrow> string \<Rightarrow> doc multiset" where
  "tidb_contents X s t = mset (map (docOf X \<circ> snd) (rowsOf s t))"

text \<open>The names the database can hold, and the filters that mean the same to it.\<close>

definition nameable :: "string \<Rightarrow> string \<Rightarrow> bool" where
  "nameable db c \<longleftrightarrow> length (PhysicalTableName db c) \<le> 64 \<and> length db \<le> 256 \<and> length c \<le> 256"

definition tidb_exact :: "goenv \<Rightarrow> doc multiset \<Rightarrow> doc \<Rightarrow> bool" where
  "tidb_exact E m f \<longleftrightarrow> (canPushDownFilter f \<longrightarrow> f \<noteq> [] \<longrightarrow>
     (\<exists>k. ValueKey E (snd (hd f)) = Ok k \<and> (\<forall>d. d \<in># m \<longrightarrow> (Matches E d f \<longleftrightarrow> DocumentIDKey E d = Ok k))))"

lemma inv_cong:
  "tidb_inv X json hex s \<Longrightarrow> rowsOf s' = rowsOf s \<Longrightarrow> sq_collections s' = sq_collections s \<Longrightarrow> tidb_inv X json hex s'"
  by (simp add: tidb_inv_def)

lemma contents_cong: "rowsOf s' = rowsOf s \<Longrightarrow> tidb_contents X s' = tidb_contents X s"
  by (simp add: tidb_contents_def fun_eq_iff)

lemma inv_setRows:
  "tidb_inv X json hex s \<Longrightarrow> rows_ok X json hex rows \<Longrightarrow> tidb_inv X json hex (setRows t rows s)"
  by (simp add: tidb_inv_def)

lemma rows_ok_D:
  "rows_ok X json hex rows \<Longrightarrow> (k, j) \<in> set rows \<Longrightarrow>
    UnmarshalExtJSON X j = Ok (docOf X j) \<and> storable X json (docOf X j) \<and> idKey hex (docOf X j) = Ok k"
  by (fastforce simp: rows_ok_def docOf_def)

lemma rows_ok_Nil [simp]: "rows_ok X json hex []"
  by (simp add: rows_ok_def)

lemma rows_ok_append:
  "rows_ok X json hex rows \<Longrightarrow> rows_ok X json hex rows' \<Longrightarrow> set (keys rows) \<inter> set (keys rows') = {} \<Longrightarrow>
    rows_ok X json hex (rows @ rows')"
  by (auto simp: rows_ok_def)

lemma rows_ok_del: "rows_ok X json hex rows \<Longrightarrow> rows_ok X json hex (del k rows)"
  by (auto simp: rows_ok_def AList.delete_eq distinct_map_filter split: prod.splits)

section \<open>The contract, over a reliable database\<close>

locale tidb_backend = sql_reliable D json tab work
  for D :: "('q, 'j) sqldb" and json :: "'j \<Rightarrow> 'j option"
    and tab :: "'q \<Rightarrow> 'j sqlState" and work :: "'q \<Rightarrow> 'j sqlState" +
  fixes X :: "'j extjson" and hex :: "string \<Rightarrow> string"
  assumes storable_Nil: "storable X json []"
begin

lemma execute:
  assumes "wf_stmt st" and "\<And>i. run json i st (tab q) \<noteq> None"
  obtains q' where "db_exec D (render st) q = (Ok (), q')" and "runs json st (tab q) (tab q')"
proof -
  obtain i where "i \<notin> set (usedIds (tab q))" using ex_new_if_finite [OF infinite_UNIV_int] by blast
  with assms(2) [of i] obtain s' where "runs json st (tab q) s'" by (auto simp: runs_def)
  from exec_total [OF assms(1) this] obtain q' where "db_exec D (render st) q = (Ok (), q')" by (metis prod.collapse)
  with exec_ok [OF assms(1)] that show thesis by blast
qed

lemma ask:
  assumes "wf_query y" and "answerable y (tab q)"
  obtains rows q' where "db_query D (render_query y) q = (Ok (rows, None), q')"
    and "answers y (tab q) rows" and "tab q' = tab q"
proof -
  from query_total [OF assms] obtain rows q' where run: "db_query D (render_query y) q = (Ok (rows, None), q')"
    by (metis prod.collapse)
  with query_ok [OF assms(1) run] query_tab [OF assms(1) run] that show thesis by blast
qed

lemma ensure:
  assumes "nameable db c"
  obtains q' where "tidb_ensureCollection D (PhysicalTableName db c) q = (Ok (), q')"
    and "rowsOf (tab q') = rowsOf (tab q)" and "sq_collections (tab q') = sq_collections (tab q)"
    and "map_of (sq_tables (tab q')) (PhysicalTableName db c) \<noteq> None"
proof -
  let ?st = "CreateTable (PhysicalTableName db c)"
  obtain q' where q': "db_exec D (render ?st) q = (Ok (), q')" "runs json ?st (tab q) (tab q')"
    by (rule execute [of ?st q]) (use assms in \<open>auto simp: nameable_def\<close>)
  then have "sq_collections (tab q') = sq_collections (tab q)" by (blast intro: runs_CreateTable_collections)
  with q' runs_CreateTable_rows [OF q'(2)] that show thesis by (simp add: tidb_ensureCollection_def)
qed

lemma options_total:
  assumes "tidb_inv X json hex (tab q)"
  obtains opts q' where "tidb_collectionOptions D X db c q = (Ok opts, q')" and "tab q' = tab q"
    and "storable X json (optionsOrEmpty opts)"
proof -
  obtain rows q' where q': "db_query D (render_query (SelectOptions db c)) q = (Ok (rows, None), q')"
    "answers (SelectOptions db c) (tab q) rows" "tab q' = tab q"
    by (rule ask [of "SelectOptions db c" q]) (simp_all only: answerable.simps wf_query.simps)
  show thesis
  proof (cases "map_of (sq_collections (tab q)) (db, c)")
    case None
    with q' that [of None q'] show thesis
      by (simp add: tidb_collectionOptions_def queryRow_def bindS_def liftS_def returnS_def optionsOrEmpty_def storable_Nil)
  next
    case (Some e)
    then obtain i t j where e: "map_of (sq_collections (tab q)) (db, c) = Some (i, t, j)" by (cases e) auto
    with assms obtain opts where "UnmarshalExtJSON X j = Ok opts" "storable X json opts"
      unfolding tidb_inv_def by blast
    with e q' that [of "Some opts" q'] show thesis
      by (simp add: tidb_collectionOptions_def queryRow_def bindS_def liftS_def optionsOrEmpty_def)
  qed
qed

lemma create_total:
  assumes inv: "tidb_inv X json hex (tab q)" and "nameable db c"
  obtains q' where "tidb_CreateCollection D X E db c \<lparr>cc_Validator = []\<rparr> q = (Ok (), q')"
    and "tidb_inv X json hex (tab q')" and "rowsOf (tab q') = rowsOf (tab q)"
    and "map_of (sq_tables (tab q')) (PhysicalTableName db c) \<noteq> None"
proof -
  let ?t = "PhysicalTableName db c"
  obtain q1 where q1: "tidb_ensureCollection D ?t q = (Ok (), q1)" "rowsOf (tab q1) = rowsOf (tab q)"
    "sq_collections (tab q1) = sq_collections (tab q)" "map_of (sq_tables (tab q1)) ?t \<noteq> None"
    by (rule ensure [OF assms(2)])
  have inv1: "tidb_inv X json hex (tab q1)" by (rule inv_cong [OF inv q1(2,3)])
  obtain opts q2 where q2: "tidb_collectionOptions D X db c q1 = (Ok opts, q2)" "tab q2 = tab q1"
    "storable X json (optionsOrEmpty opts)" by (rule options_total [OF inv1])
  then obtain raw j where raw: "MarshalExtJSON X (optionsOrEmpty opts) = Ok raw" "json raw = Some j"
    and j: "UnmarshalExtJSON X j = Ok (optionsOrEmpty opts)" by (auto simp: storable_def stored_def)
  let ?st = "UpsertCollection db c ?t raw"
  obtain q3 where q3: "db_exec D (render ?st) q2 = (Ok (), q3)" "runs json ?st (tab q2) (tab q3)"
    by (rule execute [of ?st q2]) (use assms(2) raw in \<open>auto simp: nameable_def Let_def\<close>)
  from runs_Upsert [OF q3(2) raw(2)] obtain i where
    q3': "tab q3 = (tab q2)\<lparr>sq_collections := put (db, c) (i, ?t, j) (sq_collections (tab q2))\<rparr>" by blast
  have "rowsOf (tab q3) = rowsOf (tab q)" by (simp add: q3' q2(2) rowsOf_def fun_eq_iff q1(2) [symmetric])
  moreover have "map_of (sq_tables (tab q3)) ?t \<noteq> None" using q1(4) by (simp add: q3' q2(2))
  moreover have "tidb_inv X json hex (tab q3)"
    using inv1 j q2(3) \<open>rowsOf (tab q3) = rowsOf (tab q)\<close> q1(2) by (auto simp: tidb_inv_def q3' q2(2) map_simps)
  moreover have "tidb_CreateCollection D X E db c \<lparr>cc_Validator = []\<rparr> q = (Ok (), q3)"
    using q1(1) q2(1) q3(1) raw(1) by (simp add: tidb_CreateCollection_def Let_def bindS_simps mergedOptions_def liftS_def)
  ultimately show thesis using that by blast
qed

text \<open>A find keeps the matching documents of the rows it was given.\<close>

lemma matchRows:
  assumes "\<forall>(k, j) \<in> set order. \<exists>d. UnmarshalExtJSON X j = Ok d"
  shows "foldR (matchRow X E f) (map (\<lambda>(_, j). [SqlJson j]) order) acc =
    Ok (acc @ filter (\<lambda>d. Matches E d f) (map (docOf X \<circ> snd) order))"
  using assms
proof (induction order arbitrary: acc)
  case (Cons e order)
  obtain k j where e: "e = (k, j)" by (cases e)
  with Cons.prems obtain d where d: "UnmarshalExtJSON X j = Ok d" by auto
  then have "docOf X j = d" by (simp add: docOf_def)
  with Cons d show ?case by (simp add: e matchRow_def)
qed simp

lemma select:
  assumes "tidb_inv X json hex (tab q)" and "map_of (sq_tables (tab q)) t \<noteq> None" and "safeTable t"
  obtains order q' where "mset order = mset (filter (\<lambda>(key, _). k = None \<or> k = Some key) (rowsOf (tab q) t))"
    and "bindS (db_query D (selectDocsSQL t k l)) (\<lambda>rows. liftS (eachRow (matchRow X E f) rows [])) q =
      (Ok (filter (\<lambda>d. Matches E d f) (map (docOf X \<circ> snd) (case l of None \<Rightarrow> order | Some n \<Rightarrow> take (nat n) order))), q')"
    and "tab q' = tab q"
proof -
  obtain rows q' where q': "db_query D (render_query (SelectDocs t k l)) q = (Ok (rows, None), q')"
    and ans: "answers (SelectDocs t k l) (tab q) rows" and tab: "tab q' = tab q"
    by (rule ask [of "SelectDocs t k l" q]) (use assms(2,3) in simp_all)
  from ans obtain order where order: "mset order = mset (filter (\<lambda>(key, _). k = None \<or> k = Some key) (rowsOf (tab q) t))"
    and rows: "rows = map (\<lambda>(_, j). [SqlJson j]) (case l of None \<Rightarrow> order | Some n \<Rightarrow> take (nat n) order)"
    by auto
  have "set order \<subseteq> set (rowsOf (tab q) t)" using mset_eq_setD [OF order] by auto
  then have "\<forall>(k, j) \<in> set order. \<exists>d. UnmarshalExtJSON X j = Ok d"
    using assms(1) unfolding tidb_inv_def rows_ok_def by fast
  then have "\<forall>(k, j) \<in> set (case l of None \<Rightarrow> order | Some n \<Rightarrow> take (nat n) order). \<exists>d. UnmarshalExtJSON X j = Ok d"
    by (auto split: option.split dest: in_set_takeD)
  from matchRows [OF this] q' have "bindS (db_query D (selectDocsSQL t k l)) (\<lambda>rows. liftS (eachRow (matchRow X E f) rows [])) q =
      (Ok (filter (\<lambda>d. Matches E d f) (map (docOf X \<circ> snd) (case l of None \<Rightarrow> order | Some n \<Rightarrow> take (nat n) order))), q')"
    by (simp add: bindS_simps liftS_def eachRow_def rows)
  with order tab that show thesis by blast
qed

end

text \<open>The rows selected by a key, or by a condition on their documents.\<close>

lemma row_key:
  assumes "tidb_inv X json hex s" and "env_oid_hex E = hex" and "(key, j) \<in> set (rowsOf s t)"
  shows "DocumentIDKey E (docOf X j) = Ok key"
  using assms rows_ok_D [of X json hex "rowsOf s t" key j] by (simp add: tidb_inv_def DocumentIDKey_idKey)

lemma rows_of_key:
  assumes "tidb_inv X json hex s" and "env_oid_hex E = hex"
  shows "filter (\<lambda>(key, _). Some k = None \<or> Some k = Some key) (rowsOf s t) =
    filter ((\<lambda>d. DocumentIDKey E d = Ok k) \<circ> (docOf X \<circ> snd)) (rowsOf s t)"
proof (rule filter_cong [OF refl])
  fix e assume "e \<in> set (rowsOf s t)"
  with row_key [OF assms, of "fst e" "snd e" t] have "DocumentIDKey E (docOf X (snd e)) = Ok (fst e)" by simp
  then show "(case e of (key, _) \<Rightarrow> Some k = None \<or> Some k = Some key) = ((\<lambda>d. DocumentIDKey E d = Ok k) \<circ> (docOf X \<circ> snd)) e"
    by (auto simp: case_prod_beta)
qed

lemma contents_selected:
  assumes "mset order = mset (filter (P \<circ> (docOf X \<circ> snd)) (rowsOf s t))"
  shows "mset (map (docOf X \<circ> snd) order) = filter_mset P (tidb_contents X s t)"
proof -
  have "mset (map (docOf X \<circ> snd) order) = image_mset (docOf X \<circ> snd) (mset order)" by (simp only: mset_map)
  also have "\<dots> = mset (filter P (map (docOf X \<circ> snd) (rowsOf s t)))" unfolding assms filter_map by (simp only: mset_map)
  finally show ?thesis by (simp only: tidb_contents_def mset_filter)
qed

text \<open>A filter that is pushed down selects the rows whose documents it matches.\<close>

lemma rows_of_filter:
  assumes "tidb_inv X json hex s" and "env_oid_hex E = hex" and "tidb_exact E (tidb_contents X s t) f" and "canPushDownFilter f"
  obtains k where "k = None \<longleftrightarrow> f = []" and "f \<noteq> [] \<longrightarrow> ValueKey E (snd (hd f)) = Ok (the k)"
    and "filter (\<lambda>(key, _). k = None \<or> k = Some key) (rowsOf s t) = filter ((\<lambda>d. Matches E d f) \<circ> (docOf X \<circ> snd)) (rowsOf s t)"
proof (cases "f = []")
  case True
  then show thesis by (intro that [of None]) simp_all
next
  case False
  with assms(3,4) obtain k where k: "ValueKey E (snd (hd f)) = Ok k"
    "\<forall>d. d \<in># tidb_contents X s t \<longrightarrow> (Matches E d f \<longleftrightarrow> DocumentIDKey E d = Ok k)" unfolding tidb_exact_def by blast
  have "filter ((\<lambda>d. DocumentIDKey E d = Ok k) \<circ> (docOf X \<circ> snd)) (rowsOf s t) =
      filter ((\<lambda>d. Matches E d f) \<circ> (docOf X \<circ> snd)) (rowsOf s t)"
    using k(2) by (intro filter_cong) (force simp: tidb_contents_def)+
  with False k(1) rows_of_key [OF assms(1,2), of k t] show thesis by (intro that [of "Some k"]) simp_all
qed

text \<open>A limit that the database applied is applied again, to no effect.\<close>

lemma ApplyFindOptions_take:
  assumes "opt_Skip opts = 0" "opt_Sort opts = []" "opt_Projection opts = []" "0 < sint (opt_Limit opts)"
  shows "ApplyFindOptions E (take (nat (sint (opt_Limit opts))) docs) opts = ApplyFindOptions E docs opts"
  using assms by (simp add: ApplyFindOptions_window)

lemma ApplyFindOptions_limited:
  assumes "fr_Skip req = 0" "fr_Sort req = []" "fr_Projection req = []"
  shows "ApplyFindOptions E (case limitOf req of None \<Rightarrow> docs | Some n \<Rightarrow> take (nat n) docs) (findOptions req) =
    ApplyFindOptions E docs (findOptions req)"
  using ApplyFindOptions_take [of "findOptions req" E docs] assms by (simp add: limitOf_def findOptions_def)

context tidb_backend
begin

lemma find_run:
  assumes "tidb_ensureCollection D (PhysicalTableName db c) q = (Ok (), q1)"
    and "BuildFindSQL E db c req = (Ok (selectDocsSQL (PhysicalTableName db c) k l) :: 'j sql res)"
  shows "tidb_Find D X E db c req q = bindS (bindS (db_query D (selectDocsSQL (PhysicalTableName db c) k l))
    (\<lambda>rows. liftS (eachRow (matchRow X E (fr_Filter req)) rows []))) (\<lambda>matched. returnS (ApplyFindOptions E matched (findOptions req))) q1"
  using assms by (simp add: tidb_Find_def bindS_simps run_simps)

lemma find_total:
  assumes inv: "tidb_inv X json hex (tab q)" and "nameable db c" and hexE: "env_oid_hex E = hex"
    and exact: "tidb_exact E (tidb_contents X (tab q) (PhysicalTableName db c)) (fr_Filter req)"
  shows "\<exists>docs q'. mset docs = filter_mset (\<lambda>d. Matches E d (fr_Filter req)) (tidb_contents X (tab q) (PhysicalTableName db c)) \<and>
    tidb_Find D X E db c req q = (Ok (ApplyFindOptions E docs (findOptions req)), q') \<and>
    tidb_inv X json hex (tab q') \<and> rowsOf (tab q') = rowsOf (tab q) \<and>
    map_of (sq_tables (tab q')) (PhysicalTableName db c) \<noteq> None"
proof -
  let ?t = "PhysicalTableName db c" and ?f = "fr_Filter req"
  let ?match = "\<lambda>d. Matches E d ?f" and ?docs = "\<lambda>order. map (docOf X \<circ> snd) order"
  obtain q1 where q1: "tidb_ensureCollection D ?t q = (Ok (), q1)" "rowsOf (tab q1) = rowsOf (tab q)"
    "sq_collections (tab q1) = sq_collections (tab q)" "map_of (sq_tables (tab q1)) ?t \<noteq> None"
    by (rule ensure [OF assms(2)])
  have inv1: "tidb_inv X json hex (tab q1)" by (rule inv_cong [OF inv q1(2,3)])
  note run = find_run [OF q1(1)] and select = select [OF inv1 q1(4) safeTable_Physical]
  show ?thesis
  proof (cases "canPushDownFind req")
    case False
    obtain order q2 where "mset order = mset (rowsOf (tab q1) ?t)" and
      q2: "bindS (db_query D (selectDocsSQL ?t None None)) (\<lambda>rows. liftS (eachRow (matchRow X E ?f) rows [])) q1 =
        (Ok (filter ?match (?docs order)), q2)" "tab q2 = tab q1"
      by (rule select [of None None]) simp
    then have "mset (filter ?match (?docs order)) = filter_mset ?match (tidb_contents X (tab q) ?t)"
      by (simp add: tidb_contents_def q1(2))
    with run [of E req None None] False q2 inv1 q1 show ?thesis
      by (intro exI [of _ "filter ?match (?docs order)"] exI [of _ q2]) (simp add: BuildFindSQL_eq bindS_simps returnS_def)
  next
    case True
    then have push: "canPushDownFilter ?f" "fr_Skip req = 0" "fr_Sort req = []" "fr_Projection req = []"
      by (auto simp: canPushDownFind_def)
    obtain k where k: "k = None \<longleftrightarrow> ?f = []" "?f \<noteq> [] \<longrightarrow> ValueKey E (snd (hd ?f)) = Ok (the k)"
      and rows: "filter (\<lambda>(key, _). k = None \<or> k = Some key) (rowsOf (tab q) ?t) = filter (?match \<circ> (docOf X \<circ> snd)) (rowsOf (tab q) ?t)"
      by (rule rows_of_filter [OF inv hexE exact push(1)])
    have sql: "BuildFindSQL E db c req = (Ok (selectDocsSQL ?t k (limitOf req)) :: 'j sql res)"
      using True k by (auto simp: BuildFindSQL_eq)
    obtain order q2 where order: "mset order = mset (filter (\<lambda>(key, _). k = None \<or> k = Some key) (rowsOf (tab q1) ?t))" and
      q2: "bindS (db_query D (selectDocsSQL ?t k (limitOf req))) (\<lambda>rows. liftS (eachRow (matchRow X E ?f) rows [])) q1 =
        (Ok (filter ?match (?docs (case limitOf req of None \<Rightarrow> order | Some n \<Rightarrow> take (nat n) order))), q2)"
      "tab q2 = tab q1"
      by (rule select)
    have docs: "mset (?docs order) = filter_mset ?match (tidb_contents X (tab q) ?t)"
      by (rule contents_selected) (use order rows q1(2) in simp)
    then have "set (?docs order) \<subseteq> {d. ?match d}" by (metis (mono_tags, lifting) mem_Collect_eq set_mset_filter set_mset_mset subsetI)
    then have "filter ?match (?docs (case limitOf req of None \<Rightarrow> order | Some n \<Rightarrow> take (nat n) order)) =
        (case limitOf req of None \<Rightarrow> ?docs order | Some n \<Rightarrow> take (nat n) (?docs order))"
      by (intro trans [OF filter_True]) (auto simp: take_map split: option.split dest: in_set_takeD)
    with run [OF sql] q2 docs inv1 q1 show ?thesis
      using ApplyFindOptions_limited [OF push(2-4), of E "?docs order"]
      by (intro exI [of _ "?docs order"] exI [of _ q2]) (simp add: bindS_simps returnS_def)
  qed
qed

end

end
