(* ===== verification/Command_Registry.thy ===== *)
theory Command_Registry
  imports Go_Value
begin

text \<open>
  \<^verbatim>\<open>internal/mongoerrors/errors.go\<close> and \<^verbatim>\<open>internal/command/registry.go\<close>: the errors commands return,
  how the name of a command is found in its document, and a table of handlers by name. A handler
  is an action on a state \<open>'s\<close> of its own that answers with a document. The loop of \<open>Name\<close> over an
  unknown command visits the fields in the order of the list.
\<close>

section \<open>Errors\<close>

definition CodeCommandNotFound :: int where
  "CodeCommandNotFound = 59"

definition CodeBadValue :: int where
  "CodeBadValue = 2"

text \<open>The text of an error, as \<^verbatim>\<open>err.Error()\<close> gives it.\<close>

fun errorText :: "goerr \<Rightarrow> string" where
  "errorText (MongoError code name msg) = name @ '' ('' @ dec_int code @ ''): '' @ msg"
| "errorText (PlainError msg) = msg"

definition badValue :: "string \<Rightarrow> goerr" where
  "badValue msg = MongoError CodeBadValue ''BadValue'' msg"

definition commandNotFound :: "string \<Rightarrow> goerr" where
  "commandNotFound name = MongoError CodeCommandNotFound ''CommandNotFound'' (''no such command: '' @ name)"

section \<open>The name of a command\<close>

definition knownNames :: "string list" where
  "knownNames =
     [''hello'', ''isMaster'', ''ismaster'', ''ping'', ''buildInfo'', ''serverStatus'', ''create'',
      ''listCollections'', ''createIndexes'', ''listIndexes'', ''dropIndexes'', ''drop'', ''dropDatabase'',
      ''insert'', ''find'', ''count'', ''distinct'', ''findAndModify'', ''update'', ''delete'', ''aggregate'',
      ''listDatabases'', ''renameCollection'', ''dropTarget'', ''collMod'', ''connectionStatus'', ''dbStats'',
      ''collStats'', ''hostInfo'', ''getCmdLineOpts'', ''getParameter'', ''currentOp'', ''top'', ''profile'',
      ''listCommands'', ''usersInfo'', ''rolesInfo'', ''getDefaultRWConcern'', ''validate'', ''planCacheClear'',
      ''planCacheListPlans'', ''explain'']"

fun firstKnown :: "string list \<Rightarrow> doc \<Rightarrow> (string \<times> gval) option" where
  "firstKnown [] cmd = None"
| "firstKnown (key # names) cmd =
     (case map_of cmd key of Some value \<Rightarrow> Some (key, value) | None \<Rightarrow> firstKnown names cmd)"

fun firstPlain :: "doc \<Rightarrow> (string \<times> gval) option" where
  "firstPlain [] = None"
| "firstPlain ((key, value) # cmd) =
     (if key \<noteq> [] \<and> hd key \<noteq> CHR ''$'' then Some (key, value) else firstPlain cmd)"

definition Name :: "doc \<Rightarrow> (string \<times> gval) res" where
  "Name cmd =
     (case firstKnown knownNames cmd of
        Some nv \<Rightarrow> Ok nv
      | None \<Rightarrow> (case firstPlain cmd of Some nv \<Rightarrow> Ok nv | None \<Rightarrow> Err (badValue ''empty command'')))"

section \<open>The registry\<close>

text \<open>A handler is a function; the context is left out.\<close>

type_synonym 's HandlerFunc = "doc \<Rightarrow> ('s, doc) action"

definition HandlerFunc_Handle :: "'s HandlerFunc \<Rightarrow> doc \<Rightarrow> ('s, doc) action" where
  "HandlerFunc_Handle f cmd = f cmd"

type_synonym 's registry = "(string \<times> 's HandlerFunc) list"

definition NewRegistry :: "'s registry" where
  "NewRegistry = []"

definition Register :: "string \<Rightarrow> 's HandlerFunc \<Rightarrow> 's registry \<Rightarrow> 's registry" where
  "Register name h r = put name h r"

definition Registry_Handle :: "'s registry \<Rightarrow> doc \<Rightarrow> ('s, doc) action" where
  "Registry_Handle r cmd =
     bindS (liftS (Name cmd)) (\<lambda>(name, _).
       case map_of r name of
         None \<Rightarrow> liftS (Err (commandNotFound name))
       | Some h \<Rightarrow> HandlerFunc_Handle h cmd)"

section \<open>Lemmas\<close>

lemma firstKnown_Some:
  "firstKnown names cmd = Some (key, value) \<Longrightarrow> key \<in> set names \<and> map_of cmd key = Some value"
  by (induction names) (auto split: option.splits)

lemma firstKnown_None: "firstKnown names cmd = None \<longleftrightarrow> (\<forall>name \<in> set names. map_of cmd name = None)"
  by (induction names) (simp_all split: option.split)

lemma firstKnown_cong: "map_of cmd = map_of cmd' \<Longrightarrow> firstKnown names cmd = firstKnown names cmd'"
  by (induction names) (simp_all split: option.split)

lemma firstPlain_Some: "firstPlain cmd = Some (key, value) \<Longrightarrow> (key, value) \<in> set cmd \<and> key \<noteq> [] \<and> hd key \<noteq> CHR ''$''"
  by (induction cmd rule: firstPlain.induct) (auto split: if_splits)

lemma Name_known:
  assumes "\<exists>name \<in> set knownNames. map_of cmd name \<noteq> None"
  obtains key v where "Name cmd = Ok (key, v)" and "key \<in> set knownNames" and "map_of cmd key = Some v"
  using assms firstKnown_None [of knownNames cmd] firstKnown_Some [of knownNames cmd]
  by (cases "firstKnown knownNames cmd") (auto simp: Name_def)

section \<open>Properties\<close>

text \<open>The name of a command with a known field does not depend on the order in which Go visits the
  document, and is one of its fields; options of the command that look like names do not hide it.\<close>

theorem Name_of_known_command:
  assumes "\<exists>name \<in> set knownNames. map_of cmd name \<noteq> None" and "map_of cmd = map_of cmd'"
  shows "\<exists>key value. Name cmd = Ok (key, value) \<and> Name cmd' = Ok (key, value) \<and>
    key \<in> set knownNames \<and> map_of cmd key = Some value"
proof -
  obtain key v where nv: "Name cmd = Ok (key, v)" "key \<in> set knownNames" "map_of cmd key = Some v"
    using Name_known [OF assms(1)] .
  have "firstKnown knownNames cmd \<noteq> None" using assms(1) by (simp add: firstKnown_None)
  then have "Name cmd' = Name cmd"
    using firstKnown_cong [OF assms(2), of knownNames] by (auto simp: Name_def)
  with nv show ?thesis by simp
qed

theorem Name_of_known_command_witness:
  "Name [(''update'', GDoc []), (''findAndModify'', GString ''c'')] = Ok (''findAndModify'', GString ''c'')"
  using Name_of_known_command [of "[(''update'', GDoc []), (''findAndModify'', GString ''c'')]"
      "[(''findAndModify'', GString ''c''), (''update'', GDoc [])]"]
  by (force simp: knownNames_def Name_def)

text \<open>The registry runs the handler registered last under the name, without any other handler seeing
  the command; with no handler it answers \<^verbatim>\<open>CommandNotFound\<close> with code 59 and changes nothing.\<close>

theorem Registry_dispatch:
  assumes "Name cmd = Ok (name, value)"
  shows "Registry_Handle (Register name h r) cmd s = h cmd s \<and>
    (\<forall>other. other \<noteq> name \<longrightarrow> Registry_Handle (Register other h r) cmd s = Registry_Handle r cmd s) \<and>
    Registry_Handle NewRegistry cmd s =
      (Err (MongoError 59 ''CommandNotFound'' (''no such command: '' @ name)), s)"
  using assms
  by (simp add: Registry_Handle_def HandlerFunc_Handle_def Register_def NewRegistry_def bindS_def liftS_def map_simps
    commandNotFound_def CodeCommandNotFound_def)

theorem Registry_dispatch_witness:
  "Registry_Handle (Register ''ping'' (\<lambda>_. returnS []) NewRegistry) [(''ping'', GInt32 1)] (0 :: nat) = (Ok [], 0)"
  using Registry_dispatch [of "[(''ping'', GInt32 1)]" "''ping''" "GInt32 1" "\<lambda>_. returnS []" NewRegistry "0 :: nat"]
  by (simp add: Name_def knownNames_def returnS_def)

end
