(* ===== verification/Handler_Commands.thy ===== *)
theory Handler_Commands
  imports Command_Registry Backend_Types
begin

text \<open>
  \<^verbatim>\<open>internal/handler/handler.go\<close>: the dispatch of a command and one definition per command handler,
  over any backend \<open>ops\<close>. A handler calls the backend up to five times; \<open>Es i\<close> is the environment of
  its \<open>i\<close>-th call, so that two calls of one command may visit a collection in different orders and
  read different clocks. The handlers hold no lock across their calls: over a backend of its own a command
  runs undisturbed, over the backend \<open>concurrent ops\<close> of \<open>Concurrent_Clients\<close> the calls of other clients run between
  its calls.
\<close>

type_synonym envs = "nat \<Rightarrow> goenv"

section \<open>Helpers\<close>

fun h_truthy :: "gval \<Rightarrow> bool" where
  "h_truthy (GBool b) = b"
| "h_truthy _ = False"

fun int64Value :: "gval \<Rightarrow> 64 word" where
  "int64Value (GInt32 n) = word_of_int (sint n)"
| "int64Value (GInt64 n) = n"
| "int64Value (GInt n) = n"
| "int64Value (GFloat64 x) = fp_to_i64 x"
| "int64Value _ = 0"

definition stringValue :: "gval \<Rightarrow> string" where
  "stringValue v = (case as_string v of Some s \<Rightarrow> s | None \<Rightarrow> '''')"

definition splitNamespace :: "string \<Rightarrow> string \<Rightarrow> string \<times> string" where
  "splitNamespace ns defaultDB =
     (case cut_on CHR ''.'' ns of Some (left, right) \<Rightarrow> (left, right) | None \<Rightarrow> (defaultDB, ns))"

definition requiredString :: "doc \<Rightarrow> string \<Rightarrow> string res" where
  "requiredString cmd key =
     (case map_of cmd key of
        None \<Rightarrow> Err (badValue (''missing required field '' @ key))
      | Some raw \<Rightarrow>
          (case as_string raw of
             Some value \<Rightarrow>
               if value = '''' then Err (badValue (key @ '' must be a non-empty string'')) else Ok value
           | None \<Rightarrow> Err (badValue (key @ '' must be a non-empty string''))))"

definition toBSONArray :: "doc list \<Rightarrow> gval" where
  "toBSONArray docs = GArr (map GDoc docs)"

text \<open>An optional field that must be a document, and the document assertions that fall back to none.\<close>

definition docArg :: "doc \<Rightarrow> string \<Rightarrow> doc res" where
  "docArg cmd key =
     (case map_of cmd key of
        None \<Rightarrow> Ok []
      | Some raw \<Rightarrow>
          (case as_doc raw of
             Some m \<Rightarrow> Ok m
           | None \<Rightarrow> Err (badValue (key @ '' has invalid type '' @ type_name raw))))"

definition docOrNone :: "gval \<Rightarrow> doc" where
  "docOrNone raw = (case as_doc raw of Some m \<Rightarrow> m | None \<Rightarrow> [])"

text \<open>A field that must be an array, and its items, which must be documents.\<close>

definition arrArg :: "doc \<Rightarrow> string \<Rightarrow> gval list res" where
  "arrArg cmd key =
     (case as_arr (field cmd key) of
        Some xs \<Rightarrow> Ok xs
      | None \<Rightarrow> Err (badValue (key @ '' must be an array'')))"

fun docItems :: "string \<Rightarrow> gval list \<Rightarrow> doc list res" where
  "docItems what [] = Ok []"
| "docItems what (raw # xs) =
     (case as_doc raw of
        None \<Rightarrow> Err (badValue (what @ '' has invalid type '' @ type_name raw))
      | Some d \<Rightarrow> mapR (\<lambda>ds. d # ds) (docItems what xs))"

text \<open>The collection name in the command, checked the same way by every command that needs one.\<close>

definition collectionArg :: "string \<Rightarrow> gval \<Rightarrow> string res" where
  "collectionArg name value =
     (case as_string value of
        Some coll \<Rightarrow> if coll = '''' then Err (badValue (name @ '' must be a collection name'')) else Ok coll
      | None \<Rightarrow> Err (badValue (name @ '' must be a collection name'')))"

definition okReply :: "doc \<Rightarrow> doc" where
  "okReply rest = (''ok'', GFloat64 (fp_of_int 1)) # rest"

definition cursorReply :: "string \<Rightarrow> gval list \<Rightarrow> doc" where
  "cursorReply ns batch =
     okReply [(''cursor'', GDoc [(''id'', GInt64 0), (''ns'', GString ns), (''firstBatch'', GArr batch)])]"

definition int32_of_length :: "'a list \<Rightarrow> gval" where
  "int32_of_length xs = GInt32 (word_of_nat (length xs))"

section \<open>Reading\<close>

definition h_aggregate :: "'s store_ops \<Rightarrow> envs \<Rightarrow> doc \<Rightarrow> string \<Rightarrow> ('s, doc) action" where
  "h_aggregate ops Es cmd coll =
     bindS (liftS (requiredString cmd ''$db'')) (\<lambda>db.
     bindS (liftS (case map_of cmd ''pipeline'' of
                     None \<Rightarrow> Ok []
                   | Some raw \<Rightarrow>
                       (case as_arr raw of
                          Some xs \<Rightarrow> Ok xs
                        | None \<Rightarrow> Err (badValue (''pipeline has invalid type '' @ type_name raw)))))
       (\<lambda>pipeline.
     bindS (op_Aggregate ops (Es 0) db coll pipeline) (\<lambda>docs.
     returnS (cursorReply (db @ ''.'' @ coll) (map GDoc docs)))))"

definition h_distinct :: "'s store_ops \<Rightarrow> envs \<Rightarrow> doc \<Rightarrow> string \<Rightarrow> ('s, doc) action" where
  "h_distinct ops Es cmd coll =
     bindS (liftS (requiredString cmd ''$db'')) (\<lambda>db.
     bindS (liftS (requiredString cmd ''key'')) (\<lambda>key.
     bindS (liftS (docArg cmd ''query'')) (\<lambda>flt.
     bindS (op_Distinct ops (Es 0) db coll \<lparr>dr_Key = key, dr_Filter = flt\<rparr>) (\<lambda>values.
     returnS (okReply [(''values'', GArr values)])))))"

definition h_count :: "'s store_ops \<Rightarrow> envs \<Rightarrow> doc \<Rightarrow> string \<Rightarrow> ('s, doc) action" where
  "h_count ops Es cmd coll =
     bindS (liftS (requiredString cmd ''$db'')) (\<lambda>db.
     bindS (liftS (docArg cmd ''query'')) (\<lambda>flt.
     bindS (op_Count ops (Es 0) db coll flt) (\<lambda>n.
     returnS (okReply [(''n'', GInt64 n)]))))"

text \<open>The limit must have an integer type: a \<^verbatim>\<open>float64\<close> is an error.\<close>

fun limitArg :: "gval \<Rightarrow> 64 word res" where
  "limitArg GNil = Ok 0"
| "limitArg (GInt32 n) = Ok (word_of_int (sint n))"
| "limitArg (GInt64 n) = Ok n"
| "limitArg (GInt n) = Ok n"
| "limitArg raw = Err (badValue (''limit has invalid type '' @ type_name raw))"

definition h_find :: "'s store_ops \<Rightarrow> envs \<Rightarrow> doc \<Rightarrow> string \<Rightarrow> ('s, doc) action" where
  "h_find ops Es cmd coll =
     bindS (liftS (requiredString cmd ''$db'')) (\<lambda>db.
     bindS (liftS (docArg cmd ''filter'')) (\<lambda>flt.
     bindS (liftS (limitArg (field cmd ''limit''))) (\<lambda>limit.
     bindS (liftS (docArg cmd ''projection'')) (\<lambda>projection.
     bindS (liftS (docArg cmd ''sort'')) (\<lambda>sort.
     bindS (op_Find ops (Es 0) db coll
              \<lparr>fr_Filter = flt, fr_Projection = projection, fr_Sort = sort,
               fr_Skip = int64Value (field cmd ''skip''), fr_Limit = limit\<rparr>) (\<lambda>docs.
     returnS (cursorReply (db @ ''.'' @ coll) (map GDoc docs))))))))"

section \<open>Writing documents\<close>

definition h_insert :: "'s store_ops \<Rightarrow> envs \<Rightarrow> doc \<Rightarrow> string \<Rightarrow> ('s, doc) action" where
  "h_insert ops Es cmd coll =
     bindS (liftS (requiredString cmd ''$db'')) (\<lambda>db.
     bindS (liftS (arrArg cmd ''documents'')) (\<lambda>rawDocs.
     bindS (liftS (docItems ''document'' rawDocs)) (\<lambda>docs.
     bindS (op_Insert ops (Es 0) db coll docs) (\<lambda>inserted.
     returnS (okReply [(''n'', GInt32 (word_of_int (sint inserted)))])))))"

definition updateModel :: "doc \<Rightarrow> UpdateModel" where
  "updateModel d =
     \<lparr>um_Filter = docOrNone (field d ''q''), um_Update = docOrNone (field d ''u''),
      um_Multi = h_truthy (field d ''multi''), um_Upsert = h_truthy (field d ''upsert'')\<rparr>"

definition h_update :: "'s store_ops \<Rightarrow> envs \<Rightarrow> doc \<Rightarrow> string \<Rightarrow> ('s, doc) action" where
  "h_update ops Es cmd coll =
     bindS (liftS (requiredString cmd ''$db'')) (\<lambda>db.
     bindS (liftS (arrArg cmd ''updates'')) (\<lambda>rawUpdates.
     bindS (liftS (docItems ''update item'' rawUpdates)) (\<lambda>items.
     bindS (op_Update ops (Es 0) db coll (map updateModel items)) (\<lambda>res.
     returnS (okReply [(''n'', GInt64 (ur_Matched res)), (''nModified'', GInt64 (ur_Modified res)),
                       (''upserted'', toBSONArray (ur_Upserted res))])))))"

definition deleteModel :: "doc \<Rightarrow> DeleteModel" where
  "deleteModel d = \<lparr>dm_Filter = docOrNone (field d ''q''), dm_Limit = int64Value (field d ''limit'')\<rparr>"

definition h_delete :: "'s store_ops \<Rightarrow> envs \<Rightarrow> doc \<Rightarrow> string \<Rightarrow> ('s, doc) action" where
  "h_delete ops Es cmd coll =
     bindS (liftS (requiredString cmd ''$db'')) (\<lambda>db.
     bindS (liftS (arrArg cmd ''deletes'')) (\<lambda>rawDeletes.
     bindS (liftS (docItems ''delete item'' rawDeletes)) (\<lambda>items.
     bindS (op_Delete ops (Es 0) db coll (map deleteModel items)) (\<lambda>n.
     returnS (okReply [(''n'', GInt64 n)])))))"

text \<open>
  The document found before the change; \<open>None\<close> is a nil map. In the reply both a nil and an empty
  map are \<open>GDoc []\<close>: \<^verbatim>\<open>toBSOND\<close> sends either as an empty document.
\<close>

definition headDoc :: "doc list \<Rightarrow> doc option" where
  "headDoc docs = (case docs of [] \<Rightarrow> None | d # _ \<Rightarrow> Some d)"

definition optDoc :: "doc option \<Rightarrow> gval" where
  "optDoc d = GDoc (case d of None \<Rightarrow> [] | Some d \<Rightarrow> d)"

definition h_findAndModify :: "'s store_ops \<Rightarrow> envs \<Rightarrow> doc \<Rightarrow> string \<Rightarrow> ('s, doc) action" where
  "h_findAndModify ops Es cmd coll =
     bindS (liftS (requiredString cmd ''$db'')) (\<lambda>db.
     let query = docOrNone (field cmd ''query''); one = (filterRequest query)\<lparr>fr_Limit := 1\<rparr> in
     bindS (op_Find ops (Es 0) db coll one) (\<lambda>docs.
     let before = headDoc docs in
     if h_truthy (field cmd ''remove'') then
       bindS (if before \<noteq> None
                then bindS (op_Delete ops (Es 1) db coll [\<lparr>dm_Filter = query, dm_Limit = 1\<rparr>]) (\<lambda>_. returnS ())
              else returnS ()) (\<lambda>_.
       returnS (okReply [(''lastErrorObject'', GDoc [(''n'', int32_of_length docs)]), (''value'', optDoc before)]))
     else
       (let updateDoc = docOrNone (field cmd ''update'') in
        bindS (if updateDoc \<noteq> []
                 then bindS (op_Update ops (Es 1) db coll
                        [\<lparr>um_Filter = query, um_Update = updateDoc, um_Multi = False,
                          um_Upsert = h_truthy (field cmd ''upsert'')\<rparr>]) (\<lambda>_. returnS ())
               else returnS ()) (\<lambda>_.
        bindS (if h_truthy (field cmd ''new'') \<or> h_truthy (field cmd ''returnNewDocument'')
                 then bindS (op_Find ops (Es 2) db coll one) (\<lambda>after.
                   returnS (case headDoc after of None \<Rightarrow> before | Some d \<Rightarrow> Some d))
               else returnS before) (\<lambda>value.
        returnS (okReply
          [(''lastErrorObject'', GDoc [(''n'', int32_of_length docs), (''updatedExisting'', GBool (before \<noteq> None))]),
           (''value'', optDoc value)]))))))"

section \<open>Collections and indexes\<close>

definition h_createCollection :: "'s store_ops \<Rightarrow> envs \<Rightarrow> doc \<Rightarrow> string \<Rightarrow> ('s, doc) action" where
  "h_createCollection ops Es cmd coll =
     bindS (liftS (requiredString cmd ''$db'')) (\<lambda>db.
     bindS (liftS (docArg cmd ''validator'')) (\<lambda>validator.
     bindS (op_CreateCollection ops (Es 0) db coll \<lparr>cc_Validator = validator\<rparr>) (\<lambda>_.
     returnS (okReply []))))"

definition h_listCollections :: "'s store_ops \<Rightarrow> envs \<Rightarrow> doc \<Rightarrow> ('s, doc) action" where
  "h_listCollections ops Es cmd =
     bindS (liftS (requiredString cmd ''$db'')) (\<lambda>db.
     bindS (liftS (docArg cmd ''filter'')) (\<lambda>flt.
     bindS (op_ListCollections ops (Es 0) db flt) (\<lambda>colls.
     returnS (cursorReply (db @ ''.$cmd.listCollections'')
       (map (\<lambda>c. GDoc [(''name'', GString (ci_Name c)), (''type'', GString ''collection''),
                       (''options'', GDoc (ci_Options c)), (''info'', GDoc [(''readOnly'', GBool False)])])
          colls)))))"

definition h_dropCollection :: "'s store_ops \<Rightarrow> envs \<Rightarrow> doc \<Rightarrow> string \<Rightarrow> ('s, doc) action" where
  "h_dropCollection ops Es cmd coll =
     bindS (liftS (requiredString cmd ''$db'')) (\<lambda>db.
     bindS (op_DropCollection ops (Es 0) db coll) (\<lambda>_.
     returnS (okReply [(''ns'', GString (db @ ''.'' @ coll))])))"

definition h_dropDatabase :: "'s store_ops \<Rightarrow> envs \<Rightarrow> doc \<Rightarrow> ('s, doc) action" where
  "h_dropDatabase ops Es cmd =
     bindS (liftS (requiredString cmd ''$db'')) (\<lambda>db.
     bindS (op_DropDatabase ops (Es 0) db) (\<lambda>_.
     returnS (okReply [(''dropped'', GString db)])))"

definition h_renameCollection :: "'s store_ops \<Rightarrow> envs \<Rightarrow> doc \<Rightarrow> string \<Rightarrow> ('s, doc) action" where
  "h_renameCollection ops Es cmd fromNS =
     (case splitNamespace fromNS (stringValue (field cmd ''$db'')) of (db, coll) \<Rightarrow>
     bindS (liftS (requiredString cmd ''to'')) (\<lambda>toNS.
     case splitNamespace toNS db of (toDB, toColl) \<Rightarrow>
     bindS (op_Find ops (Es 0) db coll (filterRequest [])) (\<lambda>docs.
     bindS (if h_truthy (field cmd ''dropTarget'') then op_DropCollection ops (Es 1) toDB toColl else returnS ()) (\<lambda>_.
     bindS (op_CreateCollection ops (Es 2) toDB toColl \<lparr>cc_Validator = []\<rparr>) (\<lambda>_.
     bindS (if docs \<noteq> [] then bindS (op_Insert ops (Es 3) toDB toColl docs) (\<lambda>_. returnS ()) else returnS ()) (\<lambda>_.
     bindS (op_DropCollection ops (Es 4) db coll) (\<lambda>_.
     returnS (okReply []))))))))"

definition indexModel :: "doc \<Rightarrow> IndexModel" where
  "indexModel d =
     \<lparr>ix_Name = stringValue (field d ''name''), ix_Key = docOrNone (field d ''key''),
      ix_Opts = filter (\<lambda>(k, v). k \<noteq> ''name'' \<and> k \<noteq> ''key'') d\<rparr>"

definition h_createIndexes :: "'s store_ops \<Rightarrow> envs \<Rightarrow> doc \<Rightarrow> string \<Rightarrow> ('s, doc) action" where
  "h_createIndexes ops Es cmd coll =
     bindS (liftS (requiredString cmd ''$db'')) (\<lambda>db.
     bindS (liftS (arrArg cmd ''indexes'')) (\<lambda>rawIndexes.
     bindS (liftS (docItems ''index'' rawIndexes)) (\<lambda>items.
     bindS (op_CreateIndexes ops (Es 0) db coll (map indexModel items)) (\<lambda>names.
     returnS (okReply [(''createdCollectionAutomatically'', GBool True), (''numIndexesBefore'', GInt32 1),
                       (''numIndexesAfter'', GInt32 (word_of_nat (1 + length names)))])))))"

definition h_listIndexes :: "'s store_ops \<Rightarrow> envs \<Rightarrow> doc \<Rightarrow> string \<Rightarrow> ('s, doc) action" where
  "h_listIndexes ops Es cmd coll =
     bindS (liftS (requiredString cmd ''$db'')) (\<lambda>db.
     bindS (op_ListIndexes ops (Es 0) db coll) (\<lambda>idx.
     returnS (cursorReply (db @ ''.'' @ coll) (map GDoc idx))))"

section \<open>Dispatch\<close>

text \<open>The commands with a fixed answer, which read at most the database and collection name.\<close>

definition commandNS :: "doc \<Rightarrow> gval \<Rightarrow> gval" where
  "commandNS cmd arg = GString (stringValue (field cmd ''$db'') @ ''.'' @ stringValue arg)"

definition helloReply :: doc where
  "helloReply = okReply
     [(''isWritablePrimary'', GBool True), (''ismaster'', GBool True), (''minWireVersion'', GInt32 0),
      (''maxWireVersion'', GInt32 21), (''maxBsonObjectSize'', GInt32 16777216),
      (''maxMessageSizeBytes'', GInt32 48000000), (''maxWriteBatchSize'', GInt32 100000)]"

definition staticReplies :: "doc \<Rightarrow> gval \<Rightarrow> (string \<times> doc) list" where
  "staticReplies cmd arg =
    [(''hello'', helloReply), (''isMaster'', helloReply), (''ismaster'', helloReply),
     (''ping'', okReply []),
     (''buildInfo'', okReply [(''version'', GString ''0.1.0''), (''gitVersion'', GString ''timongo-mvp'')]),
     (''serverStatus'', okReply [(''version'', GString ''0.1.0''),
        (''timongo'', GDoc [(''compatVersion'', GString ''6.0'')])]),
     (''connectionStatus'', okReply [(''authInfo'', GDoc [(''authenticatedUsers'', GArr []),
        (''authenticatedUserRoles'', GArr [])])]),
     (''dbStats'', okReply [(''db'', field cmd ''$db''), (''collections'', GInt32 0), (''objects'', GInt32 0),
        (''dataSize'', GInt64 0), (''storageSize'', GInt64 0), (''indexes'', GInt32 0), (''indexSize'', GInt64 0)]),
     (''collStats'', okReply [(''ns'', commandNS cmd arg), (''count'', GInt64 0), (''size'', GInt64 0),
        (''storageSize'', GInt64 0), (''nindexes'', GInt32 1)]),
     (''hostInfo'', okReply [(''system'', GDoc [(''hostname'', GString ''timongo''), (''cpuAddrSize'', GInt32 64)]),
        (''os'', GDoc [(''type'', GString ''unknown'')])]),
     (''getCmdLineOpts'', okReply [(''argv'', GArr []), (''parsed'', GDoc [])]),
     (''getParameter'', okReply [(''featureCompatibilityVersion'', GDoc [(''version'', GString ''6.0'')])]),
     (''currentOp'', okReply [(''inprog'', GArr [])]),
     (''top'', okReply [(''totals'', GDoc [])]),
     (''profile'', okReply [(''was'', GInt32 0)]),
     (''listCommands'', okReply [(''commands'', GDoc [])]),
     (''usersInfo'', okReply [(''users'', GArr [])]),
     (''rolesInfo'', okReply [(''roles'', GArr [])]),
     (''getDefaultRWConcern'', okReply [(''defaultReadConcern'', GDoc []), (''defaultWriteConcern'', GDoc [])]),
     (''validate'', okReply [(''valid'', GBool True), (''ns'', commandNS cmd arg)]),
     (''planCacheClear'', okReply []),
     (''explain'', okReply [(''queryPlanner'', GDoc
        [(''namespace'', GString (stringValue (field cmd ''$db''))),
         (''winningPlan'', GDoc [(''stage'', GString ''TIMONGO_SCAN'')])])]),
     (''collMod'', okReply []),
     (''listDatabases'', okReply [(''databases'', GArr []), (''totalSize'', GInt64 0)])]"

text \<open>The commands on one collection, which all check its name first.\<close>

definition collectionHandlers ::
  "'s store_ops \<Rightarrow> envs \<Rightarrow> doc \<Rightarrow> (string \<times> (string \<Rightarrow> ('s, doc) action)) list" where
  "collectionHandlers ops Es cmd =
    [(''create'', h_createCollection ops Es cmd), (''drop'', h_dropCollection ops Es cmd),
     (''createIndexes'', h_createIndexes ops Es cmd), (''listIndexes'', h_listIndexes ops Es cmd),
     (''dropIndexes'', \<lambda>_. returnS (okReply [(''nIndexesWas'', GInt32 1)])),
     (''insert'', h_insert ops Es cmd), (''find'', h_find ops Es cmd), (''count'', h_count ops Es cmd),
     (''distinct'', h_distinct ops Es cmd), (''findAndModify'', h_findAndModify ops Es cmd),
     (''update'', h_update ops Es cmd), (''delete'', h_delete ops Es cmd),
     (''aggregate'', h_aggregate ops Es cmd)]"

definition dispatch :: "'s store_ops \<Rightarrow> envs \<Rightarrow> doc \<Rightarrow> string \<Rightarrow> gval \<Rightarrow> ('s, doc) action" where
  "dispatch ops Es cmd name arg =
     (case map_of (staticReplies cmd arg) name of
        Some reply \<Rightarrow> returnS reply
      | None \<Rightarrow>
          (case map_of (collectionHandlers ops Es cmd) name of
             Some h \<Rightarrow> bindS (liftS (collectionArg name arg)) h
           | None \<Rightarrow>
               if name = ''listCollections'' then h_listCollections ops Es cmd
               else if name = ''dropDatabase'' then h_dropDatabase ops Es cmd
               else if name = ''renameCollection'' then h_renameCollection ops Es cmd (stringValue arg)
               else liftS (Err (commandNotFound name))))"

definition Handle :: "'s store_ops \<Rightarrow> envs \<Rightarrow> doc \<Rightarrow> ('s, doc) action" where
  "Handle ops Es cmd = bindS (liftS (Name cmd)) (\<lambda>(name, arg). dispatch ops Es cmd name arg)"

end
