(* ===== verification/Handler_Invariant.thy ===== *)
theory Handler_Invariant
  imports Handler_Commands
begin

text \<open>
  An invariant of a backend is an invariant of the commands: the locale \<open>store_invariant\<close> asks every backend
  operation to keep a property \<open>P\<close> of the state, an insert at least for documents with \<open>W\<close>, an update for update
  documents with \<open>U\<close>, and shows that every command keeps it. A backend used by
  several clients at once is \<open>disturbed\<close>: other clients' steps run before each operation; the locale
  carries over to it.
\<close>

section \<open>Actions that maintain a property\<close>

text \<open>\<open>P\<close> holds after the action when it held before, whatever the outcome, and a result satisfies \<open>Q\<close>.\<close>

definition maintains :: "('s \<Rightarrow> bool) \<Rightarrow> ('s, 'a) action \<Rightarrow> ('a \<Rightarrow> bool) \<Rightarrow> bool" where
  "maintains P m Q \<longleftrightarrow> (\<forall>s. P s \<longrightarrow> P (snd (m s)) \<and> (\<forall>x. fst (m s) = Ok x \<longrightarrow> Q x))"

abbreviation keeps :: "('s \<Rightarrow> bool) \<Rightarrow> ('s, 'a) action \<Rightarrow> bool" where
  "keeps P m \<equiv> maintains P m (\<lambda>_. True)"

lemma maintains_lift: "(\<And>x. r = Ok x \<Longrightarrow> Q x) \<Longrightarrow> maintains P (liftS r) Q"
  by (simp add: maintains_def liftS_def)

lemma maintains_return: "Q x \<Longrightarrow> maintains P (returnS x) Q"
  by (simp add: maintains_def returnS_def)

lemma maintains_bind: "maintains P m R \<Longrightarrow> (\<And>x. R x \<Longrightarrow> maintains P (f x) Q) \<Longrightarrow> maintains P (bindS m f) Q"
  unfolding maintains_def bindS_def by (force split: prod.splits res.splits)

lemma keeps_bind: "keeps P m \<Longrightarrow> (\<And>x. keeps P (f x)) \<Longrightarrow> keeps P (bindS m f)"
  by (rule maintains_bind)

lemma keeps_if: "keeps P m \<Longrightarrow> keeps P m' \<Longrightarrow> keeps P (if b then m else m')"
  by simp

lemma keeps_let: "keeps P (f x) \<Longrightarrow> keeps P (let y = x in f y)"
  by simp

lemma keeps_lift: "keeps P (liftS r)"
  by (rule maintains_lift) simp

lemma keeps_return: "keeps P (returnS x)"
  by (rule maintains_return) simp

lemma maintains_weaken: "maintains P m Q \<Longrightarrow> keeps P m"
  by (simp add: maintains_def)

lemmas keeps_intros = keeps_lift keeps_return keeps_if keeps_let

section \<open>Well-formed commands\<close>

lemma wf_field: "wf_doc cmd \<Longrightarrow> wf_val (field cmd key)"
  using wf_doc_lookup by (auto simp: field_def split: option.split)

lemma wf_as_doc: "wf_val v \<Longrightarrow> as_doc v = Some d \<Longrightarrow> wf_doc d"
  by (cases v) auto

lemma wf_docOrNone: "wf_val v \<Longrightarrow> wf_doc (docOrNone v)"
  using wf_as_doc by (auto simp: docOrNone_def split: option.split)

lemma wf_arrArg: "wf_doc cmd \<Longrightarrow> arrArg cmd key = Ok xs \<Longrightarrow> wf_list xs"
  using wf_field [of cmd key] by (cases "field cmd key") (auto simp: arrArg_def)

lemma wf_docItems: "wf_list xs \<Longrightarrow> docItems what xs = Ok ds \<Longrightarrow> \<forall>d \<in> set ds. wf_doc d"
proof (induction xs arbitrary: ds)
  case (Cons v xs)
  then obtain d ds' where "as_doc v = Some d" "docItems what xs = Ok ds'" "ds = d # ds'"
    by (auto simp: res_simps split: option.splits)
  with Cons wf_as_doc [of v d] show ?case by auto
qed simp

text \<open>Every update document of the command satisfies \<open>U\<close>: those of \<^verbatim>\<open>update\<close> and that of \<^verbatim>\<open>findAndModify\<close>.\<close>

definition updates_ok :: "(doc \<Rightarrow> bool) \<Rightarrow> doc \<Rightarrow> bool" where
  "updates_ok U cmd \<longleftrightarrow>
     (\<forall>xs ds. arrArg cmd ''updates'' = Ok xs \<longrightarrow> docItems ''update item'' xs = Ok ds \<longrightarrow>
        (\<forall>d \<in> set ds. U (um_Update (updateModel d)))) \<and>
     (docOrNone (field cmd ''update'') \<noteq> [] \<longrightarrow> U (docOrNone (field cmd ''update'')))"

section \<open>The interface\<close>

locale store_invariant =
  fixes ops :: "'s store_ops" and P :: "'s \<Rightarrow> bool" and good :: "goenv \<Rightarrow> bool" and U :: "goenv \<Rightarrow> doc \<Rightarrow> bool"
    and W :: "doc \<Rightarrow> bool"
  assumes maps: "distinct (keys d) \<Longrightarrow> W d"
    and create: "good E \<Longrightarrow> keeps P (op_CreateCollection ops E db c opts)"
    and listColls: "good E \<Longrightarrow> keeps P (op_ListCollections ops E db flt)"
    and dropColl: "good E \<Longrightarrow> keeps P (op_DropCollection ops E db c)"
    and insert: "good E \<Longrightarrow> \<forall>d \<in> set docs. W d \<Longrightarrow> keeps P (op_Insert ops E db c docs)"
    and find: "good E \<Longrightarrow> keeps P (op_Find ops E db c req)"
    and findAll: "good E \<Longrightarrow>
      maintains P (op_Find ops E db c (filterRequest [])) (\<lambda>docs. \<forall>d \<in> set docs. W d)"
    and count: "good E \<Longrightarrow> keeps P (op_Count ops E db c flt)"
    and distinctVals: "good E \<Longrightarrow> keeps P (op_Distinct ops E db c dreq)"
    and update: "good E \<Longrightarrow> \<forall>u \<in> set ups. distinct (keys (um_Filter u)) \<and> U E (um_Update u) \<Longrightarrow>
      keeps P (op_Update ops E db c ups)"
    and delete: "good E \<Longrightarrow> keeps P (op_Delete ops E db c dels)"
    and aggregate: "good E \<Longrightarrow> keeps P (op_Aggregate ops E db c pipeline)"
    and createIndexes: "good E \<Longrightarrow> keeps P (op_CreateIndexes ops E db c idx)"
    and listIndexes: "good E \<Longrightarrow> keeps P (op_ListIndexes ops E db c)"
    and dropDatabase: "good E \<Longrightarrow> keeps P (op_DropDatabase ops E db)"
begin

lemmas reads = listColls find count distinctVals aggregate listIndexes
lemmas writes_schema = create dropColl createIndexes dropDatabase

lemma keeps_insert:
  assumes "good (Es 0)" and "wf_doc cmd"
  shows "keeps P (h_insert ops Es cmd coll)"
  unfolding h_insert_def
proof (rule keeps_bind [OF keeps_lift])
  fix db
  show "keeps P (bindS (liftS (arrArg cmd ''documents'')) (\<lambda>rawDocs.
      bindS (liftS (docItems ''document'' rawDocs)) (\<lambda>docs.
      bindS (op_Insert ops (Es 0) db coll docs) (\<lambda>inserted.
      returnS (okReply [(''n'', GInt32 (word_of_int (sint inserted)))])))))"
  proof (rule maintains_bind [where R = wf_list])
    fix xs :: "gval list" assume xs: "wf_list xs"
    show "keeps P (bindS (liftS (docItems ''document'' xs)) (\<lambda>docs.
        bindS (op_Insert ops (Es 0) db coll docs) (\<lambda>inserted.
        returnS (okReply [(''n'', GInt32 (word_of_int (sint inserted)))]))))"
    proof (rule maintains_bind [where R = "\<lambda>docs. \<forall>d \<in> set docs. W d"])
      show "maintains P (liftS (docItems ''document'' xs)) (\<lambda>docs. \<forall>d \<in> set docs. W d)"
        using wf_docItems [OF xs] maps by (intro maintains_lift) auto
    qed (intro keeps_bind keeps_return insert [OF assms(1)])
  qed (use wf_arrArg assms(2) in \<open>auto intro: maintains_lift\<close>)
qed

lemma keeps_update:
  assumes "good (Es 0)" and "wf_doc cmd" and "updates_ok (U (Es 0)) cmd"
  shows "keeps P (h_update ops Es cmd coll)"
  unfolding h_update_def
proof (rule keeps_bind [OF keeps_lift])
  fix db
  let ?ok = "\<lambda>items. \<forall>d \<in> set items. wf_doc d \<and> U (Es 0) (um_Update (updateModel d))"
  let ?rest = "\<lambda>items. bindS (op_Update ops (Es 0) db coll (map updateModel items)) (\<lambda>res.
      returnS (okReply [(''n'', GInt64 (ur_Matched res)), (''nModified'', GInt64 (ur_Modified res)),
                       (''upserted'', toBSONArray (ur_Upserted res))]))"
  show "keeps P (bindS (liftS (arrArg cmd ''updates'')) (\<lambda>rawUpdates.
      bindS (liftS (docItems ''update item'' rawUpdates)) ?rest))"
  proof (rule maintains_bind [where R = "\<lambda>xs. arrArg cmd ''updates'' = Ok xs"])
    fix xs assume xs: "arrArg cmd ''updates'' = Ok xs"
    show "keeps P (bindS (liftS (docItems ''update item'' xs)) ?rest)"
    proof (rule maintains_bind [where R = ?ok])
      show "maintains P (liftS (docItems ''update item'' xs)) ?ok"
        using wf_docItems [OF wf_arrArg [OF assms(2) xs]] assms(3) xs
        by (intro maintains_lift) (auto simp: updates_ok_def)
    next
      fix items assume items: "?ok items"
      have "\<forall>u \<in> set (map updateModel items). distinct (keys (um_Filter u)) \<and> U (Es 0) (um_Update u)"
      proof
        fix u assume "u \<in> set (map updateModel items)"
        then obtain d where d: "d \<in> set items" "u = updateModel d" by auto
        with items wf_docOrNone [OF wf_field, of d "''q''"] show "distinct (keys (um_Filter u)) \<and> U (Es 0) (um_Update u)"
          by (simp add: updateModel_def)
      qed
      then show "keeps P (?rest items)" by (intro keeps_bind keeps_return update [OF assms(1)])
    qed
  qed (auto intro: maintains_lift)
qed

lemma keeps_findAndModify:
  assumes "\<forall>i. good (Es i)" and "wf_doc cmd" and "updates_ok (U (Es 1)) cmd"
  shows "keeps P (h_findAndModify ops Es cmd coll)"
proof -
  have q: "distinct (keys (docOrNone (field cmd ''query'')))"
    using wf_docOrNone [OF wf_field [OF assms(2)], of "''query''"] by simp
  have upd: "keeps P (if docOrNone (field cmd ''update'') \<noteq> []
      then bindS (op_Update ops (Es 1) db coll
             [\<lparr>um_Filter = docOrNone (field cmd ''query''), um_Update = docOrNone (field cmd ''update''),
               um_Multi = False, um_Upsert = h_truthy (field cmd ''upsert'')\<rparr>]) (\<lambda>_. returnS ())
      else returnS ())" for db
  proof (cases "docOrNone (field cmd ''update'') = []")
    case True
    then show ?thesis by (simp add: keeps_return)
  next
    case False
    with assms(3) have "U (Es 1) (docOrNone (field cmd ''update''))" by (simp add: updates_ok_def)
    with q False show ?thesis
      by (simp only: if_True not_False_eq_True) (intro keeps_bind keeps_return update assms(1) [rule_format], simp)
  qed
  show ?thesis
    unfolding h_findAndModify_def Let_def
    by (intro keeps_bind keeps_if keeps_lift keeps_return find delete upd assms(1) [rule_format])
qed

lemma keeps_rename:
  assumes "\<forall>i. good (Es i)"
  shows "keeps P (h_renameCollection ops Es cmd fromNS)"
proof -
  obtain db coll where src: "splitNamespace fromNS (stringValue (field cmd ''$db'')) = (db, coll)" by fastforce
  have ins: "keeps P (if docs \<noteq> [] then bindS (op_Insert ops (Es 3) db' coll' docs) (\<lambda>_. returnS ()) else returnS ())"
    if "\<forall>d \<in> set docs. W d" for docs db' coll'
    using that by (intro keeps_if keeps_bind keeps_return insert assms [rule_format])
  have "keeps P (bindS (op_Find ops (Es 0) db coll (filterRequest [])) (\<lambda>docs.
      bindS (if h_truthy (field cmd ''dropTarget'') then op_DropCollection ops (Es 1) db' coll' else returnS ()) (\<lambda>_.
      bindS (op_CreateCollection ops (Es 2) db' coll' \<lparr>cc_Validator = []\<rparr>) (\<lambda>_.
      bindS (if docs \<noteq> [] then bindS (op_Insert ops (Es 3) db' coll' docs) (\<lambda>_. returnS ()) else returnS ()) (\<lambda>_.
      bindS (op_DropCollection ops (Es 4) db coll) (\<lambda>_. returnS (okReply [])))))))" for db' coll'
    by (rule maintains_bind [OF findAll])
      (intro keeps_bind keeps_if keeps_return dropColl create ins assms [rule_format] | assumption)+
  then show ?thesis
    unfolding h_renameCollection_def src prod.case
    by (intro keeps_bind keeps_lift) (auto split: prod.split)
qed

lemma keeps_simple:
  assumes "good (Es 0)"
  shows "keeps P (h_createCollection ops Es cmd coll)" "keeps P (h_dropCollection ops Es cmd coll)"
    "keeps P (h_createIndexes ops Es cmd coll)" "keeps P (h_listIndexes ops Es cmd coll)"
    "keeps P (h_find ops Es cmd coll)" "keeps P (h_count ops Es cmd coll)" "keeps P (h_distinct ops Es cmd coll)"
    "keeps P (h_delete ops Es cmd coll)" "keeps P (h_aggregate ops Es cmd coll)"
    "keeps P (h_listCollections ops Es cmd)" "keeps P (h_dropDatabase ops Es cmd)"
  unfolding h_createCollection_def h_dropCollection_def h_createIndexes_def h_listIndexes_def h_find_def h_count_def
    h_distinct_def h_delete_def h_aggregate_def h_listCollections_def h_dropDatabase_def
  by (intro keeps_bind keeps_lift keeps_return reads writes_schema delete assms)+

lemma keeps_handlers:
  assumes "\<forall>i. good (Es i)" and "wf_doc cmd" and "\<forall>i. updates_ok (U (Es i)) cmd"
  shows "\<forall>(name, h) \<in> set (collectionHandlers ops Es cmd). \<forall>coll. keeps P (h coll)"
  using assms keeps_simple [of Es cmd] keeps_insert [of Es cmd] keeps_update [of Es cmd] keeps_findAndModify [of Es cmd]
  by (simp add: collectionHandlers_def keeps_return)

lemma keeps_Handle:
  assumes "\<forall>i. good (Es i)" and "wf_doc cmd" and "\<forall>i. updates_ok (U (Es i)) cmd"
  shows "keeps P (Handle ops Es cmd)"
proof -
  have coll: "keeps P (bindS (liftS (collectionArg name arg)) h)" if "map_of (collectionHandlers ops Es cmd) name = Some h" for name arg h
    using keeps_handlers [OF assms] map_of_SomeD [OF that] by (intro keeps_bind keeps_lift) auto
  have "keeps P (case map_of (collectionHandlers ops Es cmd) name of
        Some h \<Rightarrow> bindS (liftS (collectionArg name arg)) h
      | None \<Rightarrow>
          if name = ''listCollections'' then h_listCollections ops Es cmd
          else if name = ''dropDatabase'' then h_dropDatabase ops Es cmd
          else if name = ''renameCollection'' then h_renameCollection ops Es cmd (stringValue arg)
          else liftS (Err (commandNotFound name)))"
    if "\<And>h. map_of (collectionHandlers ops Es cmd) name = Some h \<Longrightarrow> keeps P (bindS (liftS (collectionArg name arg)) h)"
    for name arg
  proof (cases "map_of (collectionHandlers ops Es cmd) name")
    case None
    show ?thesis
      unfolding None option.case by (intro keeps_if keeps_lift keeps_simple keeps_rename assms(1) [rule_format] assms(1))
  qed (use that in simp)
  from this [OF coll] have "keeps P (dispatch ops Es cmd name arg)" for name arg
    unfolding dispatch_def [abs_def] by (cases "map_of (staticReplies cmd arg) name") (simp_all add: keeps_return)
  then show ?thesis
    unfolding Handle_def by (intro keeps_bind keeps_lift) (auto split: prod.split)
qed

end

section \<open>Other clients\<close>

text \<open>
  The state of a backend together with what other clients do to it: the head of the list happens before the
  next operation of the command. Each operation of a backend is atomic; a command of several operations
  is not.
\<close>

type_synonym 's shared = "'s \<times> ('s \<Rightarrow> 's) list"

fun disturbed :: "('s, 'a) action \<Rightarrow> ('s shared, 'a) action" where
  "disturbed m (s, []) = (case m s of (r, s') \<Rightarrow> (r, (s', [])))"
| "disturbed m (s, f # others) = (case m (f s) of (r, s') \<Rightarrow> (r, (s', others)))"

definition concurrent :: "'s store_ops \<Rightarrow> 's shared store_ops" where
  "concurrent ops =
     \<lparr>op_CreateCollection = (\<lambda>E db c opts. disturbed (op_CreateCollection ops E db c opts)),
      op_ListCollections = (\<lambda>E db flt. disturbed (op_ListCollections ops E db flt)),
      op_DropCollection = (\<lambda>E db c. disturbed (op_DropCollection ops E db c)),
      op_Insert = (\<lambda>E db c docs. disturbed (op_Insert ops E db c docs)),
      op_Find = (\<lambda>E db c req. disturbed (op_Find ops E db c req)),
      op_Count = (\<lambda>E db c flt. disturbed (op_Count ops E db c flt)),
      op_Distinct = (\<lambda>E db c req. disturbed (op_Distinct ops E db c req)),
      op_Update = (\<lambda>E db c ups. disturbed (op_Update ops E db c ups)),
      op_Delete = (\<lambda>E db c dels. disturbed (op_Delete ops E db c dels)),
      op_Aggregate = (\<lambda>E db c pipeline. disturbed (op_Aggregate ops E db c pipeline)),
      op_CreateIndexes = (\<lambda>E db c idx. disturbed (op_CreateIndexes ops E db c idx)),
      op_ListIndexes = (\<lambda>E db c. disturbed (op_ListIndexes ops E db c)),
      op_DropDatabase = (\<lambda>E db. disturbed (op_DropDatabase ops E db))\<rparr>"

text \<open>\<open>P\<close> holds, and the other clients keep it.\<close>

definition calm :: "('s \<Rightarrow> bool) \<Rightarrow> 's shared \<Rightarrow> bool" where
  "calm P sh \<longleftrightarrow> P (fst sh) \<and> (\<forall>f \<in> set (snd sh). \<forall>s. P s \<longrightarrow> P (f s))"

lemma maintains_disturbed: "maintains P m Q \<Longrightarrow> maintains (calm P) (disturbed m) Q"
  unfolding maintains_def
proof (intro allI impI)
  fix sh :: "'a shared"
  assume m: "\<forall>s. P s \<longrightarrow> P (snd (m s)) \<and> (\<forall>x. fst (m s) = Ok x \<longrightarrow> Q x)" and "calm P sh"
  then show "calm P (snd (disturbed m sh)) \<and> (\<forall>x. fst (disturbed m sh) = Ok x \<longrightarrow> Q x)"
    by (induction m sh rule: disturbed.induct) (auto simp: calm_def split: prod.split)
qed

context store_invariant
begin

lemma concurrent_invariant: "store_invariant (concurrent ops) (calm P) good U W"
  by unfold_locales
    (simp_all add: maps concurrent_def maintains_disturbed create listColls dropColl insert find findAll count distinctVals
      update delete aggregate createIndexes listIndexes dropDatabase)

end

end
