(* ===== verification/Tidb_Invariant.thy ===== *)
theory Tidb_Invariant
  imports Tidb_Spec Handler_Invariant
begin

text \<open>
  What stays true of the database of the TiDB backend although any statement may fail: every row holds the text of
  a document under the key of that document, each key once. The locale \<open>store_invariant\<close> carries it to
  every command.
\<close>

section \<open>The invariant\<close>

definition rows_keyed :: "'j extjson \<Rightarrow> ('j \<Rightarrow> 'j option) \<Rightarrow> (string \<Rightarrow> string) \<Rightarrow> (string \<times> 'j) list \<Rightarrow> bool" where
  "rows_keyed X json hex rows \<longleftrightarrow> distinct (keys rows) \<and>
     (\<forall>(k, txt) \<in> set rows. \<exists>d. stored X json d txt \<and> idKey hex d = Ok k)"

text \<open>The names of the tables are those of collections, so \<^verbatim>\<open>dropDatabase\<close> can put them into a statement.\<close>

definition tidb_keyed :: "'j extjson \<Rightarrow> ('j \<Rightarrow> 'j option) \<Rightarrow> (string \<Rightarrow> string) \<Rightarrow> 'j sqlState \<Rightarrow> bool" where
  "tidb_keyed X json hex s \<longleftrightarrow>
     (\<forall>t. rows_keyed X json hex (rowsOf s t)) \<and> (\<forall>t. map_of (sq_tables s) t \<noteq> None \<longrightarrow> safeTable t)"

lemma keyed_setRows:
  "tidb_keyed X json hex s \<Longrightarrow> rows_keyed X json hex rows \<Longrightarrow> safeTable t \<Longrightarrow> tidb_keyed X json hex (setRows t rows s)"
  by (simp add: tidb_keyed_def)

lemma keyed_rows: "tidb_keyed X json hex s \<Longrightarrow> map_of (sq_tables s) t = Some rows \<Longrightarrow> rows_keyed X json hex rows"
  using rowsOf_Some by (metis tidb_keyed_def)

lemma keyed_tables_cong: "tidb_keyed X json hex s \<Longrightarrow> sq_tables s' = sq_tables s \<Longrightarrow> tidb_keyed X json hex s'"
  by (simp add: tidb_keyed_def rowsOf_def)

lemma rows_keyed_Nil [simp]: "rows_keyed X json hex []"
  by (simp add: rows_keyed_def)

lemma rows_keyed_put:
  assumes "rows_keyed X json hex rows" and "stored X json d js" and "idKey hex d = Ok k"
  shows "rows_keyed X json hex (put k js rows)"
  using assms set_put_subset [of k js rows] by (fastforce simp: rows_keyed_def distinct_update)

lemma rows_keyed_del: "rows_keyed X json hex rows \<Longrightarrow> rows_keyed X json hex (del k rows)"
  by (auto simp: rows_keyed_def AList.delete_eq distinct_map_filter split: prod.splits)

lemma keyed_dropTable:
  assumes "tidb_keyed X json hex s"
  shows "tidb_keyed X json hex (s\<lparr>sq_tables := del t (sq_tables s)\<rparr>)"
proof -
  have lookup: "map_of (del t (sq_tables s)) t' = (if t' = t then None else map_of (sq_tables s) t')" for t'
    by (simp add: map_simps)
  from assms have "rows_keyed X json hex (rowsOf s t')" and "map_of (sq_tables s) t' \<noteq> None \<longrightarrow> safeTable t'" for t'
    by (simp_all add: tidb_keyed_def)
  moreover have "rowsOf (s\<lparr>sq_tables := del t (sq_tables s)\<rparr>) t' = (if t' = t then [] else rowsOf s t')" for t'
    by (simp add: rowsOf_def lookup)
  ultimately show ?thesis unfolding tidb_keyed_def by (auto simp: lookup)
qed

text \<open>A statement that writes a document writes it under its key.\<close>

fun stmt_keyed :: "'j extjson \<Rightarrow> (string \<Rightarrow> string) \<Rightarrow> 'j stmt \<Rightarrow> bool" where
  "stmt_keyed X hex (InsertDoc t k raw) = (\<exists>d. MarshalExtJSON X d = Ok raw \<and> idKey hex d = Ok k)"
| "stmt_keyed X hex (ReplaceDoc t k raw) = (\<exists>d. MarshalExtJSON X d = Ok raw \<and> idKey hex d = Ok k)"
| "stmt_keyed X hex _ = True"

lemma runs_keyed:
  assumes "tidb_keyed X json hex s" and "runs json st s s'" and "wf_stmt st" and "stmt_keyed X hex st"
  shows "tidb_keyed X json hex s'"
proof -
  from assms(2) obtain i where run: "run json i st s = Some s'" by (auto simp: runs_def)
  have written: "tidb_keyed X json hex (setRows t (put k js rows) s)"
    if "map_of (sq_tables s) t = Some rows" "json raw = Some js" "safeTable t"
      "\<exists>d. MarshalExtJSON X d = Ok raw \<and> idKey hex d = Ok k" for t rows raw js k
    using that keyed_rows [OF assms(1) that(1)]
    by (auto simp: stored_def intro!: keyed_setRows [OF assms(1)] rows_keyed_put)
  show ?thesis
  proof (cases st)
    case (InsertDoc t k raw)
    with run assms(3,4) obtain rows js where "map_of (sq_tables s) t = Some rows" "json raw = Some js"
      "s' = setRows t (put k js rows) s" by (auto split: option.splits if_splits)
    with written InsertDoc assms(3,4) show ?thesis by auto
  next
    case (ReplaceDoc t k raw)
    with run assms(3,4) obtain rows js where "map_of (sq_tables s) t = Some rows" "json raw = Some js"
      "s' = setRows t (put k js rows) s" by (auto split: option.splits if_splits)
    with written ReplaceDoc assms(3,4) show ?thesis by auto
  next
    case (DeleteDoc t k)
    with run assms(1,3) keyed_rows show ?thesis
      by (auto intro!: keyed_setRows rows_keyed_del split: option.splits)
  qed (use run assms(1,3,4) in \<open>auto intro: keyed_setRows keyed_dropTable keyed_tables_cong simp: Let_def
      split: option.splits if_splits\<close>)
qed

section \<open>Operations\<close>

lemma keeps_fold: "(\<And>x. x \<in> set xs \<Longrightarrow> keeps P (f x)) \<Longrightarrow> keeps P (foldS f xs)"
proof (induction xs)
  case Nil
  show ?case by (simp add: maintains_def)
next
  case (Cons x xs)
  have "foldS f (x # xs) = bindS (f x) (\<lambda>_. foldS f xs)" by (rule ext) simp
  with Cons show ?case by (simp only:) (intro keeps_bind, auto)
qed

lemma keeps_case_option: "keeps P m \<Longrightarrow> (\<And>x. keeps P (f x)) \<Longrightarrow> keeps P (case o' of None \<Rightarrow> m | Some x \<Rightarrow> f x)"
  by (cases o') simp_all

lemma listCollections_render:
  "listCollectionsSQL db flt = render_query (ListCollections db (as_string (field flt ''name'')))"
proof -
  have cong: "as_string (field f ''name'') = as_string (field f' ''name'') \<Longrightarrow> listCollectionsSQL db f = listCollectionsSQL db f'"
    for f f' by (simp add: listCollectionsSQL_def)
  have "as_string (field flt ''name'') =
      as_string (field (case as_string (field flt ''name'') of None \<Rightarrow> [] | Some n \<Rightarrow> [(''name'', GString n)]) ''name'')"
    by (cases "as_string (field flt ''name'')") (simp_all add: field_def)
  from cong [OF this] show ?thesis by (simp only: render_query.simps)
qed

lemma BuildFindSQL_render:
  "BuildFindSQL E db c req = Ok sql \<Longrightarrow> \<exists>y. wf_query y \<and> sql = render_query y"
proof -
  assume sql: "BuildFindSQL E db c req = Ok sql"
  have "\<exists>k l. sql = render_query (SelectDocs (PhysicalTableName db c) k l)"
    using sql unfolding BuildFindSQL_eq Let_def by (auto simp only: mapR_eq_Ok res.inject split: if_splits)
  then show ?thesis by (metis wf_query.simps(1) safeTable_Physical)
qed

text \<open>
  What creating a collection and reading its options need of a database to keep a property \<open>P\<close> of it: queries and the
  statements that store no document keep \<open>P\<close>.
\<close>

fun catalogStmt :: "'j stmt \<Rightarrow> bool" where
  "catalogStmt (CreateTable t) = True"
| "catalogStmt (UpsertCollection db c t raw) = True"
| "catalogStmt _ = False"

locale catalog_database =
  fixes D :: "('q, 'j) sqldb" and X :: "'j extjson" and P :: "'q \<Rightarrow> bool"
  assumes keeps_catalog: "wf_stmt st \<Longrightarrow> catalogStmt st \<Longrightarrow> keeps P (db_exec D (render st))"
    and keeps_asking: "wf_query y \<Longrightarrow> keeps P (db_query D (render_query y))"
begin

lemma keeps_queryRow: "wf_query y \<Longrightarrow> keeps P (queryRow D (render_query y) f)"
  unfolding queryRow_def by (intro keeps_bind keeps_asking keeps_lift)

lemma keeps_ensure: "keeps (P) (tidb_ensureCollection D (PhysicalTableName db c))"
  using keeps_catalog [of "CreateTable (PhysicalTableName db c)"] by (simp add: tidb_ensureCollection_def)

lemma keeps_options: "keeps P (tidb_collectionOptions D X db c)"
  using keeps_queryRow [of "SelectOptions db c"] unfolding tidb_collectionOptions_def
  by (intro keeps_bind keeps_case_option keeps_return keeps_lift) simp

lemma keeps_validator: "keeps P (tidb_collectionValidator D X db c)"
  unfolding tidb_collectionValidator_def by (intro keeps_bind keeps_options keeps_return)

lemma keeps_create: "keeps (P) (tidb_CreateCollection D X E db c opts)"
proof -
  have "keeps (P) (db_exec D (upsertCollectionSQL db c t raw))" for t raw
    using keeps_catalog [of "UpsertCollection db c t raw"] by simp
  then show ?thesis
    unfolding tidb_CreateCollection_def Let_def by (intro keeps_bind keeps_lift keeps_ensure keeps_options)
qed

end

text \<open>
  What all operations need: every statement the program can write keeps \<open>P\<close>, and the tables a query shows can be put
  into a statement. Inside a transaction \<open>T\<close> holds as well, as long as its statements succeed.
\<close>

locale keyed_database =
  fixes D :: "('q, 'j) sqldb" and X :: "'j extjson" and hex :: "string \<Rightarrow> string"
    and P :: "'q \<Rightarrow> bool" and T :: "'q \<Rightarrow> bool"
  assumes keeps_exec: "wf_stmt st \<Longrightarrow> stmt_keyed X hex st \<Longrightarrow> keeps P (db_exec D (render st))"
    and keeps_query: "wf_query y \<Longrightarrow> keeps P (db_query D (render_query y))"
    and shown_safe: "maintains P (db_query D (render_query (ShowTables pattern)))
      (\<lambda>(rows, e). e = None \<longrightarrow> (\<forall>row \<in> set rows. \<exists>t. row = [SqlText t] \<and> safeTable t))"
    and begins: "P q \<Longrightarrow> tx_begin D q = (r, q') \<Longrightarrow> P q' \<and> (r = Ok () \<longrightarrow> T q')"
    and inserts: "P q \<Longrightarrow> T q \<Longrightarrow> safeTable t \<Longrightarrow> stmt_keyed X hex (InsertDoc t k raw) \<Longrightarrow>
      tx_exec D (render (InsertDoc t k raw)) q = (r, q') \<Longrightarrow> P q' \<and> (r = Ok () \<longrightarrow> T q')"
    and commits: "P q \<Longrightarrow> T q \<Longrightarrow> tx_commit D q = (r, q') \<Longrightarrow> P q'"
    and rollbacks: "keeps P (tx_rollback D)"

sublocale keyed_database \<subseteq> catalog_database D X P
proof unfold_locales
  show "keeps P (db_exec D (render st))" if "wf_stmt st" "catalogStmt st" for st
    using that by (intro keeps_exec) (cases st, simp_all)+
qed (rule keeps_query)

context keyed_database
begin

lemma keeps_collectionID: "keeps (P) (tidb_collectionID D db c)"
  using keeps_queryRow [of "SelectId db c"] by (simp add: tidb_collectionID_def)

lemma keeps_drop: "keeps (P) (tidb_DropCollection D E db c)"
  using keeps_exec [of "DropTable (PhysicalTableName db c)"] keeps_exec [of "DeleteCollection db c"]
  by (simp add: tidb_DropCollection_def keeps_bind)

lemma keeps_find: "keeps (P) (tidb_Find D X E db c req)"
  unfolding tidb_Find_def
proof (rule keeps_bind [OF keeps_ensure], rule maintains_bind [where R = "\<lambda>sql. \<exists>y. wf_query y \<and> sql = render_query y"])
  show "maintains (P) (liftS (BuildFindSQL E db c req)) (\<lambda>sql. \<exists>y. wf_query y \<and> sql = render_query y)"
    by (rule maintains_lift) (rule BuildFindSQL_render)
next
  fix sql :: "'j sql" assume "\<exists>y. wf_query y \<and> sql = render_query y"
  then have "keeps (P) (db_query D sql)" using keeps_query by auto
  then show "keeps (P) (bindS (db_query D sql) (\<lambda>rows. bindS (liftS (eachRow (matchRow X E (fr_Filter req)) rows []))
      (\<lambda>matched. returnS (ApplyFindOptions E matched (findOptions req)))))"
    by (intro keeps_bind keeps_lift keeps_return)
qed

lemma keeps_reads:
  "keeps (P) (tidb_Count D X E db c flt)" "keeps (P) (tidb_Distinct D X E db c dreq)"
  "keeps (P) (tidb_Aggregate D X E db c pipeline)" "keeps (P) (tidb_ListCollections D X E db flt)"
  "keeps (P) (tidb_ListIndexes D X E db c)"
proof -
  have "keeps (P) (db_query D (selectIndexesSQL i))" for i using keeps_query [of "SelectIndexes i"] by simp
  then show "keeps (P) (tidb_ListIndexes D X E db c)"
    unfolding tidb_ListIndexes_def by (intro keeps_bind keeps_case_option keeps_return keeps_lift keeps_collectionID)
  show "keeps (P) (tidb_ListCollections D X E db flt)"
    unfolding tidb_ListCollections_def listCollections_render by (intro keeps_bind keeps_lift keeps_query) simp
qed (unfold tidb_Count_def tidb_Distinct_def tidb_Aggregate_def, (intro keeps_bind keeps_find keeps_lift keeps_return)+)

end

section \<open>Operations that write documents\<close>

context keyed_database
begin

lemma keeps_replace:
  assumes "env_oid_hex E = hex"
  shows "keeps (P) (tidb_replaceDocument D X E (PhysicalTableName db c) d)"
  unfolding tidb_replaceDocument_def
proof (rule maintains_bind [where R = "\<lambda>k. idKey hex d = Ok k"])
  fix k assume k: "idKey hex d = Ok k"
  show "keeps (P) (bindS (liftS (MarshalExtJSON X d)) (\<lambda>raw. db_exec D (replaceDocSQL (PhysicalTableName db c) k raw)))"
  proof (rule maintains_bind [where R = "\<lambda>raw. MarshalExtJSON X d = Ok raw"])
    fix raw assume "MarshalExtJSON X d = Ok raw"
    with k keeps_exec [of "ReplaceDoc (PhysicalTableName db c) k raw"]
    show "keeps (P) (db_exec D (replaceDocSQL (PhysicalTableName db c) k raw))" by auto
  qed (auto intro: maintains_lift)
qed (auto intro: maintains_lift simp: DocumentIDKey_idKey [OF assms])

lemma keeps_updateDocs:
  assumes "env_oid_hex E = hex"
  shows "keeps (P) (tidb_updateDocs D X E (PhysicalTableName db c) u docs v)"
  by (induction docs arbitrary: v) (auto intro!: keeps_bind keeps_lift keeps_return keeps_replace [OF assms])

lemma keeps_upsert:
  "env_oid_hex E = hex \<Longrightarrow> keeps (P) (tidb_upsert D X E (PhysicalTableName db c) u v)"
  unfolding tidb_upsert_def Let_def by (intro keeps_if keeps_bind keeps_lift keeps_return keeps_replace)

lemma keeps_updates:
  assumes "env_oid_hex E = hex"
  shows "keeps (P) (tidb_updates D X E (PhysicalTableName db c) docs us v)"
  by (induction us arbitrary: v) (auto intro!: keeps_bind keeps_return keeps_updateDocs [OF assms] keeps_upsert [OF assms])

lemma keeps_update: "env_oid_hex E = hex \<Longrightarrow> keeps (P) (tidb_Update D X E db c us)"
  unfolding tidb_Update_def Let_def by (intro keeps_bind keeps_return keeps_create keeps_find keeps_updates)

lemma keeps_deleteDocs: "keeps (P) (tidb_deleteDocs D E (PhysicalTableName db c) m docs n)"
  using keeps_exec [of "DeleteDoc (PhysicalTableName db c) k" for k]
  by (induction docs arbitrary: n) (auto intro!: keeps_bind keeps_lift keeps_return)

lemma keeps_delete: "keeps (P) (tidb_Delete D X E db c ms)"
proof -
  have "keeps (P) (tidb_deletes D E (PhysicalTableName db c) docs ms n)" for docs n
    by (induction ms arbitrary: n) (auto intro!: keeps_bind keeps_return keeps_deleteDocs)
  then show ?thesis unfolding tidb_Delete_def Let_def by (intro keeps_bind keeps_find)
qed

lemma keeps_createIndexes: "keeps (P) (tidb_CreateIndexes D X E db c idx)"
proof -
  have "keeps (P) (db_exec D (upsertIndexSQL i name raw))" for i name raw
    using keeps_exec [of "UpsertIndex i name raw"] by simp
  then show ?thesis
    unfolding tidb_CreateIndexes_def
    by (intro keeps_bind keeps_case_option keeps_fold keeps_lift keeps_return keeps_create keeps_collectionID)
qed

text \<open>The transaction of an insert.\<close>

lemma insertRows_inside:
  assumes "safeTable t" and "env_oid_hex E = hex" and "foldS (insertRow D X E t v) docs q = (r, q')" and "P q" and "T q"
  shows "P q' \<and> (r = Ok () \<longrightarrow> T q')"
  using assms(3-5)
proof (induction docs arbitrary: q)
  case (Cons d docs)
  obtain r1 q1 where run: "insertRow D X E t v d q = (r1, q1)" by fastforce
  have "P q1 \<and> (r1 = Ok () \<longrightarrow> T q1)"
  proof (cases "ValidateJSONSchema E v d = Ok () \<and> is_Ok (DocumentIDKey E d) \<and> is_Ok (MarshalExtJSON X d)")
    case True
    then obtain k raw where k: "DocumentIDKey E d = Ok k" and raw: "MarshalExtJSON X d = Ok raw" by (auto simp: res_simps)
    with True run have "tx_exec D (render (InsertDoc t k raw)) q = (r1, q1)" by (simp add: insertRow_def run_simps)
    moreover from k raw have "stmt_keyed X hex (InsertDoc t k raw)" by (auto simp: DocumentIDKey_idKey [OF assms(2)])
    ultimately show ?thesis using inserts [OF Cons.prems(2,3) assms(1)] by blast
  next
    case False
    with run Cons.prems(2) show ?thesis
      by (auto simp: insertRow_def bindS_def liftS_def res_simps split: res.splits)
  qed
  with Cons run show ?case by (auto simp: bindS_def split: res.splits)
qed (auto simp: returnS_def)

lemma keeps_transaction:
  assumes "\<And>q r q'. P q \<Longrightarrow> T q \<Longrightarrow> body q = (r, q') \<Longrightarrow> P q' \<and> (r = Ok () \<longrightarrow> T q')"
  shows "keeps P (bindS (tx_begin D) (\<lambda>_. bindS (withRollback (tx_rollback D) body) (\<lambda>_. bindS (tx_commit D) (\<lambda>_. returnS n))))"
  unfolding maintains_def
proof (intro allI impI conjI TrueI)
  fix q assume P: "P q"
  obtain r1 q1 where e1: "tx_begin D q = (r1, q1)" by fastforce
  obtain r2 q2 where e2: "body q1 = (r2, q2)" by fastforce
  obtain r3 q3 where e3: "tx_commit D q2 = (r3, q3)" by fastforce
  have P1: "P q1 \<and> (r1 = Ok () \<longrightarrow> T q1)" using begins [OF P e1] .
  then have P2: "r1 = Ok () \<Longrightarrow> P q2 \<and> (r2 = Ok () \<longrightarrow> T q2)" using assms e2 by blast
  then have P3: "r1 = Ok () \<Longrightarrow> r2 = Ok () \<Longrightarrow> P q3" using commits e3 by blast
  have "r1 = Ok () \<Longrightarrow> P (snd (tx_rollback D q2))" using P2 rollbacks by (simp add: maintains_def)
  with P1 P3 show "P (snd (bindS (tx_begin D)
      (\<lambda>_. bindS (withRollback (tx_rollback D) body) (\<lambda>_. bindS (tx_commit D) (\<lambda>_. returnS n))) q))"
    using e1 e2 e3 by (auto simp: bindS_def withRollback_def returnS_def split: res.split)
qed

lemma keeps_insert:
  assumes "env_oid_hex E = hex"
  shows "keeps (P) (tidb_Insert D X E db c docs)"
  unfolding tidb_Insert_def Let_def
  by (intro keeps_bind [OF keeps_create] keeps_bind [OF keeps_validator] keeps_transaction)
    (rule insertRows_inside [OF safeTable_Physical assms])

text \<open>The tables of a dropped database come from the database itself.\<close>

lemma keeps_dropDatabase: "keeps P (tidb_DropDatabase D E db)"
proof -
  let ?add = "\<lambda>row tables. mapR (\<lambda>table. tables @ [table]) (scan1 scanText row)"
  let ?drop = "\<lambda>tables. bindS (foldS (\<lambda>table. db_exec D (dropTableSQL table)) tables) (\<lambda>_. db_exec D (deleteDatabaseSQL db))"
  have drop: "keeps P (?drop tables)" if "\<forall>t \<in> set tables. safeTable t" for tables
  proof (intro keeps_bind keeps_fold)
    show "keeps P (db_exec D (dropTableSQL t))" if "t \<in> set tables" for t
      using keeps_exec [of "DropTable t"] that \<open>\<forall>t \<in> set tables. safeTable t\<close> by simp
    show "keeps P (db_exec D (deleteDatabaseSQL db))" using keeps_exec [of "DeleteDatabase db"] by simp
  qed
  have read: "\<forall>t \<in> set tables. safeTable t"
    if "\<forall>row \<in> set rows. \<exists>t. row = [SqlText t] \<and> safeTable t" "\<forall>t \<in> set ts. safeTable t" "foldR ?add rows ts = Ok tables"
    for rows :: "'j sqlval list list" and ts tables
    using that
  proof (induction rows arbitrary: ts)
    case (Cons row rows)
    from Cons.prems(1) obtain t where t: "row = [SqlText t]" "safeTable t" by auto
    with Cons.prems(3) have "foldR ?add rows (ts @ [t]) = Ok tables" by simp
    with Cons.IH [of "ts @ [t]"] Cons.prems(1,2) t(2) show ?case by auto
  qed simp
  have safe: "maintains P (liftS (eachRow ?add (rows, e) [])) (\<lambda>tables. \<forall>t \<in> set tables. safeTable t)"
    if "e = None \<longrightarrow> (\<forall>row \<in> set rows. \<exists>t. row = [SqlText t] \<and> safeTable t)" for rows :: "'j sqlval list list" and e
    using that read [of rows "[]"] by (intro maintains_lift) (auto simp: eachRow_def res_simps split: option.splits)
  have "keeps P (bindS (db_query D (render_query (ShowTables pattern))) (\<lambda>rows. bindS (liftS (eachRow ?add rows [])) ?drop))" for pattern
  proof (rule maintains_bind [OF shown_safe])
    fix answer :: "'j sqlrows"
    assume shown: "case answer of (rows, e) \<Rightarrow> e = None \<longrightarrow> (\<forall>row \<in> set rows. \<exists>t. row = [SqlText t] \<and> safeTable t)"
    obtain rows e where answer: "answer = (rows, e)" by fastforce
    with shown have "e = None \<longrightarrow> (\<forall>row \<in> set rows. \<exists>t. row = [SqlText t] \<and> safeTable t)" by simp
    from maintains_bind [OF safe [OF this] drop] show "keeps P (bindS (liftS (eachRow ?add answer [])) ?drop)"
      by (simp only: answer)
  qed
  then show ?thesis unfolding tidb_DropDatabase_def by simp
qed

end

sublocale keyed_database \<subseteq> commands: store_invariant "tidb_ops D X" P "\<lambda>E. env_oid_hex E = hex" "\<lambda>_ _. True" "\<lambda>_. True"
  using keeps_find
  by unfold_locales
    (simp_all add: tidb_ops_def keeps_create keeps_drop keeps_insert keeps_reads keeps_update keeps_delete
      keeps_createIndexes keeps_dropDatabase)

context keyed_database
begin

lemma keeps_command:
  "\<forall>i. env_oid_hex (Es i) = hex \<Longrightarrow> wf_doc cmd \<Longrightarrow> keeps P (Handle (tidb_ops D X) Es cmd)"
  by (rule commands.keeps_Handle) (simp_all add: updates_ok_def)

end

section \<open>A database of one gateway\<close>

text \<open>While a transaction is open nothing is committed, and what it sees is keyed.\<close>

definition keyedAt :: "'j extjson \<Rightarrow> ('j \<Rightarrow> 'j option) \<Rightarrow> (string \<Rightarrow> string) \<Rightarrow> ('q \<Rightarrow> 'j sqlState) \<Rightarrow> 'q \<Rightarrow> bool" where
  "keyedAt X json hex tab q \<longleftrightarrow> tidb_keyed X json hex (tab q)"

lemma shown_tables_safe:
  assumes "tidb_keyed X json hex s" and "answers (ShowTables pattern) s rows" and "row \<in> set rows"
  shows "\<exists>t. row = [SqlText t] \<and> safeTable t"
proof -
  from assms(2) obtain order where order: "mset order = mset (filter (like pattern) (keys (sq_tables s)))"
    "rows = map (\<lambda>t. [SqlText t]) order" by auto
  then have "set order \<subseteq> set (keys (sq_tables s))" by (metis filter_is_subset set_mset_mset)
  moreover have "\<forall>t \<in> set (keys (sq_tables s)). safeTable t"
    using assms(1) by (simp add: tidb_keyed_def map_of_eq_None_iff)
  ultimately show ?thesis using assms(3) order(2) by fastforce
qed

locale faulty_backend = sql_contract D json tab work
  for D :: "('q, 'j) sqldb" and json :: "'j \<Rightarrow> 'j option"
    and tab :: "'q \<Rightarrow> 'j sqlState" and work :: "'q \<Rightarrow> 'j sqlState" +
  fixes X :: "'j extjson" and hex :: "string \<Rightarrow> string"

sublocale faulty_backend \<subseteq> keyed: keyed_database D X hex "keyedAt X json hex tab" "keyedAt X json hex work"
proof unfold_locales
  show "keeps (keyedAt X json hex tab) (db_exec D (render st))" if "wf_stmt st" "stmt_keyed X hex st" for st
  proof -
    have "tidb_keyed X json hex (tab q')" if "db_exec D (render st) q = (r, q')" "tidb_keyed X json hex (tab q)" for q r q'
      using that(1) \<open>wf_stmt st\<close> by (cases rule: exec_cases) (use that(2) runs_keyed \<open>wf_stmt st\<close> \<open>stmt_keyed X hex st\<close> in auto)
    then show ?thesis unfolding maintains_def keyedAt_def by (metis prod.collapse)
  qed
  show query: "keeps (keyedAt X json hex tab) (db_query D (render_query y))" if "wf_query y" for y
    unfolding maintains_def keyedAt_def using query_tab [OF that] by (metis prod.collapse)
  have "\<exists>t. row = [SqlText t] \<and> safeTable t"
    if "keyedAt X json hex tab q" "fst (db_query D (render_query (ShowTables pattern)) q) = Ok (rows, None)" "row \<in> set rows"
    for q pattern rows row
  proof -
    from that(2) obtain q' where "db_query D (render_query (ShowTables pattern)) q = (Ok (rows, None), q')" by (metis prod.collapse)
    then have "answers (ShowTables pattern) (tab q) rows" by (intro query_ok) simp_all
    with that(1,3) shown_tables_safe show ?thesis unfolding keyedAt_def by blast
  qed
  with query [of "ShowTables _"] show "maintains (keyedAt X json hex tab) (db_query D (render_query (ShowTables pattern)))
      (\<lambda>(rows, e). e = None \<longrightarrow> (\<forall>row \<in> set rows. \<exists>t. row = [SqlText t] \<and> safeTable t))" for pattern
    unfolding maintains_def by auto
next
  fix q q' t k raw and r :: "unit res"
  assume "keyedAt X json hex tab q" "keyedAt X json hex work q" and t: "safeTable t" and keyed: "stmt_keyed X hex (InsertDoc t k raw)"
    and run: "tx_exec D (render (InsertDoc t k raw)) q = (r, q')"
  moreover have "keyedAt X json hex work q'" if "r = Ok ()"
    using runs_keyed [OF _ tx_ok [OF t]] run that keyed t calculation(2) by (simp add: keyedAt_def)
  ultimately show "keyedAt X json hex tab q' \<and> (r = Ok () \<longrightarrow> keyedAt X json hex work q')"
    using tx_tab [OF t run] by (simp add: keyedAt_def)
next
  show "keeps (keyedAt X json hex tab) (tx_rollback D)"
    unfolding maintains_def keyedAt_def using rollback_tab by (metis prod.collapse)
qed (use begin_tab begin_ok commit_fails in \<open>(simp add: keyedAt_def, metis)+\<close>)

context faulty_backend
begin

lemmas keeps_command = keyed.keeps_command

end

end
