(* ===== verification/Sql_Shared.thy ===== *)
theory Sql_Shared
  imports Tidb_Invariant
begin

text \<open>
  One TiDB shared by several gateways: between two statements of a gateway the others run statements of their
  own. \<open>gateways\<close> is what they may do to the database, the locale \<open>sql_shared\<close> what TiDB promises to one of them.
  Every command keeps to \<open>gateways\<close> itself, so the assumption about the others is what each of them guarantees.
\<close>

section \<open>What gateways do to a database\<close>

text \<open>Any number of statements that write documents under their keys, one after the other.\<close>

inductive gateways :: "'j extjson \<Rightarrow> ('j \<Rightarrow> 'j option) \<Rightarrow> (string \<Rightarrow> string) \<Rightarrow> 'j sqlState \<Rightarrow> 'j sqlState \<Rightarrow> bool"
  for X json hex where
  stay: "gateways X json hex s s"
| statement: "gateways X json hex s s' \<Longrightarrow> wf_stmt st \<Longrightarrow> stmt_keyed X hex st \<Longrightarrow> runs json st s' s'' \<Longrightarrow> gateways X json hex s s''"

lemma gateways_trans: "gateways X json hex s' s'' \<Longrightarrow> gateways X json hex s s' \<Longrightarrow> gateways X json hex s s''"
  by (induction rule: gateways.induct) (auto intro: gateways.intros)

lemma gateways_keyed: "gateways X json hex s s' \<Longrightarrow> tidb_keyed X json hex s \<Longrightarrow> tidb_keyed X json hex s'"
  by (induction rule: gateways.induct) (auto intro: runs_keyed)

text \<open>The statements of a transaction, when it is committed.\<close>

fun runsAll :: "('j \<Rightarrow> 'j option) \<Rightarrow> 'j stmt list \<Rightarrow> 'j sqlState \<Rightarrow> 'j sqlState \<Rightarrow> bool" where
  "runsAll json [] s s' \<longleftrightarrow> s' = s"
| "runsAll json (st # sts) s s' \<longleftrightarrow> (\<exists>s1. runs json st s s1 \<and> runsAll json sts s1 s')"

lemma gateways_runsAll:
  "runsAll json sts s' s'' \<Longrightarrow> gateways X json hex s s' \<Longrightarrow> \<forall>st \<in> set sts. wf_stmt st \<and> stmt_keyed X hex st \<Longrightarrow> gateways X json hex s s''"
  by (induction sts arbitrary: s') (auto intro: statement)

section \<open>The contract\<close>

text \<open>
  \<open>tab\<close> is what is committed, \<open>pending\<close> the statements of the open transaction. The others run before a statement, or before a
  transaction is committed; what a transaction wrote appears at once.
\<close>

locale sql_shared =
  fixes D :: "('q, 'j) sqldb" and json :: "'j \<Rightarrow> 'j option" and X :: "'j extjson" and hex :: "string \<Rightarrow> string"
    and tab :: "'q \<Rightarrow> 'j sqlState" and pending :: "'q \<Rightarrow> 'j stmt list"
  assumes exec_shared: "wf_stmt st \<Longrightarrow> db_exec D (render st) q = (r, q') \<Longrightarrow>
      \<exists>s. gateways X json hex (tab q) s \<and> (runs json st s (tab q') \<or> tab q' = s \<and> r \<noteq> Ok ())"
    and query_shared: "wf_query y \<Longrightarrow> db_query D (render_query y) q = (answer, q') \<Longrightarrow>
      gateways X json hex (tab q) (tab q') \<and> (\<forall>rows. answer = Ok (rows, None) \<longrightarrow> answers y (tab q') rows)"
    and begin_shared: "tx_begin D q = (r, q') \<Longrightarrow> gateways X json hex (tab q) (tab q') \<and> (r = Ok () \<longrightarrow> pending q' = [])"
    and tx_shared: "safeTable t \<Longrightarrow> tx_exec D (render (InsertDoc t k raw)) q = (r, q') \<Longrightarrow>
      gateways X json hex (tab q) (tab q') \<and> (r = Ok () \<longrightarrow> pending q' = pending q @ [InsertDoc t k raw])"
    and commit_shared: "tx_commit D q = (r, q') \<Longrightarrow>
      \<exists>s. gateways X json hex (tab q) s \<and> (runsAll json (pending q) s (tab q') \<or> tab q' = s \<and> r \<noteq> Ok ())"
    and rollback_shared: "tx_rollback D q = (r, q') \<Longrightarrow> gateways X json hex (tab q) (tab q')"

text \<open>The database started from \<open>s0\<close> with its rows under their keys, and since then only gateways wrote to it.\<close>

definition reached :: "'j extjson \<Rightarrow> ('j \<Rightarrow> 'j option) \<Rightarrow> (string \<Rightarrow> string) \<Rightarrow> 'j sqlState \<Rightarrow> 'j sqlState \<Rightarrow> bool" where
  "reached X json hex s0 s \<longleftrightarrow> tidb_keyed X json hex s0 \<and> gateways X json hex s0 s"

lemma reached_trans: "reached X json hex s0 s \<Longrightarrow> gateways X json hex s s' \<Longrightarrow> reached X json hex s0 s'"
  by (auto simp: reached_def intro: gateways_trans)

lemma reached_keyed: "reached X json hex s0 s \<Longrightarrow> tidb_keyed X json hex s"
  by (auto simp: reached_def intro: gateways_keyed)

definition pending_ok :: "'j extjson \<Rightarrow> (string \<Rightarrow> string) \<Rightarrow> 'j stmt list \<Rightarrow> bool" where
  "pending_ok X hex sts \<longleftrightarrow> (\<forall>st \<in> set sts. wf_stmt st \<and> stmt_keyed X hex st)"

sublocale sql_shared \<subseteq> keyed: keyed_database D X hex "\<lambda>q. reached X json hex s0 (tab q)" "\<lambda>q. pending_ok X hex (pending q)" for s0
proof unfold_locales
  show "keeps (\<lambda>q. reached X json hex s0 (tab q)) (db_exec D (render st))" if "wf_stmt st" "stmt_keyed X hex st" for st
    unfolding maintains_def
  proof (intro allI impI conjI TrueI)
    fix q assume q: "reached X json hex s0 (tab q)"
    obtain r q' where run: "db_exec D (render st) q = (r, q')" by fastforce
    from exec_shared [OF that(1) run] obtain s where s: "gateways X json hex (tab q) s" "runs json st s (tab q') \<or> tab q' = s" by blast
    from s(2) have "gateways X json hex s (tab q')" using statement [OF stay that] by (auto intro: stay)
    with q s(1) show "reached X json hex s0 (tab (snd (db_exec D (render st) q)))" unfolding run by (auto intro: reached_trans)
  qed
  show query: "keeps (\<lambda>q. reached X json hex s0 (tab q)) (db_query D (render_query y))" if "wf_query y" for y
    unfolding maintains_def using query_shared [OF that] reached_trans by (metis prod.collapse)
  have "\<exists>t. row = [SqlText t] \<and> safeTable t"
    if "reached X json hex s0 (tab q)" "fst (db_query D (render_query (ShowTables pattern)) q) = Ok (rows, None)" "row \<in> set rows"
    for q pattern rows row
  proof -
    from that(2) obtain q' where run: "db_query D (render_query (ShowTables pattern)) q = (Ok (rows, None), q')" by (metis prod.collapse)
    have "gateways X json hex (tab q) (tab q')" and rows: "answers (ShowTables pattern) (tab q') rows"
      using query_shared [OF _ run] by auto
    then have "tidb_keyed X json hex (tab q')" using that(1) reached_trans reached_keyed by blast
    from shown_tables_safe [OF this rows that(3)] show ?thesis .
  qed
  with query [of "ShowTables _"] show "maintains (\<lambda>q. reached X json hex s0 (tab q)) (db_query D (render_query (ShowTables pattern)))
      (\<lambda>(rows, e). e = None \<longrightarrow> (\<forall>row \<in> set rows. \<exists>t. row = [SqlText t] \<and> safeTable t))" for pattern
    unfolding maintains_def by auto
next
  fix q q' and r :: "unit res"
  assume "reached X json hex s0 (tab q)" "tx_begin D q = (r, q')"
  then show "reached X json hex s0 (tab q') \<and> (r = Ok () \<longrightarrow> pending_ok X hex (pending q'))"
    using begin_shared reached_trans by (fastforce simp: pending_ok_def)
next
  fix q q' t k raw and r :: "unit res"
  assume "reached X json hex s0 (tab q)" "pending_ok X hex (pending q)" "safeTable t" "stmt_keyed X hex (InsertDoc t k raw)"
    and run: "tx_exec D (render (InsertDoc t k raw)) q = (r, q')"
  then show "reached X json hex s0 (tab q') \<and> (r = Ok () \<longrightarrow> pending_ok X hex (pending q'))"
    using tx_shared [OF _ run] reached_trans by (auto simp: pending_ok_def)
next
  fix q q' and r :: "unit res"
  assume q: "reached X json hex s0 (tab q)" "pending_ok X hex (pending q)" and run: "tx_commit D q = (r, q')"
  from commit_shared [OF run] obtain s where s: "gateways X json hex (tab q) s" "runsAll json (pending q) s (tab q') \<or> tab q' = s" by blast
  then have "gateways X json hex (tab q) (tab q')" using gateways_runsAll q(2) unfolding pending_ok_def by blast
  with q(1) show "reached X json hex s0 (tab q')" by (rule reached_trans)
next
  show "keeps (\<lambda>q. reached X json hex s0 (tab q)) (tx_rollback D)"
    unfolding maintains_def using rollback_shared reached_trans by (metis prod.collapse)
qed

context sql_shared
begin

lemmas command_reached = keyed.keeps_command

end

section \<open>Whose statements ran\<close>

text \<open>
  The contract with \<open>mine\<close>, the statements of this gateway that took effect, in their order: a statement of this gateway that is
  answered with success is among them, and so are all the statements of a transaction when it is committed. The others do not
  add to it.
\<close>

locale sql_gateway =
  fixes D :: "('q, 'j) sqldb" and json :: "'j \<Rightarrow> 'j option" and X :: "'j extjson" and hex :: "string \<Rightarrow> string"
    and tab :: "'q \<Rightarrow> 'j sqlState" and pending :: "'q \<Rightarrow> 'j stmt list" and mine :: "'q \<Rightarrow> 'j stmt list"
  assumes exec_mine: "wf_stmt st \<Longrightarrow> db_exec D (render st) q = (r, q') \<Longrightarrow>
      \<exists>s. gateways X json hex (tab q) s \<and> (runs json st s (tab q') \<and> mine q' = mine q @ [st] \<or> tab q' = s \<and> mine q' = mine q \<and> r \<noteq> Ok ())"
    and query_mine: "wf_query y \<Longrightarrow> db_query D (render_query y) q = (answer, q') \<Longrightarrow>
      gateways X json hex (tab q) (tab q') \<and> mine q' = mine q \<and> (\<forall>rows. answer = Ok (rows, None) \<longrightarrow> answers y (tab q') rows)"
    and begin_mine: "tx_begin D q = (r, q') \<Longrightarrow>
      gateways X json hex (tab q) (tab q') \<and> mine q' = mine q \<and> (r = Ok () \<longrightarrow> pending q' = [])"
    and tx_mine: "safeTable t \<Longrightarrow> tx_exec D (render (InsertDoc t k raw)) q = (r, q') \<Longrightarrow>
      gateways X json hex (tab q) (tab q') \<and> mine q' = mine q \<and> (r = Ok () \<longrightarrow> pending q' = pending q @ [InsertDoc t k raw])"
    and commit_mine: "tx_commit D q = (r, q') \<Longrightarrow> \<exists>s. gateways X json hex (tab q) s \<and>
      (runsAll json (pending q) s (tab q') \<and> mine q' = mine q @ pending q \<or> tab q' = s \<and> mine q' = mine q \<and> r \<noteq> Ok ())"
    and rollback_mine: "tx_rollback D q = (r, q') \<Longrightarrow> gateways X json hex (tab q) (tab q') \<and> mine q' = mine q"

sublocale sql_gateway \<subseteq> sql_shared D json X hex tab pending
  by unfold_locales (blast dest: exec_mine query_mine begin_mine tx_mine commit_mine rollback_mine)+

text \<open>Since \<open>m\<close>, this gateway has written to its catalog at most, and stored no document.\<close>

definition catalogOnly :: "'j stmt list \<Rightarrow> 'j stmt list \<Rightarrow> bool" where
  "catalogOnly m m' \<longleftrightarrow> (\<exists>sts. m' = m @ sts \<and> (\<forall>st \<in> set sts. catalogStmt st))"

lemma catalogOnly_refl [simp]: "catalogOnly m m"
  by (simp add: catalogOnly_def)

lemma catalogOnly_snoc: "catalogOnly m m' \<Longrightarrow> catalogStmt st \<Longrightarrow> catalogOnly m (m' @ [st])"
  by (fastforce simp: catalogOnly_def)

sublocale sql_gateway \<subseteq> catalog: catalog_database D X "\<lambda>q. catalogOnly m (mine q)" for m
proof unfold_locales
  show "keeps (\<lambda>q. catalogOnly m (mine q)) (db_exec D (render st))" if "wf_stmt st" "catalogStmt st" for st
    unfolding maintains_def using exec_mine [OF that(1)] catalogOnly_snoc [OF _ that(2)] by (metis prod.collapse)
  show "keeps (\<lambda>q. catalogOnly m (mine q)) (db_query D (render_query y))" if "wf_query y" for y
    unfolding maintains_def using query_mine [OF that] by (metis prod.collapse)
qed

section \<open>An insert\<close>

context sql_gateway
begin

definition calmly :: "'q \<Rightarrow> 'q \<Rightarrow> bool" where
  "calmly q q' \<longleftrightarrow> gateways X json hex (tab q) (tab q') \<and> catalogOnly (mine q) (mine q')"

lemma calmly_trans: "calmly q q' \<Longrightarrow> calmly q' q'' \<Longrightarrow> calmly q q''"
  by (auto simp: calmly_def catalogOnly_def intro: gateways_trans)

lemma idle: "gateways X json hex (tab q) (tab q') \<Longrightarrow> mine q' = mine q \<Longrightarrow> calmly q q'"
  by (simp add: calmly_def)

lemma insertRow_pending:
  assumes "insertRow D X E t v d q = (r, q')" and "safeTable t"
  shows "gateways X json hex (tab q) (tab q') \<and> mine q' = mine q \<and> (r = Ok () \<longrightarrow> (\<exists>k raw. DocumentIDKey E d = Ok k \<and>
    MarshalExtJSON X d = Ok raw \<and> pending q' = pending q @ [InsertDoc t k raw]))"
proof (cases "ValidateJSONSchema E v d = Ok () \<and> is_Ok (DocumentIDKey E d) \<and> is_Ok (MarshalExtJSON X d)")
  case True
  then obtain k raw where k: "DocumentIDKey E d = Ok k" "MarshalExtJSON X d = Ok raw" by (auto simp: res_simps)
  with True assms(1) have "tx_exec D (render (InsertDoc t k raw)) q = (r, q')" by (simp add: insertRow_def run_simps)
  with k tx_mine [OF assms(2) this] show ?thesis by auto
next
  case False
  with assms(1) show ?thesis by (auto simp: insertRow_def bindS_def liftS_def res_simps intro: stay split: res.splits)
qed

lemma insertRows_pending:
  assumes "foldS (insertRow D X E t v) docs q = (r, q')" and "safeTable t"
  shows "gateways X json hex (tab q) (tab q') \<and> mine q' = mine q \<and> (r = Ok () \<longrightarrow> (\<exists>ks raws. map (DocumentIDKey E) docs = map Ok ks \<and>
    map (MarshalExtJSON X) docs = map Ok raws \<and> pending q' = pending q @ map2 (InsertDoc t) ks raws))"
  using assms(1)
proof (induction docs arbitrary: q)
  case (Cons d docs)
  obtain r1 q1 where run: "insertRow D X E t v d q = (r1, q1)" by fastforce
  note first = insertRow_pending [OF run assms(2)]
  show ?case
  proof (cases "r1 = Ok ()")
    case False
    with run Cons.prems first show ?thesis by (cases r1) (auto simp: bindS_def)
  next
    case True
    with run Cons.prems have "foldS (insertRow D X E t v) docs q1 = (r, q')" by (simp add: bindS_def)
    from Cons.IH [OF this] have rest: "gateways X json hex (tab q1) (tab q')" "mine q' = mine q1"
      "r = Ok () \<longrightarrow> (\<exists>ks raws. map (DocumentIDKey E) docs = map Ok ks \<and>
        map (MarshalExtJSON X) docs = map Ok raws \<and> pending q' = pending q1 @ map2 (InsertDoc t) ks raws)" by blast+
    from first True obtain k raw where k: "DocumentIDKey E d = Ok k" "MarshalExtJSON X d = Ok raw"
      "pending q1 = pending q @ [InsertDoc t k raw]" by blast
    have "\<exists>ks raws. map (DocumentIDKey E) (d # docs) = map Ok ks \<and> map (MarshalExtJSON X) (d # docs) = map Ok raws \<and>
        pending q' = pending q @ map2 (InsertDoc t) ks raws" if r: "r = Ok ()"
    proof -
      from rest(3) r obtain ks raws where "map (DocumentIDKey E) docs = map Ok ks" "map (MarshalExtJSON X) docs = map Ok raws"
        "pending q' = pending q1 @ map2 (InsertDoc t) ks raws" by blast
      with k show ?thesis by (intro exI [of _ "k # ks"] exI [of _ "raw # raws"]) simp
    qed
    with rest(1,2) first show ?thesis using gateways_trans by metis
  qed
qed (auto simp: returnS_def intro: stay)

end

text \<open>What a transaction of inserts leaves behind.\<close>

lemma runsAll_inserts:
  assumes "runsAll json (map2 (InsertDoc t) ks raws) s s'" and "length ks = length raws"
  shows "\<exists>txts. map json raws = map Some txts \<and> distinct ks \<and> set ks \<inter> set (keys (rowsOf s t)) = {} \<and>
    rowsOf s' t = rowsOf s t @ zip ks txts \<and> (\<forall>t'. t' \<noteq> t \<longrightarrow> rowsOf s' t' = rowsOf s t')"
  using assms(2,1)
proof (induction ks raws arbitrary: s rule: list_induct2)
  case (Cons k ks raw raws)
  then obtain s1 where first: "runs json (InsertDoc t k raw) s s1" and rest: "runsAll json (map2 (InsertDoc t) ks raws) s1 s'" by auto
  from first obtain rows js where k: "map_of (sq_tables s) t = Some rows" "json raw = Some js" "map_of rows k = None"
    "s1 = setRows t (put k js rows) s" by (auto simp: runs_def split: option.splits if_splits)
  have rows: "rowsOf s t = rows" "put k js rows = rows @ [(k, js)]"
    using k(1,3) by (auto simp: rowsOf_Some put_new map_of_eq_None_iff)
  from Cons.IH [OF rest] obtain txts where "map json raws = map Some txts" "distinct ks" "set ks \<inter> set (keys (rowsOf s1 t)) = {}"
    "rowsOf s' t = rowsOf s1 t @ zip ks txts" "\<forall>t'. t' \<noteq> t \<longrightarrow> rowsOf s' t' = rowsOf s1 t'" by blast
  with k rows show ?case by (intro exI [of _ "js # txts"]) (auto simp: map_of_eq_None_iff)
qed simp

context sql_gateway
begin

text \<open>All documents are stored at once, in the state \<open>s\<close>, by the last statements of this gateway.\<close>

definition storedAtOnce :: "goenv \<Rightarrow> string \<Rightarrow> doc list \<Rightarrow> 'q \<Rightarrow> 'q \<Rightarrow> 'j sqlState \<Rightarrow> bool" where
  "storedAtOnce E t docs q q' s \<longleftrightarrow>
     (\<exists>ks raws txts m. map (DocumentIDKey E) docs = map Ok ks \<and> map (MarshalExtJSON X) docs = map Ok raws \<and>
        list_all2 (stored X json) docs txts \<and> distinct ks \<and> set ks \<inter> set (keys (rowsOf s t)) = {} \<and>
        rowsOf (tab q') t = rowsOf s t @ zip ks txts \<and> (\<forall>t'. t' \<noteq> t \<longrightarrow> rowsOf (tab q') t' = rowsOf s t') \<and>
        catalogOnly (mine q) m \<and> mine q' = m @ map2 (InsertDoc t) ks raws)"

lemma commit_inserts:
  assumes "tx_commit D q4 = (r, q')" and "pending q4 = map2 (InsertDoc t) ks raws" and ks: "map (DocumentIDKey E) docs = map Ok ks"
    and raws: "map (MarshalExtJSON X) docs = map Ok raws" and calm: "calmly q q4"
  shows "\<exists>s. gateways X json hex (tab q) s \<and> (tab q' = s \<and> catalogOnly (mine q) (mine q') \<and> r \<noteq> Ok () \<or> storedAtOnce E t docs q q' s)"
proof -
  from commit_mine [OF assms(1)] assms(2) obtain s where gw: "gateways X json hex (tab q4) s" and
    s: "runsAll json (map2 (InsertDoc t) ks raws) s (tab q') \<and> mine q' = mine q4 @ map2 (InsertDoc t) ks raws \<or>
      tab q' = s \<and> mine q' = mine q4 \<and> r \<noteq> Ok ()" by auto
  have len: "length ks = length docs" "length raws = length docs" using ks raws by (metis length_map)+
  have "storedAtOnce E t docs q q' s"
    if all: "runsAll json (map2 (InsertDoc t) ks raws) s (tab q')" and own: "mine q' = mine q4 @ map2 (InsertDoc t) ks raws"
  proof -
    from runsAll_inserts [OF all] len obtain txts where txts: "map json raws = map Some txts"
      and new: "distinct ks" "set ks \<inter> set (keys (rowsOf s t)) = {}" "rowsOf (tab q') t = rowsOf s t @ zip ks txts"
        "\<forall>t'. t' \<noteq> t \<longrightarrow> rowsOf (tab q') t' = rowsOf s t'" by auto
    have "length txts = length docs" using txts len by (metis length_map)
    moreover have "stored X json (docs ! i) (txts ! i)" if "i < length docs" for i
      using txts raws that len \<open>length txts = length docs\<close> unfolding stored_def by (metis nth_map)
    ultimately have "list_all2 (stored X json) docs txts" by (simp add: list_all2_conv_all_nth)
    with new ks raws own calm show ?thesis unfolding storedAtOnce_def calmly_def by blast
  qed
  moreover have "gateways X json hex (tab q) s" using gw calm gateways_trans unfolding calmly_def by blast
  ultimately show ?thesis using s calm unfolding calmly_def by metis
qed

text \<open>What an insert stores appears in one step, between the steps of the others; when it fails, it has stored nothing itself.\<close>

lemma insert_one_step:
  assumes keyed: "tidb_keyed X json hex (tab q)" and hexE: "env_oid_hex E = hex" and run: "tidb_Insert D X E db c docs q = (r, q')"
  shows "\<exists>s. gateways X json hex (tab q) s \<and> (tab q' = s \<and> catalogOnly (mine q) (mine q') \<and> \<not> is_Ok r \<or>
    storedAtOnce E (PhysicalTableName db c) docs q q' s)"
proof -
  have "reached X json hex (tab q) (tab q)" using keyed by (simp add: reached_def stay)
  then have created: "calmly q q1" "reached X json hex (tab q) (tab q1)"
    if "tidb_CreateCollection D X E db c \<lparr>cc_Validator = []\<rparr> q = (r1, q1)" for r1 q1
    using that keyed.keeps_create [of "tab q" E db c "\<lparr>cc_Validator = []\<rparr>"] catalog.keeps_create [of "mine q" E db c "\<lparr>cc_Validator = []\<rparr>"]
    by (auto simp: maintains_def calmly_def reached_def dest: spec [of _ q])
  have validated: "calmly q q2"
    if "tidb_CreateCollection D X E db c \<lparr>cc_Validator = []\<rparr> q = (r1, q1)" "tidb_collectionValidator D X db c q1 = (r2, q2)" for r1 q1 r2 q2
    using created [OF that(1)] that(2) keyed.keeps_validator [of "tab q" db c] catalog.keeps_validator [of "mine q" db c]
    by (auto simp: maintains_def calmly_def reached_def dest: spec [of _ q1])
  note begun = calmly_trans [OF validated idle]
  have failed: ?thesis if "calmly q q'" "\<not> is_Ok r"
    using that unfolding calmly_def by blast
  show ?thesis
    using run
  proof (cases rule: insert_cases)
    case (create r1)
    with created failed show ?thesis by blast
  next
    case (validator q1 r2)
    with validated failed show ?thesis by blast
  next
    case (transaction q1 v q2 r3)
    with begun [OF transaction(1,2)] begin_mine failed show ?thesis by blast
  next
    case (row q1 v q2 q3 r4 q4 r5)
    then have "calmly q q3" using begun [OF row(1,2)] begin_mine by blast
    moreover have "calmly q3 q4" "calmly q4 q'"
      using insertRows_pending [OF row(4) safeTable_Physical] rollback_mine [OF row(6)] by (auto intro: idle)
    ultimately show ?thesis using calmly_trans failed row(7) by blast
  next
    case (commit q1 v q2 q3 q4 r5)
    from insertRows_pending [OF commit(4) safeTable_Physical] begin_mine [OF commit(3)] obtain ks raws
      where ks: "map (DocumentIDKey E) docs = map Ok ks" "map (MarshalExtJSON X) docs = map Ok raws"
        "pending q4 = map2 (InsertDoc (PhysicalTableName db c)) ks raws" by auto
    moreover have "calmly q3 q4" using insertRows_pending [OF commit(4) safeTable_Physical] by (auto intro: idle)
    ultimately have "calmly q q4" using begun [OF commit(1,2)] begin_mine [OF commit(3)] calmly_trans by blast
    from commit_inserts [OF commit(5) ks(3,1,2) this] commit(6) show ?thesis by blast
  qed
qed

end

end
