(* ===== verification/Handler_Contract.thy ===== *)
theory Handler_Contract
  imports Handler_Commands Store_Contract
begin

text \<open>
  What the handlers do over any backend that satisfies the contract of \<open>Store_Contract\<close>. Both backends
  satisfy it, so each lemma of the blocks holds of the commands over either.
\<close>

lemma Matches_Nil [simp]: "Matches E d []"
  by simp

context store_contract
begin

text \<open>A rename that succeeds moves the documents, after what the target held, or in its place.\<close>

lemma rename_moves:
  assumes "inv s" and good: "\<forall>i. good (Es i)"
    and from_ns: "splitNamespace fromNS (stringValue (field cmd ''$db'')) = (db, c)" "named db c"
    and to_ns: "requiredString cmd ''to'' = Ok toNS" "splitNamespace toNS db = (tdb, tc)" "named tdb tc"
    and run: "h_renameCollection ops Es cmd fromNS s = (Ok reply, s')"
  shows "contents s' = (contents s)
    (nsid tdb tc := (if h_truthy (field cmd ''dropTarget'') then {#} else contents s (nsid tdb tc)) + contents s (nsid db c),
     nsid db c := {#})"
proof -
  let ?to = "nsid tdb tc" and ?drop = "h_truthy (field cmd ''dropTarget'')"
  obtain docs s0 where find: "op_Find ops (Es 0) db c (filterRequest []) s = (Ok docs, s0)"
    and docs: "mset docs = contents s (nsid db c)" and s0: "inv s0" "contents s0 = contents s"
    using find_all [OF assms(1) good [rule_format] from_ns(2) exact_Nil, of "0"] by auto
  have wf: "\<forall>d \<in> set docs. storable d"
    using contents_storable [OF assms(1)] docs by (metis set_mset_mset)
  define s1 where "s1 = (if ?drop then snd (op_DropCollection ops (Es 1) tdb tc s0) else s0)"
  have s1: "inv s1" "contents s1 = (if ?drop then (contents s)(?to := {#}) else contents s)"
    "(if ?drop then op_DropCollection ops (Es 1) tdb tc else returnS ()) s0 = (Ok (), s1)"
    using s0 drop_spec [OF s0(1) to_ns(3), of "Es 1"] by (auto simp: s1_def returnS_def)
  obtain s2 where s2: "op_CreateCollection ops (Es 2) tdb tc \<lparr>cc_Validator = []\<rparr> s1 = (Ok (), s2)"
    "inv s2" "contents s2 = contents s1" using create_spec [OF s1(1) to_ns(3)] by metis
  have "bindS (if docs \<noteq> [] then bindS (op_Insert ops (Es 3) tdb tc docs) (\<lambda>_. returnS ()) else returnS ())
      (\<lambda>_. bindS (op_DropCollection ops (Es 4) db c) (\<lambda>_. returnS (okReply []))) s2 = (Ok reply, s')"
    using run by (simp add: h_renameCollection_def from_ns(1) to_ns(1,2) bindS_lift_Ok find bindS_simps s1(3) s2(1))
  then obtain s3 where ins: "(if docs \<noteq> [] then bindS (op_Insert ops (Es 3) tdb tc docs) (\<lambda>_. returnS ()) else returnS ()) s2 = (Ok (), s3)"
    and last: "bindS (op_DropCollection ops (Es 4) db c) (\<lambda>_. returnS (okReply [])) s3 = (Ok reply, s')"
    by (auto simp: bindS_Ok)
  have s3: "inv s3 \<and> contents s3 = (contents s2)(?to := contents s2 ?to + mset docs)"
  proof (cases "docs = []")
    case False
    with ins obtain n where "op_Insert ops (Es 3) tdb tc docs s2 = (Ok n, s3)"
      by (auto simp: bindS_Ok returnS_def)
    with insert_spec [OF s2(2) good [rule_format] to_ns(3) wf this] show ?thesis by simp
  qed (use ins s2 in \<open>simp add: returnS_def\<close>)
  with last drop_spec [of s3 db c "Es 4"] from_ns(2) have "contents s' = (contents s3)(nsid db c := {#})"
    by (auto simp: bindS_def returnS_def)
  with s3 s2 s1(2) docs show ?thesis by (auto simp: fun_eq_iff)
qed

lemma count_is_find_length:
  assumes "inv s" and good: "\<forall>i. good (Es i)" and "named db c" and "exact (Es 0) (contents s (nsid db c)) f"
    and args: "requiredString cmd ''$db'' = Ok db" "docArg cmd ''query'' = Ok f"
  shows "\<exists>docs. fst (op_Find ops (Es 0) db c (filterRequest f) s) = Ok docs \<and>
    fst (h_count ops Es cmd c s) = Ok (okReply [(''n'', GInt64 (word_of_int (int (length docs))))])"
proof -
  obtain docs s' where find: "op_Find ops (Es 0) db c (filterRequest f) s = (Ok docs, s')"
    "mset docs = filter_mset (\<lambda>d. Matches (Es 0) d f) (contents s (nsid db c))"
    by (rule find_all [OF assms(1) good [rule_format] assms(3,4)])
  then have "length docs = size (filter_mset (\<lambda>d. Matches (Es 0) d f) (contents s (nsid db c)))"
    by (metis size_mset)
  moreover obtain n t where "op_Count ops (Es 0) db c f s = (n, t)" by fastforce
  ultimately show ?thesis
    using count_spec [OF assms(1) good [rule_format] assms(3,4)] find(1)
    by (simp add: h_count_def args run_simps bindS_simps)
qed

end

lemma reply_value: "field (okReply [(''lastErrorObject'', e), (''value'', v)]) ''value'' = v"
  by (simp add: okReply_def field_def)

context store_delete_contract
begin

text \<open>Removing with \<^verbatim>\<open>findAndModify\<close>: one matching document is answered, one is removed; that they are
  the same one does not follow from the contract.\<close>

lemma findAndRemove:
  assumes "inv s" and good: "\<forall>i. good (Es i)" and "named db c" and "exact (Es 0) (contents s (nsid db c)) q"
    and "\<And>d. Matches (Es 0) d q = Matches (Es 1) d q"
    and args: "requiredString cmd ''$db'' = Ok db" "docOrNone (field cmd ''query'') = q" "h_truthy (field cmd ''remove'')"
  shows "\<exists>reply s'. h_findAndModify ops Es cmd c s = (Ok reply, s') \<and>
    (if filter_mset (\<lambda>d. Matches (Es 0) d q) (contents s (nsid db c)) = {#}
       then contents s' = contents s \<and> field reply ''value'' = GDoc []
     else \<exists>answered removed. answered \<in># contents s (nsid db c) \<and> Matches (Es 0) answered q \<and>
       removed \<in># contents s (nsid db c) \<and> Matches (Es 0) removed q \<and> field reply ''value'' = GDoc answered \<and>
       contents s' = (contents s)(nsid db c := contents s (nsid db c) - {#removed#}))"
proof -
  let ?m = "filter_mset (\<lambda>d. Matches (Es 0) d q) (contents s (nsid db c))"
  have m1: "filter_mset (\<lambda>d. Matches (Es 1) d q) (contents s (nsid db c)) = ?m" by (simp add: assms(5))
  obtain docs s0 where find: "op_Find ops (Es 0) db c ((filterRequest q)\<lparr>fr_Limit := 1\<rparr>) s = (Ok docs, s0)"
    and s0: "inv s0" "contents s0 = contents s"
    and docs: "case docs of [] \<Rightarrow> ?m = {#} | d # rest \<Rightarrow> rest = [] \<and> d \<in># contents s (nsid db c) \<and> Matches (Es 0) d q"
    by (rule find_one [OF assms(1) good [rule_format] assms(3,4)])
  show ?thesis
  proof (cases docs)
    case Nil
    with find have "h_findAndModify ops Es cmd c s =
        (Ok (okReply [(''lastErrorObject'', GDoc [(''n'', int32_of_length docs)]), (''value'', GDoc [])]), s0)"
      by (simp add: h_findAndModify_def Let_def args run_simps bindS_simps headDoc_def optDoc_def)
    with Nil docs s0 show ?thesis by (simp add: reply_value)
  next
    case (Cons d rest)
    with docs have d: "d \<in># contents s (nsid db c)" "Matches (Es 0) d q" by auto
    then have "d \<in># ?m" by simp
    then have "?m \<noteq> {#}" by force
    from delete_one_spec [OF s0(1) good [rule_format, of 1] assms(3), of q, unfolded s0(2) m1] this
    obtain n s' e where
      del: "op_Delete ops (Es 1) db c [\<lparr>dm_Filter = q, dm_Limit = 1\<rparr>] s0 = (Ok n, s')"
      and e: "e \<in># contents s (nsid db c)" "Matches (Es 0) e q"
      "contents s' = (contents s)(nsid db c := contents s (nsid db c) - {#e#})"
      unfolding assms(5) [symmetric] by (simp only: if_False) blast
    have "h_findAndModify ops Es cmd c s =
        (Ok (okReply [(''lastErrorObject'', GDoc [(''n'', int32_of_length docs)]), (''value'', GDoc d)]), s')"
      using Cons find del by (simp add: h_findAndModify_def Let_def args run_simps bindS_simps headDoc_def optDoc_def)
    then show ?thesis using d e \<open>?m \<noteq> {#}\<close> reply_value by (simp del: filter_mset_eq_conv) blast
  qed
qed

end

end
