(* ===== verification/Tidb_Contract.thy ===== *)
theory Tidb_Contract
  imports Tidb_Spec Handler_Contract
begin

text \<open>
  Over a reliable database the TiDB backend satisfies the contract of \<open>Store_Contract\<close>: the remaining
  operations, and the \<open>sublocale\<close> that gives every lemma of the contract to this backend.
\<close>

lemma runs_DropTable: "runs json (DropTable t) s s' \<Longrightarrow> s' = s\<lparr>sq_tables := del t (sq_tables s)\<rparr>"
  by (auto simp: runs_def split: if_splits)

lemma runs_DeleteDoc:
  "runs json (DeleteDoc t k) s s' \<Longrightarrow> map_of (sq_tables s) t = Some rows \<Longrightarrow> s' = setRows t (del k rows) s"
  by (auto simp: runs_def)

lemma runs_DeleteCollection:
  "runs json (DeleteCollection db c) s s' \<Longrightarrow> s' = s\<lparr>sq_collections := del (db, c) (sq_collections s)\<rparr>"
  by (auto simp: runs_def)

context tidb_backend
begin

section \<open>Insert\<close>

lemma rows_ok_new:
  assumes "map (DocumentIDKey E) docs = map Ok ks" and "distinct ks" and "env_oid_hex E = hex"
    and "list_all2 (stored X json) docs js" and "\<forall>d \<in> set docs. storable X json d"
  shows "rows_ok X json hex (zip ks js) \<and> map (docOf X \<circ> snd) (zip ks js) = docs"
proof -
  from arg_cong [OF assms(1), of length] list_all2_lengthD [OF assms(4)]
  have len: "length ks = length docs" "length js = length docs" by simp_all
  have row: "idKey hex (docs ! i) = Ok (ks ! i) \<and> UnmarshalExtJSON X (js ! i) = Ok (docs ! i)"
    if "i < length docs" for i
  proof -
    from arg_cong [OF assms(1), of "\<lambda>xs. xs ! i"] that len have "DocumentIDKey E (docs ! i) = Ok (ks ! i)" by simp
    moreover have "stored X json (docs ! i) (js ! i)" using assms(4) that by (rule list_all2_nthD)
    ultimately show ?thesis
      using assms(5) that by (simp add: DocumentIDKey_idKey [OF assms(3)] stored_storable)
  qed
  have "map (docOf X \<circ> snd) (zip ks js) = docs"
    by (rule nth_equalityI) (use len row in \<open>auto simp: docOf_def\<close>)
  moreover have "\<exists>d. UnmarshalExtJSON X j = Ok d \<and> storable X json d \<and> idKey hex d = Ok k"
    if "(k, j) \<in> set (zip ks js)" for k j
  proof -
    from that obtain i where "i < length docs" "k = ks ! i" "j = js ! i" by (auto simp: set_zip len)
    with row [of i] assms(5) show ?thesis by auto
  qed
  ultimately show ?thesis using assms(2) len by (auto simp: rows_ok_def)
qed

lemma inv_rows: "tidb_inv X json hex s \<Longrightarrow> rows_ok X json hex (rowsOf s t)"
  by (simp add: tidb_inv_def)

lemma insert_contract:
  assumes inv: "tidb_inv X json hex (tab q)" and "nameable db c" and hexE: "env_oid_hex E = hex"
    and docs: "\<forall>d \<in> set docs. storable X json d" and run: "tidb_Insert D X E db c docs q = (Ok n, q')"
  shows "n = word_of_int (int (length docs)) \<and> tidb_inv X json hex (tab q') \<and>
    tidb_contents X (tab q') = (tidb_contents X (tab q))
      (PhysicalTableName db c := tidb_contents X (tab q) (PhysicalTableName db c) + mset docs)"
proof -
  let ?t = "PhysicalTableName db c"
  obtain q1 where q1: "tidb_CreateCollection D X E db c \<lparr>cc_Validator = []\<rparr> q = (Ok (), q1)"
    "tidb_inv X json hex (tab q1)" "rowsOf (tab q1) = rowsOf (tab q)" by (rule create_total [OF inv assms(2)])
  from run q1(1) obtain v q2 q3 q4 where q2: "tidb_collectionValidator D X db c q1 = (Ok v, q2)"
    and q3: "tx_begin D q2 = (Ok (), q3)" and q4: "foldS (insertRow D X E ?t v) docs q3 = (Ok (), q4)"
    and q': "tx_commit D q4 = (Ok (), q')" and n: "n = word_of_int (int (length docs))"
    by (auto simp: tidb_Insert_def Let_def bindS_Ok returnS_def withRollback_Ok)
  have w3: "work q3 = tab q1" using begin_ok [OF q3] validator_tab [OF q2] by simp
  obtain ks js where ks: "map (DocumentIDKey E) docs = map Ok ks" "distinct ks"
    "set ks \<inter> set (keys (rowsOf (tab q) ?t)) = {}" "list_all2 (stored X json) docs js"
    "rowsOf (tab q') ?t = rowsOf (tab q) ?t @ zip ks js"
    "\<forall>t'. t' \<noteq> ?t \<longrightarrow> rowsOf (tab q') t' = rowsOf (tab q) t'" "sq_collections (tab q') = sq_collections (tab q1)"
    using insertRows_Ok [OF q4 safeTable_Physical] unfolding w3 commit_ok [OF q'] q1(3) by blast
  from rows_ok_new [OF ks(1,2) hexE ks(4) docs]
  have new: "rows_ok X json hex (zip ks js)" "map (docOf X \<circ> snd) (zip ks js) = docs" by auto
  have "set (keys (zip ks js)) \<subseteq> set ks" by (auto dest: set_zip_leftD)
  with ks(3) have "rows_ok X json hex (rowsOf (tab q) ?t @ zip ks js)"
    by (intro rows_ok_append [OF inv_rows [OF inv] new(1)]) blast
  then have "rows_ok X json hex (rowsOf (tab q') t')" for t'
    using ks(5,6) inv_rows [OF inv] by (cases "t' = ?t") simp_all
  then have "tidb_inv X json hex (tab q')" using q1(2) ks(7) by (simp add: tidb_inv_def)
  moreover have "tidb_contents X (tab q') = (tidb_contents X (tab q)) (?t := tidb_contents X (tab q) ?t + mset docs)"
    using ks(5,6) new(2) by (auto simp: tidb_contents_def fun_eq_iff mset_map [symmetric] simp del: mset_map)
  ultimately show ?thesis using n by simp
qed

section \<open>Drop\<close>

lemma drop_contract:
  assumes inv: "tidb_inv X json hex (tab q)" and "nameable db c"
  shows "\<exists>q'. tidb_DropCollection D E db c q = (Ok (), q') \<and> tidb_inv X json hex (tab q') \<and>
    tidb_contents X (tab q') = (tidb_contents X (tab q)) (PhysicalTableName db c := {#})"
proof -
  let ?t = "PhysicalTableName db c"
  obtain q1 where q1: "db_exec D (render (DropTable ?t)) q = (Ok (), q1)" "runs json (DropTable ?t) (tab q) (tab q1)"
    by (rule execute [of "DropTable ?t" q]) (use assms(2) in \<open>simp_all add: nameable_def\<close>)
  obtain q2 where q2: "db_exec D (render (DeleteCollection db c)) q1 = (Ok (), q2)"
    "runs json (DeleteCollection db c) (tab q1) (tab q2)"
    by (rule execute [of "DeleteCollection db c" q1]) simp_all
  have s: "tab q2 = (tab q)\<lparr>sq_tables := del ?t (sq_tables (tab q)),
      sq_collections := del (db, c) (sq_collections (tab q))\<rparr>"
    using runs_DropTable [OF q1(2)] runs_DeleteCollection [OF q2(2)] by simp
  have rows: "rowsOf (tab q2) t = (if t = ?t then [] else rowsOf (tab q) t)" for t
    by (simp add: s rowsOf_def map_simps)
  have "tidb_inv X json hex (tab q2)"
    using inv rows by (auto simp: tidb_inv_def s map_simps split: if_splits)
  with q1(1) q2(1) rows show ?thesis
    by (intro exI [of _ q2]) (auto simp: tidb_DropCollection_def bindS_simps tidb_contents_def fun_eq_iff)
qed

section \<open>Delete\<close>

lemma find_all_total:
  assumes "tidb_inv X json hex (tab q)" and "nameable db c" and "env_oid_hex E = hex"
  obtains docs q1 where "mset docs = tidb_contents X (tab q) (PhysicalTableName db c)"
    and "tidb_Find D X E db c (filterRequest []) q = (Ok docs, q1)" and "tidb_inv X json hex (tab q1)"
    and "rowsOf (tab q1) = rowsOf (tab q)"
    and "map_of (sq_tables (tab q1)) (PhysicalTableName db c) = Some (rowsOf (tab q) (PhysicalTableName db c))"
proof -
  obtain docs q1 where "mset docs = tidb_contents X (tab q) (PhysicalTableName db c)"
    "tidb_Find D X E db c (filterRequest []) q = (Ok docs, q1)" "tidb_inv X json hex (tab q1)"
    "rowsOf (tab q1) = rowsOf (tab q)" "map_of (sq_tables (tab q1)) (PhysicalTableName db c) \<noteq> None"
    using find_total [OF assms, of "filterRequest []"]
    by (auto simp: tidb_exact_def filterRequest_def findOptions_def ApplyFindOptions_all)
  then show thesis using that rowsOf_Some by (metis option.exhaust)
qed

text \<open>A deletion with limit 1 removes the first document that matches.\<close>

lemma deleteDocs_none:
  "filter (\<lambda>d. Matches E d f) ds = [] \<Longrightarrow> tidb_deleteDocs D E t \<lparr>dm_Filter = f, dm_Limit = 1\<rparr> ds n q = (Ok n, q)"
  by (induction ds) (auto simp: returnS_def split: if_splits)

lemma deleteDocs_first:
  "filter (\<lambda>d. Matches E d f) ds = d # rest \<Longrightarrow> tidb_deleteDocs D E t \<lparr>dm_Filter = f, dm_Limit = 1\<rparr> ds n q =
    bindS (liftS (DocumentIDKey E d)) (\<lambda>key. bindS (db_exec D (deleteDocSQL t key)) (\<lambda>_. returnS (n + 1))) q"
  by (induction ds) (auto split: if_splits)

lemma delete_row:
  assumes inv: "tidb_inv X json hex (tab q)" and "map_of (sq_tables (tab q)) t = Some (rowsOf (tab q) t)"
    and row: "(k, j) \<in> set (rowsOf (tab q) t)" and "safeTable t"
  obtains q' where "db_exec D (render (DeleteDoc t k)) q = (Ok (), q')" and "tidb_inv X json hex (tab q')"
    and "tidb_contents X (tab q') = (tidb_contents X (tab q)) (t := tidb_contents X (tab q) t - {#docOf X j#})"
proof -
  obtain q' where q': "db_exec D (render (DeleteDoc t k)) q = (Ok (), q')" "runs json (DeleteDoc t k) (tab q) (tab q')"
    by (rule execute [of "DeleteDoc t k" q]) (use assms(2,4) in simp_all)
  have s': "tab q' = setRows t (del k (rowsOf (tab q) t)) (tab q)" by (rule runs_DeleteDoc [OF q'(2) assms(2)])
  have ok: "rows_ok X json hex (rowsOf (tab q) t)" by (rule inv_rows [OF inv])
  then have "map_of (rowsOf (tab q) t) k = Some j" using row by (simp add: rows_ok_def)
  then have "mset (del k (rowsOf (tab q) t)) = mset (rowsOf (tab q) t) - {#(k, j)#}"
    using ok by (intro mset_del_row) (simp_all add: rows_ok_def)
  moreover have "(k, j) \<in># mset (rowsOf (tab q) t)" using row by simp
  ultimately have "mset (map (docOf X \<circ> snd) (del k (rowsOf (tab q) t))) = tidb_contents X (tab q) t - {#docOf X j#}"
    by (simp add: tidb_contents_def image_mset_Diff)
  then have "tidb_contents X (tab q') = (tidb_contents X (tab q)) (t := tidb_contents X (tab q) t - {#docOf X j#})"
    by (auto simp: tidb_contents_def s' fun_eq_iff)
  moreover have "tidb_inv X json hex (tab q')" unfolding s' by (rule inv_setRows [OF inv rows_ok_del [OF ok]])
  ultimately show thesis using that q'(1) by blast
qed

lemma delete_one_total:
  assumes inv: "tidb_inv X json hex (tab q)" and "nameable db c" and hexE: "env_oid_hex E = hex"
  shows "\<exists>n q'. tidb_Delete D X E db c [\<lparr>dm_Filter = f, dm_Limit = 1\<rparr>] q = (Ok n, q') \<and> tidb_inv X json hex (tab q') \<and>
    (if filter_mset (\<lambda>d. Matches E d f) (tidb_contents X (tab q) (PhysicalTableName db c)) = {#}
       then n = 0 \<and> tidb_contents X (tab q') = tidb_contents X (tab q)
     else n = 1 \<and> (\<exists>d. d \<in># tidb_contents X (tab q) (PhysicalTableName db c) \<and> Matches E d f \<and>
       tidb_contents X (tab q') = (tidb_contents X (tab q))
         (PhysicalTableName db c := tidb_contents X (tab q) (PhysicalTableName db c) - {#d#})))"
proof -
  let ?t = "PhysicalTableName db c" and ?m = "\<lparr>dm_Filter = f, dm_Limit = 1\<rparr> :: DeleteModel"
  let ?all = "tidb_contents X (tab q) ?t"
  obtain docs q1 where docs: "mset docs = ?all" and find: "tidb_Find D X E db c (filterRequest []) q = (Ok docs, q1)"
    and q1: "tidb_inv X json hex (tab q1)" "rowsOf (tab q1) = rowsOf (tab q)" "map_of (sq_tables (tab q1)) ?t = Some (rowsOf (tab q) ?t)"
    by (rule find_all_total [OF assms])
  show ?thesis
  proof (cases "filter (\<lambda>d. Matches E d f) docs")
    case Nil
    have "mset (filter (\<lambda>d. Matches E d f) docs) = filter_mset (\<lambda>d. Matches E d f) ?all"
      unfolding docs [symmetric] by (rule mset_filter)
    with Nil have "filter_mset (\<lambda>d. Matches E d f) ?all = {#}" by (simp only: mset.simps)
    moreover have "tidb_Delete D X E db c [?m] q = (Ok 0, q1)"
      using find deleteDocs_none [OF Nil] by (simp add: tidb_Delete_def Let_def bindS_simps returnS_def)
    ultimately show ?thesis using q1(1) contents_cong [OF q1(2)] by (simp only: simp_thms if_True) blast
  next
    case (Cons d rest)
    then have "d \<in> set (filter (\<lambda>d. Matches E d f) docs)" by simp
    then have "d \<in># mset docs" and m: "Matches E d f" by simp_all
    then have d: "d \<in># ?all" "Matches E d f" unfolding docs by simp_all
    then obtain k j where row: "(k, j) \<in> set (rowsOf (tab q) ?t)" "d = docOf X j" by (auto simp: tidb_contents_def)
    obtain q2 where q2: "db_exec D (render (DeleteDoc ?t k)) q1 = (Ok (), q2)" "tidb_inv X json hex (tab q2)"
      "tidb_contents X (tab q2) = (tidb_contents X (tab q1)) (?t := tidb_contents X (tab q1) ?t - {#docOf X j#})"
      by (rule delete_row [OF q1(1) _ _ safeTable_Physical]) (use q1 row in simp_all)
    moreover have "d \<in># filter_mset (\<lambda>d. Matches E d f) ?all" using d by simp
    then have "filter_mset (\<lambda>d. Matches E d f) ?all \<noteq> {#}" by force
    moreover have "tidb_Delete D X E db c [?m] q = (Ok 1, q2)"
      using find deleteDocs_first [OF Cons] row_key [OF inv hexE row(1)] row(2) q2(1)
      by (simp add: tidb_Delete_def Let_def bindS_simps run_simps)
    ultimately show ?thesis using d row(2) contents_cong [OF q1(2)] by (simp del: filter_mset_eq_conv) blast
  qed
qed

section \<open>Finds by identifier\<close>

text \<open>A filter that is pushed down finds the documents under the key of its value, if they match.\<close>

lemma find_pushed:
  assumes inv: "tidb_inv X json hex (tab q)" and "nameable db c" and hexE: "env_oid_hex E = hex"
    and "\<not> isDocument v" and key: "ValueKey E v = Ok k"
  shows "\<exists>docs q'. tidb_Find D X E db c (filterRequest [(''_id'', v)]) q = (Ok docs, q') \<and>
    mset docs = filter_mset (\<lambda>d. DocumentIDKey E d = Ok k \<and> Matches E d [(''_id'', v)])
      (tidb_contents X (tab q) (PhysicalTableName db c))"
proof -
  let ?t = "PhysicalTableName db c" and ?f = "[(''_id'', v)]"
  let ?match = "\<lambda>d. Matches E d ?f" and ?key = "\<lambda>(key, _). None = Some k \<or> Some k = Some key"
  obtain q1 where q1: "tidb_ensureCollection D ?t q = (Ok (), q1)" "rowsOf (tab q1) = rowsOf (tab q)"
    "sq_collections (tab q1) = sq_collections (tab q)" "map_of (sq_tables (tab q1)) ?t \<noteq> None"
    by (rule ensure [OF assms(2)])
  have inv1: "tidb_inv X json hex (tab q1)" by (rule inv_cong [OF inv q1(2,3)])
  have sql: "BuildFindSQL E db c (filterRequest ?f) = (Ok (selectDocsSQL ?t (Some k) None) :: 'j sql res)"
    using assms(4) key by (simp add: BuildFindSQL_eq canPushDownFind_def canPushDownFilter_iff filterRequest_def limitOf_def)
  obtain order q2 where order: "mset order = mset (filter (\<lambda>(key, _). Some k = None \<or> Some k = Some key) (rowsOf (tab q1) ?t))"
    and q2: "bindS (db_query D (selectDocsSQL ?t (Some k) None)) (\<lambda>rows. liftS (eachRow (matchRow X E ?f) rows [])) q1 =
      (Ok (filter ?match (map (docOf X \<circ> snd) order)), q2)"
    by (rule select [OF inv1 q1(4) safeTable_Physical, where k = "Some k" and l = None and E = E and f = ?f])
      (simp del: Matches.simps)
  have run: "tidb_Find D X E db c (filterRequest ?f) q = (Ok (filter ?match (map (docOf X \<circ> snd) order)), q2)"
    using find_run [OF q1(1) sql] q2
    by (simp add: bindS_simps returnS_def filterRequest_def findOptions_def ApplyFindOptions_all)
  have "mset (map (docOf X \<circ> snd) order) = filter_mset (\<lambda>d. DocumentIDKey E d = Ok k) (tidb_contents X (tab q) ?t)"
    by (rule contents_selected) (simp only: order q1(2) rows_of_key [OF inv hexE])
  then have "mset (filter ?match (map (docOf X \<circ> snd) order)) =
      filter_mset ?match (filter_mset (\<lambda>d. DocumentIDKey E d = Ok k) (tidb_contents X (tab q) ?t))"
    by (simp only: mset_filter)
  with run show ?thesis by (auto simp: filter_filter_mset conj_commute)
qed

section \<open>Several deletions\<close>

text \<open>The rows that a deletion without limit leaves, given the documents of the find before it.\<close>

definition spared :: "goenv \<Rightarrow> doc list \<Rightarrow> DeleteModel \<Rightarrow> (string \<times> 'j) list \<Rightarrow> (string \<times> 'j) list" where
  "spared E docs m rows =
     filter (\<lambda>(k, _). \<forall>d \<in> set docs. Matches E d (dm_Filter m) \<longrightarrow> DocumentIDKey E d \<noteq> Ok k) rows"

lemma deleteDocs_total:
  assumes "dm_Limit m \<noteq> 1" and t: "safeTable t" and "map_of (sq_tables (tab q)) t = Some rows"
    and "\<forall>d \<in> set docs. is_Ok (DocumentIDKey E d)"
  shows "\<exists>q'. tidb_deleteDocs D E t m docs n q =
      (Ok (n + word_of_int (int (length (filter (\<lambda>d. Matches E d (dm_Filter m)) docs)))), q') \<and>
    map_of (sq_tables (tab q')) t = Some (spared E docs m rows)"
  using assms(3,4)
proof (induction docs arbitrary: n q rows)
  case Nil
  then show ?case by (simp add: spared_def returnS_def)
next
  case (Cons d docs)
  show ?case
  proof (cases "Matches E d (dm_Filter m)")
    case False
    with Cons.IH [OF Cons.prems(1)] Cons.prems(2) show ?thesis by (simp add: spared_def)
  next
    case True
    from Cons.prems(2) obtain k where k: "DocumentIDKey E d = Ok k" by (auto simp: is_Ok_iff)
    obtain q1 where q1: "db_exec D (render (DeleteDoc t k)) q = (Ok (), q1)" "runs json (DeleteDoc t k) (tab q) (tab q1)"
      by (rule execute [of "DeleteDoc t k" q]) (use t Cons.prems(1) in simp_all)
    from q1(2) Cons.prems(1) have "map_of (sq_tables (tab q1)) t = Some (del k rows)"
      using runs_DeleteDoc by fastforce
    from Cons.IH [OF this] Cons.prems(2) obtain q' where
      "tidb_deleteDocs D E t m docs (n + 1) q1 =
        (Ok (n + 1 + word_of_int (int (length (filter (\<lambda>d. Matches E d (dm_Filter m)) docs)))), q')"
      "map_of (sq_tables (tab q')) t = Some (spared E docs m (del k rows))" by auto
    moreover have "spared E docs m (del k rows) = spared E (d # docs) m rows"
      using True k by (auto simp: spared_def AList.delete_eq filter_filter case_prod_beta intro: filter_cong)
    ultimately show ?thesis
      using True k q1(1) assms(1) by (intro exI [of _ q']) (simp add: bindS_simps liftS_def add.assoc)
  qed
qed

lemma deletes_total:
  assumes t: "safeTable t" and "\<forall>m \<in> set ms. dm_Limit m \<noteq> 1" and "map_of (sq_tables (tab q)) t = Some rows"
    and ids: "\<forall>d \<in> set docs. is_Ok (DocumentIDKey E d)"
  shows "\<exists>q'. tidb_deletes D E t docs ms n q =
      (Ok (n + (\<Sum>m \<leftarrow> ms. word_of_int (int (length (filter (\<lambda>d. Matches E d (dm_Filter m)) docs))))), q') \<and>
    map_of (sq_tables (tab q')) t = Some (fold (spared E docs) ms rows)"
  using assms(2,3)
proof (induction ms arbitrary: n q rows)
  case (Cons m ms)
  from Cons.prems(1) have "dm_Limit m \<noteq> 1" by simp
  from deleteDocs_total [OF this t Cons.prems(2) ids, of n] obtain q1 where
    q1: "tidb_deleteDocs D E t m docs n q =
      (Ok (n + word_of_int (int (length (filter (\<lambda>d. Matches E d (dm_Filter m)) docs)))), q1)"
    "map_of (sq_tables (tab q1)) t = Some (spared E docs m rows)" by blast
  have "\<forall>m \<in> set ms. dm_Limit m \<noteq> 1" using Cons.prems(1) by simp
  from Cons.IH [OF this q1(2), of "n + word_of_int (int (length (filter (\<lambda>d. Matches E d (dm_Filter m)) docs)))"]
  show ?case using q1(1) by (simp add: bindS_simps add.assoc)
qed (simp add: returnS_def)

end

section \<open>The backend satisfies the contract\<close>

text \<open>The environments of one deployment: loops are fair and ObjectIDs print one way.\<close>

definition deployed :: "(string \<Rightarrow> string) \<Rightarrow> goenv \<Rightarrow> bool" where
  "deployed hex E \<longleftrightarrow> fair_iter E \<and> env_oid_hex E = hex"

sublocale tidb_backend \<subseteq> store_delete_contract "tidb_ops D X" PhysicalTableName
  "\<lambda>q. tidb_inv X json hex (tab q)" "\<lambda>q. tidb_contents X (tab q)" "deployed hex" nameable "storable X json" tidb_exact
proof unfold_locales
  fix q and d :: doc and ns
  assume inv: "tidb_inv X json hex (tab q)" and d: "d \<in># tidb_contents X (tab q) ns"
  from d obtain k j where row: "(k, j) \<in> set (rowsOf (tab q) ns)" "d = docOf X j"
    by (auto simp: tidb_contents_def)
  from rows_ok_D [OF inv_rows [OF inv] row(1)] show "storable X json d" by (simp add: row(2))
next
  fix E m show "tidb_exact E m []" by (simp add: tidb_exact_def)
next
  fix q E db c and req :: FindRequest
  assume "tidb_inv X json hex (tab q)" "deployed hex E" "nameable db c"
    "tidb_exact E (tidb_contents X (tab q) (PhysicalTableName db c)) (fr_Filter req)"
  from find_total [OF this(1,3) _ this(4)] this(2)
  show "\<exists>found s'. mset found = filter_mset (\<lambda>d. Matches E d (fr_Filter req)) (tidb_contents X (tab q) (PhysicalTableName db c)) \<and>
      op_Find (tidb_ops D X) E db c req q = (Ok (ApplyFindOptions E found (findOptions req)), s') \<and>
      tidb_inv X json hex (tab s') \<and> tidb_contents X (tab s') = tidb_contents X (tab q)"
    using contents_cong by (fastforce simp: tidb_ops_def deployed_def)
next
  fix q E db c f
  assume "tidb_inv X json hex (tab q)" "deployed hex E" "nameable db c"
    "tidb_exact E (tidb_contents X (tab q) (PhysicalTableName db c)) f"
  from find_total [OF this(1,3), of E "filterRequest f"] this(2,4) obtain docs q' where
    docs: "mset docs = filter_mset (\<lambda>d. Matches E d f) (tidb_contents X (tab q) (PhysicalTableName db c))"
    "tidb_Find D X E db c (filterRequest f) q = (Ok docs, q')"
    by (auto simp: deployed_def filterRequest_def findOptions_def ApplyFindOptions_all)
  from arg_cong [OF docs(1), of size] docs(2)
  show "fst (op_Count (tidb_ops D X) E db c f q) = Ok (word_of_int (int (size
      (filter_mset (\<lambda>d. Matches E d f) (tidb_contents X (tab q) (PhysicalTableName db c))))))"
    by (simp add: tidb_ops_def tidb_Count_def bindS_simps returnS_def)
next
  fix q E db c
  assume "tidb_inv X json hex (tab q)" "nameable db c"
  then obtain q' where "tidb_CreateCollection D X E db c \<lparr>cc_Validator = []\<rparr> q = (Ok (), q')"
    "tidb_inv X json hex (tab q')" "rowsOf (tab q') = rowsOf (tab q)" by (rule create_total)
  then show "\<exists>s'. op_CreateCollection (tidb_ops D X) E db c \<lparr>cc_Validator = []\<rparr> q = (Ok (), s') \<and>
      tidb_inv X json hex (tab s') \<and> tidb_contents X (tab s') = tidb_contents X (tab q)"
    using contents_cong by (auto simp: tidb_ops_def)
next
  fix q E db c
  assume "tidb_inv X json hex (tab q)" "nameable db c"
  then show "\<exists>s'. op_DropCollection (tidb_ops D X) E db c q = (Ok (), s') \<and> tidb_inv X json hex (tab s') \<and>
      tidb_contents X (tab s') = (tidb_contents X (tab q))(PhysicalTableName db c := {#})"
    using drop_contract by (simp add: tidb_ops_def)
next
  fix q q' E db c n and docs :: "doc list"
  assume "tidb_inv X json hex (tab q)" "deployed hex E" "nameable db c" "\<forall>d \<in> set docs. storable X json d"
    "op_Insert (tidb_ops D X) E db c docs q = (Ok n, q')"
  then show "n = word_of_int (int (length docs)) \<and> tidb_inv X json hex (tab q') \<and>
      tidb_contents X (tab q') = (tidb_contents X (tab q))
        (PhysicalTableName db c := tidb_contents X (tab q) (PhysicalTableName db c) + mset docs)"
    using insert_contract [of q db c E docs n q'] by (simp add: tidb_ops_def deployed_def)
next
  fix q E db c f
  assume "tidb_inv X json hex (tab q)" "deployed hex E" "nameable db c"
  then show "\<exists>n s'. op_Delete (tidb_ops D X) E db c [\<lparr>dm_Filter = f, dm_Limit = 1\<rparr>] q = (Ok n, s') \<and>
      tidb_inv X json hex (tab s') \<and>
      (if filter_mset (\<lambda>d. Matches E d f) (tidb_contents X (tab q) (PhysicalTableName db c)) = {#}
         then n = 0 \<and> tidb_contents X (tab s') = tidb_contents X (tab q)
       else n = 1 \<and> (\<exists>d. d \<in># tidb_contents X (tab q) (PhysicalTableName db c) \<and> Matches E d f \<and>
         tidb_contents X (tab s') = (tidb_contents X (tab q))
           (PhysicalTableName db c := tidb_contents X (tab q) (PhysicalTableName db c) - {#d#})))"
    using delete_one_total [of q db c E f] by (simp add: tidb_ops_def deployed_def)
qed

end
