(* ===== verification/Sql_Reference.thy ===== *)
theory Sql_Reference
  imports Tidb_Contract
begin

text \<open>
  A database that keeps the contract: it recognises the statements of \<open>Tidb_Sql\<close> by their text, runs
  them as \<open>Sql_Contract\<close> says, and refuses every other statement. The interpretation \<open>ref\<close> shows that
  the contract can be kept, and gives the witnesses of the TiDB properties a database to run on. Its
  Extended JSON text is the document itself.
\<close>

section \<open>Recognising statements\<close>

definition tableAt :: "nat \<Rightarrow> string \<Rightarrow> string" where
  "tableAt n text = takeWhile tableChar (drop n text)"

text \<open>The only statement that can have this text and these arguments.\<close>

fun guess :: "'j sql \<Rightarrow> 'j stmt" where
  "guess (text, [SqlText k, SqlText _, SqlJson raw, SqlJson _]) =
     (if take 1 text = ''I'' then InsertDoc (tableAt 13 text) k raw else ReplaceDoc (tableAt 14 text) k raw)"
| "guess (text, [SqlText k]) = DeleteDoc (tableAt 13 text) k"
| "guess (text, [SqlBytes db, SqlBytes c, SqlText t, SqlJson raw]) = UpsertCollection db c t raw"
| "guess (text, [SqlBytes db, SqlBytes c]) = DeleteCollection db c"
| "guess (text, [SqlBytes db]) = DeleteDatabase db"
| "guess (text, [SqlInt i, SqlText name, SqlJson raw]) = UpsertIndex i name raw"
| "guess (text, _) = (if take 1 text = ''C'' then CreateTable (tableAt 28 text) else DropTable (tableAt 22 text))"

fun guess_query :: "'j sql \<Rightarrow> query" where
  "guess_query (text, [SqlText k, SqlInt n]) = SelectDocs (tableAt 35 text) (Some k) (Some n)"
| "guess_query (text, [SqlText k]) =
     (if take 2 text = ''SH'' then ShowTables k else SelectDocs (tableAt 35 text) (Some k) None)"
| "guess_query (text, [SqlInt n]) =
     (if take 8 text = ''SELECT J'' then SelectDocs (tableAt 35 text) None (Some n) else SelectIndexes n)"
| "guess_query (text, [SqlBytes db, SqlBytes c]) =
     (if take 8 text = ''SELECT J'' then SelectOptions db c
      else if take 9 text = ''SELECT `i'' then SelectId db c else ListCollections db (Some c))"
| "guess_query (text, [SqlBytes db]) = ListCollections db None"
| "guess_query (text, _) = SelectDocs (tableAt 35 text) None None"

lemma takeWhile_table: "safeTable t \<Longrightarrow> \<not> tableChar x \<Longrightarrow> takeWhile tableChar (t @ x # rest) = t"
  by (simp add: safeTable_def list_all_iff)

lemma backquote [simp]: "\<not> tableChar CHR 0x60"
  by (simp add: tableChar_def less_eq_char_def)

lemma guess_render: "wf_stmt st \<Longrightarrow> guess (render st) = st"
  by (cases st)
    (simp_all add: createTableSQL_def DocumentTableDDL_def dropTableSQL_def insertDocSQL_def replaceDocSQL_def
      deleteDocSQL_def upsertCollectionSQL_def deleteCollectionSQL_def deleteDatabaseSQL_def upsertIndexSQL_def
      rowText_def tableAt_def takeWhile_table)

lemma guess_render_query: "wf_query y \<Longrightarrow> guess_query (render_query y) = y"
proof (cases y)
  case (SelectDocs t k l)
  then show "wf_query y \<Longrightarrow> ?thesis"
    by (cases k; cases l) (simp_all add: selectDocsSQL_def tableAt_def takeWhile_table)
next
  case (ListCollections db name)
  then show ?thesis by (cases name) (simp_all add: listCollectionsSQL_def field_def)
qed (simp_all add: selectOptionsSQL_def selectIdSQL_def selectIndexesSQL_def showTablesSQL_def)

section \<open>The database\<close>

record 'j refdb =
  rf_tab :: "'j sqlState"
  rf_work :: "'j sqlState"

definition syntaxError :: goerr where
  "syntaxError = PlainError ''Error 1064: You have an error in your SQL syntax''"

definition freshId :: "'j sqlState \<Rightarrow> int" where
  "freshId s = 1 + fold max (usedIds s) 0"

definition ref_step :: "'j sql \<Rightarrow> 'j sqlState \<Rightarrow> 'j sqlState option" where
  "ref_step sql s = (if render (guess sql) = sql then run Some (freshId s) (guess sql) s else None)"

definition ref_exec :: "'j sql \<Rightarrow> ('j refdb, unit) action" where
  "ref_exec sql q =
     (case ref_step sql (rf_tab q) of None \<Rightarrow> (Err syntaxError, q) | Some s \<Rightarrow> (Ok (), q\<lparr>rf_tab := s\<rparr>))"

definition ref_tx_exec :: "'j sql \<Rightarrow> ('j refdb, unit) action" where
  "ref_tx_exec sql q =
     (case ref_step sql (rf_work q) of None \<Rightarrow> (Err syntaxError, q) | Some s \<Rightarrow> (Ok (), q\<lparr>rf_work := s\<rparr>))"

text \<open>The rows of a query, in the order in which they are stored.\<close>

fun ref_answer :: "query \<Rightarrow> 'j sqlState \<Rightarrow> 'j sqlval list list" where
  "ref_answer (SelectDocs t k l) s =
     (let rows = filter (\<lambda>(key, _). k = None \<or> k = Some key) (rowsOf s t)
      in map (\<lambda>(_, j). [SqlJson j]) (case l of None \<Rightarrow> rows | Some n \<Rightarrow> take (nat n) rows))"
| "ref_answer (SelectOptions db c) s =
     (case map_of (sq_collections s) (db, c) of None \<Rightarrow> [] | Some (_, _, j) \<Rightarrow> [[SqlJson j]])"
| "ref_answer (SelectId db c) s =
     (case map_of (sq_collections s) (db, c) of None \<Rightarrow> [] | Some (i, _, _) \<Rightarrow> [[SqlInt i]])"
| "ref_answer (ListCollections db name) s =
     map (\<lambda>((_, c), (_, _, j)). [SqlBytes c, SqlJson j])
       (sort_key (\<lambda>((_, c), _). c)
         (filter (\<lambda>((d, c), _). d = db \<and> (name = None \<or> name = Some c)) (sq_collections s)))"
| "ref_answer (SelectIndexes i) s =
     map (\<lambda>((_, name), j). [SqlText name, SqlJson j])
       (sort_key (\<lambda>((_, name), _). name) (filter (\<lambda>((j, _), _). j = i) (sq_indexes s)))"
| "ref_answer (ShowTables pattern) s = map (\<lambda>t. [SqlText t]) (filter (like pattern) (keys (sq_tables s)))"

definition ref_query :: "'j sql \<Rightarrow> ('j refdb, 'j sqlrows) action" where
  "ref_query sql q =
     (let y = guess_query sql
      in if render_query y = sql \<and> answerable y (rf_tab q) then (Ok (ref_answer y (rf_tab q), None), q)
         else (Err syntaxError, q))"

definition ref_db :: "('j refdb, 'j) sqldb" where
  "ref_db =
     \<lparr>db_exec = ref_exec, db_query = ref_query, db_ping = returnS (), db_close = returnS (),
      tx_begin = (\<lambda>q. (Ok (), q\<lparr>rf_work := rf_tab q\<rparr>)), tx_exec = ref_tx_exec,
      tx_commit = (\<lambda>q. (Ok (), q\<lparr>rf_tab := rf_work q\<rparr>)), tx_rollback = (\<lambda>q. (Ok (), q))\<rparr>"

definition emptyState :: "'j sqlState" where
  "emptyState = \<lparr>sq_tables = [], sq_collections = [], sq_indexes = []\<rparr>"

definition emptyDb :: "doc refdb" where
  "emptyDb = \<lparr>rf_tab = emptyState, rf_work = emptyState\<rparr>"

definition ref_json :: "doc extjson" where
  "ref_json = \<lparr>xj_encode = Ok, xj_decode = Ok\<rparr>"

section \<open>It keeps the contract\<close>

lemma fold_max: "(m :: int) \<le> fold max xs m"
proof (induction xs arbitrary: m)
  case (Cons x xs)
  show ?case using Cons [of "max x m"] by simp
qed simp

lemma fold_max_mem: "x \<in> set xs \<Longrightarrow> (x :: int) \<le> fold max xs m"
proof (induction xs arbitrary: m)
  case (Cons y ys)
  then show ?case using fold_max [of "max y m" ys] by auto
qed simp

lemma freshId: "freshId s \<notin> set (usedIds s)"
  using fold_max_mem [of _ "usedIds s" 0] by (fastforce simp: freshId_def)

lemma ref_step_render: "wf_stmt st \<Longrightarrow> ref_step (render st) s = run Some (freshId s) st s"
  by (simp add: ref_step_def guess_render)

lemma ref_step_runs: "wf_stmt st \<Longrightarrow> ref_step (render st) s = Some s' \<Longrightarrow> runs Some st s s'"
  unfolding runs_def ref_step_render using freshId by blast

text \<open>Whether a statement can be done does not depend on the identifier of a new row.\<close>

lemma run_id: "run json i st s = None \<longleftrightarrow> run json i' st s = None"
  by (cases st) (simp_all add: Let_def split: option.split)

lemma answers_ref: "answerable y s \<Longrightarrow> answers y s (ref_answer y s)"
proof (cases y)
  case (SelectDocs t k l)
  then show ?thesis
    by (auto simp: Let_def intro!: exI [of _ "filter (\<lambda>(key, _). k = None \<or> k = Some key) (rowsOf s t)"])
next
  case (ShowTables pattern)
  then show ?thesis by (auto intro!: exI [of _ "filter (like pattern) (keys (sq_tables s))"])
qed simp_all

interpretation ref: tidb_backend ref_db Some rf_tab rf_work ref_json "\<lambda>b. b"
proof unfold_locales
  fix st :: "doc stmt" and q q' :: "doc refdb"
  assume "wf_stmt st" "db_exec ref_db (render st) q = (Ok (), q')"
  then show "runs Some st (rf_tab q) (rf_tab q')"
    using ref_step_runs by (auto simp: ref_db_def ref_exec_def split: option.splits)
next
  fix st :: "doc stmt" and q q' :: "doc refdb" and e
  assume "wf_stmt st" "db_exec ref_db (render st) q = (Err e, q')"
  then show "rf_tab q' = rf_tab q \<or> runs Some st (rf_tab q) (rf_tab q')"
    by (auto simp: ref_db_def ref_exec_def split: option.splits)
next
  fix sql and q q' :: "doc refdb" and p
  show "db_exec ref_db sql q \<noteq> (Panic p, q')" by (auto simp: ref_db_def ref_exec_def split: option.split)
next
  fix y and q q' :: "doc refdb" and rows
  assume "wf_query y" "db_query ref_db (render_query y) q = (Ok (rows, None), q')"
  then show "answers y (rf_tab q) rows"
    using answers_ref by (auto simp: ref_db_def ref_query_def guess_render_query split: if_splits)
next
  fix y and q q' :: "doc refdb" and answer
  assume "wf_query y" "db_query ref_db (render_query y) q = (answer, q')"
  then show "rf_tab q' = rf_tab q" by (auto simp: ref_db_def ref_query_def guess_render_query split: if_splits)
next
  fix sql and q q' :: "doc refdb" and p
  show "db_query ref_db sql q \<noteq> (Panic p, q')" by (auto simp: ref_db_def ref_query_def Let_def)
next
  fix t k raw and q q' :: "doc refdb"
  assume "safeTable t" and run: "tx_exec ref_db (render (InsertDoc t k raw)) q = (Ok (), q')"
  then have "wf_stmt (InsertDoc t k raw)" by simp
  from ref_step_runs [OF this] run show "runs Some (InsertDoc t k raw) (rf_work q) (rf_work q')"
    by (auto simp: ref_db_def ref_tx_exec_def split: option.splits)
next
  fix t k raw and q q' :: "doc refdb" and r
  assume "tx_exec ref_db (render (InsertDoc t k raw)) q = (r, q')"
  then show "rf_tab q' = rf_tab q" by (auto simp: ref_db_def ref_tx_exec_def split: option.splits)
next
  fix st :: "doc stmt" and q :: "doc refdb" and s'
  assume st: "wf_stmt st" and "runs Some st (rf_tab q) s'"
  then obtain i where "run Some i st (rf_tab q) = Some s'" by (auto simp: runs_def)
  then have "run Some (freshId (rf_tab q)) st (rf_tab q) \<noteq> None" using run_id by (metis option.distinct(1))
  with st show "fst (db_exec ref_db (render st) q) = Ok ()"
    by (auto simp: ref_db_def ref_exec_def ref_step_render)
next
  fix y and q :: "doc refdb"
  assume "wf_query y" "answerable y (rf_tab q)"
  then show "\<exists>rows. fst (db_query ref_db (render_query y) q) = Ok (rows, None)"
    by (simp add: ref_db_def ref_query_def guess_render_query)
next
  show "storable ref_json Some []"
    by (auto simp: storable_def stored_def MarshalExtJSON_def UnmarshalExtJSON_def ref_json_def)
qed (auto simp: ref_db_def)

end
