(* ===== verification/Tidb_Properties.thy ===== *)
theory Tidb_Properties
  imports Sql_Reference
begin

text \<open>
  The properties of the TiDB backend: table names and query texts, atomic inserts over a database that
  may fail, finds and commands over a reliable one, and what a deletion counts and a dropped database
  takes along. The database is any that keeps the contract; the witnesses run on \<open>ref_db\<close>.
\<close>

section \<open>Dropping a database\<close>

lemma like_append: "CHR ''%'' \<notin> set p \<Longrightarrow> like ps s \<Longrightarrow> like (p @ ps) (p @ s)"
  by (induction p) auto

lemma like_any: "like ''%'' s"
  by (induction s) auto

lemma databasePattern_simple: "simpleName db \<Longrightarrow> databasePattern db = ''tm_doc_'' @ db @ ''_%''"
proof -
  assume db: "simpleName db"
  let ?base = "''tm_doc_'' @ db @ ''_''"
  have chars: "\<forall>x \<in> set ?base. tableChar x"
    using simpleName_D [OF db] by auto (simp_all add: tableChar_def less_eq_char_def)
  then have 1: "replaceUnsafe ?base = ?base" using table_ident by (intro replaceUnsafe_id) blast
  have "db \<noteq> []" "last db \<noteq> CHR ''_''" using db simpleName_D [OF db] by (auto simp: simpleName_def)
  then have 2: "trimChar CHR ''_'' ?base = ''tm_doc_'' @ db"
    by (simp add: trimChar_def hd_rev dropWhile_eq_self_iff [THEN iffD2])
  have 3: "map lowerChar (''tm_doc_'' @ db) = ''tm_doc_'' @ db"
    using chars lower_id by (intro map_idI) auto
  have "PhysicalTableName db '''' = ''tm_doc_'' @ db"
    using 1 2 3 \<open>db \<noteq> []\<close> unfolding PhysicalTableName_def by (simp only: Let_def append_Nil2) simp
  then show ?thesis using \<open>db \<noteq> []\<close> \<open>last db \<noteq> CHR ''_''\<close> by (simp add: databasePattern_def Let_def)
qed

text \<open>The name of a database is a prefix of the pattern, in which the underscore stands for any character.\<close>

lemma pattern_matches_longer:
  assumes "simpleName db" and "simpleName (db @ suffix)" and "suffix \<noteq> []" and "simpleName c"
  shows "like (databasePattern db) (PhysicalTableName (db @ suffix) c)"
proof -
  obtain x xs where suffix: "suffix = x # xs" using assms(3) by (cases suffix) auto
  have "CHR ''%'' \<notin> set (''tm_doc_'' @ db)"
    using simpleName_D [OF assms(1), of "CHR ''%''"] by (auto simp: tableChar_def less_eq_char_def)
  moreover have "like ''_%'' (x # xs @ ''_'' @ c)" by (simp add: like_any)
  ultimately have "like ((''tm_doc_'' @ db) @ ''_%'') ((''tm_doc_'' @ db) @ x # xs @ ''_'' @ c)"
    by (rule like_append)
  then show ?thesis
    unfolding databasePattern_simple [OF assms(1)] PhysicalTableName_simple [OF assms(2,4)] unfolding suffix by simp
qed

lemma runs_DeleteDatabase: "runs json (DeleteDatabase db) s s' \<Longrightarrow> sq_tables s' = sq_tables s"
  by (auto simp: runs_def)

context sql_contract
begin

lemma drop_tables:
  assumes "foldS (\<lambda>t. db_exec D (dropTableSQL t)) ts q = (Ok (), q')" and "\<forall>t \<in> set ts. safeTable t"
  shows "map_of (sq_tables (tab q')) t = (if t \<in> set ts then None else map_of (sq_tables (tab q)) t)"
  using assms
proof (induction ts arbitrary: q)
  case (Cons t' ts)
  then obtain q1 where q1: "db_exec D (render (DropTable t')) q = (Ok (), q1)"
    and rest: "foldS (\<lambda>t. db_exec D (dropTableSQL t)) ts q1 = (Ok (), q')" by (auto simp: bindS_Ok)
  have "runs json (DropTable t') (tab q) (tab q1)" by (rule exec_ok [OF _ q1]) (use Cons.prems(2) in simp)
  from runs_DropTable [OF this] Cons.IH [OF rest] Cons.prems(2) show ?case by (simp add: map_simps)
qed simp

lemma scan_tables:
  "foldR (\<lambda>row tables. mapR (\<lambda>table. tables @ [table]) (scan1 scanText row)) (map (\<lambda>t. [SqlText t]) ts) acc = Ok (acc @ ts)"
  by (induction ts arbitrary: acc) simp_all

lemma dropDatabase_tables:
  assumes "tidb_DropDatabase D E db q = (Ok (), q')" and "\<forall>t. map_of (sq_tables (tab q)) t \<noteq> None \<longrightarrow> safeTable t"
  shows "map_of (sq_tables (tab q')) t = (if like (databasePattern db) t then None else map_of (sq_tables (tab q)) t)"
proof -
  from assms(1) obtain rows err q1 tables q2 where
    q1: "db_query D (render_query (ShowTables (databasePattern db))) q = (Ok (rows, err), q1)"
    and scan: "eachRow (\<lambda>row tables. mapR (\<lambda>table. tables @ [table]) (scan1 scanText row)) (rows, err) [] = Ok tables"
    and q2: "foldS (\<lambda>t. db_exec D (dropTableSQL t)) tables q1 = (Ok (), q2)"
    and q': "db_exec D (render (DeleteDatabase db)) q2 = (Ok (), q')"
    by (auto simp: tidb_DropDatabase_def bindS_Ok liftS_def)
  from scan have err: "err = None" by (auto simp: eachRow_def bindR_eq_Ok split: option.splits)
  have tab1: "tab q1 = tab q" by (rule query_tab [OF _ q1]) simp
  have "answers (ShowTables (databasePattern db)) (tab q) rows" by (rule query_ok [OF _ q1 [unfolded err]]) simp
  then obtain order where order: "mset order = mset (filter (like (databasePattern db)) (keys (sq_tables (tab q))))"
    and rows: "rows = map (\<lambda>t. [SqlText t]) order" by auto
  from scan have tables: "tables = order" by (simp add: eachRow_def rows err scan_tables)
  from mset_eq_setD [OF order] have set: "t \<in> set tables \<longleftrightarrow> like (databasePattern db) t \<and> map_of (sq_tables (tab q)) t \<noteq> None" for t
    by (auto simp: tables map_of_eq_None_iff)
  have "runs json (DeleteDatabase db) (tab q2) (tab q')" by (rule exec_ok [OF _ q']) simp
  then have "sq_tables (tab q') = sq_tables (tab q2)" by (rule runs_DeleteDatabase)
  with drop_tables [OF q2, of t] set assms(2) tab1 show ?thesis by auto
qed

end

context tidb_backend
begin

lemma spared_rows:
  assumes "\<And>k j. (k, j) \<in> set rows \<Longrightarrow> DocumentIDKey E (docOf X j) = Ok k" and "distinct (keys rows)"
    and docs: "set docs = docOf X ` snd ` set rows" and "set rows' \<subseteq> set rows"
  shows "fold (spared E docs) ms rows' = filter (\<lambda>(k, j). \<forall>m \<in> set ms. \<not> Matches E (docOf X j) (dm_Filter m)) rows'"
  using assms(4)
proof (induction ms arbitrary: rows')
  case (Cons m ms)
  have "spared E docs m rows' = filter (\<lambda>(k, j). \<not> Matches E (docOf X j) (dm_Filter m)) rows'"
    unfolding spared_def
  proof (rule filter_cong [OF refl])
    fix e assume "e \<in> set rows'"
    then have "e \<in> set rows" using Cons.prems by blast
    then obtain k j where e: "e = (k, j)" "(k, j) \<in> set rows" by (metis prod.collapse)
    have "d = docOf X j" if "d \<in> set docs" "DocumentIDKey E d = Ok k" for d
    proof -
      from that(1) obtain k' j' where "(k', j') \<in> set rows" "d = docOf X j'" unfolding docs by auto
      with assms(1,2) that(2) e(2) show ?thesis by (metis eq_key_imp_eq_value res.inject(1))
    qed
    moreover have "docOf X j \<in> set docs" "DocumentIDKey E (docOf X j) = Ok k" using assms(1) e(2) unfolding docs by force+
    ultimately show "(case e of (k, _) \<Rightarrow> \<forall>d \<in> set docs. Matches E d (dm_Filter m) \<longrightarrow> DocumentIDKey E d \<noteq> Ok k) =
        (case e of (k, j) \<Rightarrow> \<not> Matches E (docOf X j) (dm_Filter m))" unfolding e(1) prod.case by blast
  qed
  then have step: "fold (spared E docs) (m # ms) rows' =
      fold (spared E docs) ms (filter (\<lambda>(k, j). \<not> Matches E (docOf X j) (dm_Filter m)) rows')" by simp
  show ?case unfolding step by (subst Cons.IH) (use Cons.prems in \<open>auto simp: case_prod_beta intro: filter_cong\<close>)
qed simp

lemma delete_snapshot:
  assumes inv: "tidb_inv X json hex (tab q)" and "nameable db c" and hexE: "env_oid_hex E = hex"
    and limits: "\<forall>m \<in> set ms. dm_Limit m \<noteq> 1"
  shows "\<exists>q'. tidb_Delete D X E db c ms q =
      (Ok (\<Sum>m \<leftarrow> ms. word_of_int (int (size (filter_mset (\<lambda>d. Matches E d (dm_Filter m)) (tidb_contents X (tab q) (PhysicalTableName db c)))))), q') \<and>
    tidb_contents X (tab q') (PhysicalTableName db c) =
      filter_mset (\<lambda>d. \<forall>m \<in> set ms. \<not> Matches E d (dm_Filter m)) (tidb_contents X (tab q) (PhysicalTableName db c))"
proof -
  let ?t = "PhysicalTableName db c" and ?rows = "rowsOf (tab q) (PhysicalTableName db c)"
  obtain docs q1 where docs: "mset docs = tidb_contents X (tab q) ?t" and find: "tidb_Find D X E db c (filterRequest []) q = (Ok docs, q1)"
    and table: "map_of (sq_tables (tab q1)) ?t = Some ?rows"
    by (rule find_all_total [OF assms(1-3)])
  have set: "set docs = docOf X ` snd ` set ?rows"
    using mset_eq_setD [of docs "map (docOf X \<circ> snd) ?rows"] docs by (auto simp: tidb_contents_def)
  have ids: "\<forall>d \<in> set docs. is_Ok (DocumentIDKey E d)" using row_key [OF inv hexE] by (force simp: set is_Ok_iff)
  have len: "length (filter P docs) = size (filter_mset P (tidb_contents X (tab q) ?t))" for P
    unfolding docs [symmetric] by (metis mset_filter size_mset)
  have "distinct (keys ?rows)" using inv_rows [OF inv, of ?t] by (simp add: rows_ok_def)
  then have left: "fold (spared E docs) ms ?rows = filter (\<lambda>(k, j). \<forall>m \<in> set ms. \<not> Matches E (docOf X j) (dm_Filter m)) ?rows"
    by - (rule spared_rows [OF row_key [OF inv hexE] _ set], simp_all)
  obtain q2 where "tidb_deletes D E ?t docs ms 0 q1 =
      (Ok (0 + (\<Sum>m \<leftarrow> ms. word_of_int (int (length (filter (\<lambda>d. Matches E d (dm_Filter m)) docs))))), q2)"
    "map_of (sq_tables (tab q2)) ?t = Some (fold (spared E docs) ms ?rows)"
    using deletes_total [OF safeTable_Physical limits table ids] by blast
  with find left len show ?thesis
    by (intro exI [of _ q2])
      (simp add: tidb_Delete_def Let_def bindS_simps tidb_contents_def rowsOf_Some filter_mset_image_mset case_prod_beta o_def)
qed

lemmas tidb_find_total = find_total
lemmas tidb_find_pushed = find_pushed
lemmas tidb_rename_moves = rename_moves
lemmas tidb_insert_find = insert_find

end

section \<open>Running on the reference database\<close>

lemma ref_exec_render:
  "wf_stmt st \<Longrightarrow> db_exec ref_db (render st) q =
    (case run Some (freshId (rf_tab q)) st (rf_tab q) of
       None \<Rightarrow> (Err syntaxError, q) | Some s \<Rightarrow> (Ok (), q\<lparr>rf_tab := s\<rparr>))"
  by (simp add: ref_db_def ref_exec_def ref_step_render)

lemma ref_tx_render:
  "wf_stmt st \<Longrightarrow> tx_exec ref_db (render st) q =
    (case run Some (freshId (rf_work q)) st (rf_work q) of
       None \<Rightarrow> (Err syntaxError, q) | Some s \<Rightarrow> (Ok (), q\<lparr>rf_work := s\<rparr>))"
  by (simp add: ref_db_def ref_tx_exec_def ref_step_render)

lemma ref_query_render:
  "wf_query y \<Longrightarrow> db_query ref_db (render_query y) q =
    (if answerable y (rf_tab q) then (Ok (ref_answer y (rf_tab q), None), q) else (Err syntaxError, q))"
  by (simp add: ref_db_def ref_query_def guess_render_query)

lemma ref_tx:
  "tx_begin ref_db q = (Ok (), q\<lparr>rf_work := rf_tab q\<rparr>)"
  "tx_commit ref_db q = (Ok (), q\<lparr>rf_tab := rf_work q\<rparr>)"
  "tx_rollback ref_db q = (Ok (), q)"
  by (simp_all add: ref_db_def)

lemmas ref_simps =
  ref_exec_render [of "CreateTable t" for t, unfolded render.simps wf_stmt.simps]
  ref_exec_render [of "DropTable t" for t, unfolded render.simps wf_stmt.simps]
  ref_exec_render [of "ReplaceDoc t k raw" for t k raw, unfolded render.simps wf_stmt.simps]
  ref_exec_render [of "DeleteDoc t k" for t k, unfolded render.simps wf_stmt.simps]
  ref_exec_render [of "UpsertCollection db c t raw" for db c t raw, unfolded render.simps wf_stmt.simps]
  ref_exec_render [of "DeleteCollection db c" for db c, unfolded render.simps wf_stmt.simps]
  ref_exec_render [of "DeleteDatabase db" for db, unfolded render.simps wf_stmt.simps]
  ref_tx_render [of "InsertDoc t k raw" for t k raw, unfolded render.simps wf_stmt.simps]
  ref_query_render [of "SelectDocs t k l" for t k l, unfolded render_query.simps wf_query.simps]
  ref_query_render [of "SelectOptions db c" for db c, unfolded render_query.simps wf_query.simps]
  ref_query_render [of "ShowTables p" for p, unfolded render_query.simps wf_query.simps]
  ref_tx

lemma dec_int_1: "dec_int 1 = ''1''"
  by code_simp

text \<open>A database with one document.\<close>

definition oneDoc :: "string \<Rightarrow> string \<Rightarrow> string \<Rightarrow> doc \<Rightarrow> doc refdb" where
  "oneDoc db c k d = emptyDb\<lparr>rf_tab := emptyState\<lparr>sq_tables := [(PhysicalTableName db c, [(k, d)])]\<rparr>\<rparr>"

lemma storable_ref: "storable ref_json Some d \<longleftrightarrow> normalizeEntries d = d"
  by (auto simp: storable_def stored_def MarshalExtJSON_def UnmarshalExtJSON_def ref_json_def)

lemma docOf_ref: "docOf ref_json d = normalizeEntries d"
  by (simp add: docOf_def UnmarshalExtJSON_def ref_json_def)

lemma rowsOf_oneDoc: "rowsOf (rf_tab (oneDoc db c k d)) t = (if t = PhysicalTableName db c then [(k, d)] else [])"
  by (simp add: oneDoc_def rowsOf_def emptyDb_def)

lemma inv_oneDoc:
  "normalizeEntries d = d \<Longrightarrow> idKey (\<lambda>b. b) d = Ok k \<Longrightarrow> tidb_inv ref_json Some (\<lambda>b. b) (rf_tab (oneDoc db c k d))"
  unfolding tidb_inv_def rows_ok_def storable_ref
  by (simp add: rowsOf_oneDoc UnmarshalExtJSON_def ref_json_def) (simp add: oneDoc_def emptyState_def)

lemma rowsOf_emptyDb: "rowsOf (rf_tab emptyDb) t = []"
  by (simp add: emptyDb_def emptyState_def rowsOf_def)

lemma contents_oneDoc:
  "normalizeEntries d = d \<Longrightarrow> tidb_contents ref_json (rf_tab (oneDoc db c k d)) t = (if t = PhysicalTableName db c then {#d#} else {#})"
  by (simp add: tidb_contents_def rowsOf_oneDoc docOf_ref)

lemma inv_emptyDb: "tidb_inv ref_json Some (\<lambda>b. b) (rf_tab emptyDb)"
  by (simp add: tidb_inv_def emptyDb_def emptyState_def rowsOf_def)

lemma deployed_demo: "deployed (\<lambda>b. b) demo_env" "env_oid_hex demo_env = (\<lambda>b. b)"
  by (simp_all add: deployed_def) (simp_all add: demo_env_def)

lemma simple_dbc: "simpleName ''db''" "simpleName ''c''" "simpleName ''db2''"
  by (simp_all add: simpleName_def tableChar_def less_eq_char_def)

lemma nameable_dbc: "nameable ''db'' ''c''"
  by (simp add: nameable_def PhysicalTableName_simple simple_dbc)

section \<open>Properties\<close>

text \<open>An insert into TiDB stores all its documents, each under its own new key, or none, whatever
  statement of it fails; it touches no other table, and when it answers success it stored them all.\<close>

theorem tidb_insert_atomic:
  assumes "sql_contract D json tab work" and "tidb_Insert D X E db c docs q = (r, q')"
  shows "(\<forall>t. t \<noteq> PhysicalTableName db c \<longrightarrow> rowsOf (tab q') t = rowsOf (tab q) t) \<and>
    (rowsOf (tab q') (PhysicalTableName db c) = rowsOf (tab q) (PhysicalTableName db c) \<and> (is_Ok r \<longrightarrow> docs = []) \<or>
     (\<exists>ks txts. map (DocumentIDKey E) docs = map Ok ks \<and> distinct ks \<and>
        set ks \<inter> set (keys (rowsOf (tab q) (PhysicalTableName db c))) = {} \<and> list_all2 (stored X json) docs txts \<and>
        rowsOf (tab q') (PhysicalTableName db c) = rowsOf (tab q) (PhysicalTableName db c) @ zip ks txts))"
  by (rule sql_contract.insert_atomic [OF assms])

theorem tidb_insert_atomic_witness:
  "rowsOf (rf_tab (snd (tidb_Insert ref_db ref_json demo_env ''db'' ''c''
     [[(''_id'', GString ''a'')], [(''_id'', GString ''a'')]] emptyDb))) (PhysicalTableName ''db'' ''c'') = []"
proof -
  let ?docs = "[[(''_id'', GString ''a'')], [(''_id'', GString ''a'')]]"
  obtain r q' where run: "tidb_Insert ref_db ref_json demo_env ''db'' ''c'' ?docs emptyDb = (r, q')" by fastforce
  have "\<nexists>ks. map (DocumentIDKey demo_env) ?docs = map Ok ks \<and> distinct ks"
    by (auto simp: DocumentIDKey_def Cons_eq_map_conv)
  with tidb_insert_atomic [OF ref.sql_contract_axioms run]
  have "rowsOf (rf_tab q') (PhysicalTableName ''db'' ''c'') = rowsOf (rf_tab emptyDb) (PhysicalTableName ''db'' ''c'')"
    by blast
  then show ?thesis by (simp only: run snd_conv rowsOf_emptyDb)
qed

text \<open>C10: Over a reliable database a find answers exactly the stored documents that match, whether its filter
  and its limit are pushed into the query or not, for every filter that means the same to the database.\<close>

theorem tidb_find_exact:
  assumes "tidb_backend D json tab work X" and "tidb_inv X json hex (tab q)" and "nameable db c"
    and "env_oid_hex E = hex" and "tidb_exact E (tidb_contents X (tab q) (PhysicalTableName db c)) (fr_Filter req)"
  shows "\<exists>docs q'. mset docs = filter_mset (\<lambda>d. Matches E d (fr_Filter req)) (tidb_contents X (tab q) (PhysicalTableName db c)) \<and>
    tidb_Find D X E db c req q = (Ok (ApplyFindOptions E docs (findOptions req)), q') \<and> rowsOf (tab q') = rowsOf (tab q)"
  using tidb_backend.tidb_find_total [OF assms] by blast

theorem tidb_find_exact_witness:
  "\<exists>q'. tidb_Find ref_db ref_json demo_env ''db'' ''c'' (filterRequest [(''_id'', GString ''a'')])
     (oneDoc ''db'' ''c'' ''string:a'' [(''_id'', GString ''a'')]) = (Ok [[(''_id'', GString ''a'')]], q')"
proof -
  let ?d = "[(''_id'', GString ''a'')]" and ?f = "filterRequest [(''_id'', GString ''a'')]"
  let ?q = "oneDoc ''db'' ''c'' ''string:a'' ?d"
  have m: "Matches demo_env ?d ?d" by (subst Matches_field) (simp_all add: filter_operators_def valueEquals_def)
  have c: "tidb_contents ref_json (rf_tab ?q) (PhysicalTableName ''db'' ''c'') = {#?d#}" by (simp add: contents_oneDoc)
  have "tidb_exact demo_env {#?d#} (fr_Filter ?f)" using m by (simp add: tidb_exact_def filterRequest_def DocumentIDKey_def del: Matches.simps)
  from tidb_find_exact [OF ref.tidb_backend_axioms inv_oneDoc nameable_dbc deployed_demo(2), of ?d "''string:a''" "''db''" "''c''" ?f, unfolded c, OF _ _ this]
  obtain docs q' where docs: "mset docs = filter_mset (\<lambda>d. Matches demo_env d ?d) {#?d#}"
    and run: "tidb_Find ref_db ref_json demo_env ''db'' ''c'' ?f ?q = (Ok (ApplyFindOptions demo_env docs (findOptions ?f)), q')"
    by (auto simp: idKey_def DocumentIDKey_def filterRequest_def simp del: Matches.simps)
  from docs m have "docs = [?d]" by (simp del: Matches.simps)
  with run show ?thesis by (simp add: filterRequest_def findOptions_def ApplyFindOptions_all)
qed

text \<open>A find by \<open>_id\<close> over TiDB finds nothing when no document has an \<open>_id\<close> of the same type and value: the
  database compares keys, which hold the type, where the filter would compare numbers.\<close>

theorem tidb_find_by_id_compares_types:
  assumes "tidb_backend D json tab work X" and "tidb_inv X json hex (tab q)" and "nameable db c"
    and "env_oid_hex E = hex" and "\<not> isDocument v" and "ValueKey E v = Ok k"
    and "\<forall>d. d \<in># tidb_contents X (tab q) (PhysicalTableName db c) \<longrightarrow> DocumentIDKey E d \<noteq> Ok k"
  shows "fst (tidb_Find D X E db c (filterRequest [(''_id'', v)]) q) = Ok []"
proof -
  from tidb_backend.tidb_find_pushed [OF assms(1-6)] obtain docs q' where
    run: "tidb_Find D X E db c (filterRequest [(''_id'', v)]) q = (Ok docs, q')" and
    docs: "mset docs = filter_mset (\<lambda>d. DocumentIDKey E d = Ok k \<and> Matches E d [(''_id'', v)])
      (tidb_contents X (tab q) (PhysicalTableName db c))" by blast
  from assms(7) have "mset docs = {#}" unfolding docs by (auto simp: filter_mset_eq_conv)
  with run show ?thesis by simp
qed

theorem tidb_find_by_id_compares_types_witness:
  "fst (tidb_Find ref_db ref_json demo_env ''db'' ''c'' (filterRequest [(''_id'', GInt64 1)])
     (oneDoc ''db'' ''c'' ''int32:1'' [(''_id'', GInt32 1)])) = Ok [] \<and>
   Matches demo_env [(''_id'', GInt32 1)] [(''_id'', GInt64 1)]"
proof
  let ?d = "[(''_id'', GInt32 1)]"
  have key: "DocumentIDKey demo_env ?d = Ok ''int32:1''"
    by (simp add: DocumentIDKey_def dec_int_1)
  then have "idKey (\<lambda>b. b) ?d = Ok ''int32:1''" using DocumentIDKey_idKey [OF deployed_demo(2)] by metis
  then show "fst (tidb_Find ref_db ref_json demo_env ''db'' ''c'' (filterRequest [(''_id'', GInt64 1)])
     (oneDoc ''db'' ''c'' ''int32:1'' ?d)) = Ok []"
    by (intro tidb_find_by_id_compares_types [OF ref.tidb_backend_axioms inv_oneDoc nameable_dbc deployed_demo(2)])
      (simp_all add: isDocument_def contents_oneDoc key, simp add: dec_int_1)
  show "Matches demo_env ?d [(''_id'', GInt64 1)]"
    by (subst Matches_field) (simp_all add: filter_operators_def valueEquals_def equal_def compare_def fp_eval)
qed

text \<open>The deletions of one request all see the documents of one find before the first of them: the documents
  that match some deletion are gone afterwards, but a document is counted once for every deletion it
  matches.\<close>

theorem tidb_delete_counts_snapshot:
  assumes "tidb_backend D json tab work X" and "tidb_inv X json hex (tab q)" and "nameable db c"
    and "env_oid_hex E = hex" and "\<forall>m \<in> set ms. dm_Limit m \<noteq> 1"
  shows "\<exists>q'. tidb_Delete D X E db c ms q =
      (Ok (\<Sum>m \<leftarrow> ms. word_of_int (int (size (filter_mset (\<lambda>d. Matches E d (dm_Filter m)) (tidb_contents X (tab q) (PhysicalTableName db c)))))), q') \<and>
    tidb_contents X (tab q') (PhysicalTableName db c) =
      filter_mset (\<lambda>d. \<forall>m \<in> set ms. \<not> Matches E d (dm_Filter m)) (tidb_contents X (tab q) (PhysicalTableName db c))"
  by (rule tidb_backend.delete_snapshot [OF assms])

theorem tidb_delete_counts_snapshot_witness:
  "fst (tidb_Delete ref_db ref_json demo_env ''db'' ''c'' [\<lparr>dm_Filter = [], dm_Limit = 0\<rparr>, \<lparr>dm_Filter = [], dm_Limit = 0\<rparr>]
     (oneDoc ''db'' ''c'' ''string:a'' [(''_id'', GString ''a'')])) = Ok 2"
proof -
  let ?d = "[(''_id'', GString ''a'')]"
  have "idKey (\<lambda>b. b) ?d = Ok ''string:a''" by (simp add: idKey_def DocumentIDKey_def)
  from tidb_delete_counts_snapshot [OF ref.tidb_backend_axioms inv_oneDoc nameable_dbc deployed_demo(2), OF _ this,
      of "[\<lparr>dm_Filter = [], dm_Limit = 0\<rparr>, \<lparr>dm_Filter = [], dm_Limit = 0\<rparr>]" "''db''" "''c''"]
  show ?thesis by (auto simp: contents_oneDoc)
qed

text \<open>Dropping a database also drops the tables of every database whose name is longer and starts with its
  name: the underscore after the name is a wildcard of the pattern.\<close>

theorem tidb_dropDatabase_drops_longer_names:
  assumes "sql_contract D json tab work" and "tidb_DropDatabase D E db q = (Ok (), q')"
    and "\<forall>t. map_of (sq_tables (tab q)) t \<noteq> None \<longrightarrow> safeTable t"
    and "simpleName db" and "simpleName (db @ suffix)" and "suffix \<noteq> []" and "simpleName c"
  shows "map_of (sq_tables (tab q')) (PhysicalTableName (db @ suffix) c) = None"
  using sql_contract.dropDatabase_tables [OF assms(1-3)] pattern_matches_longer [OF assms(4-7)] by simp

theorem tidb_dropDatabase_drops_longer_names_witness:
  "\<exists>q'. tidb_DropDatabase ref_db demo_env ''db'' (oneDoc ''db2'' ''c'' ''string:a'' [(''_id'', GString ''a'')]) = (Ok (), q') \<and>
     map_of (sq_tables (rf_tab q')) (PhysicalTableName ''db2'' ''c'') = None"
proof -
  let ?q = "oneDoc ''db2'' ''c'' ''string:a'' [(''_id'', GString ''a'')]" and ?t = "PhysicalTableName ''db2'' ''c''"
  have like: "like (databasePattern ''db'') ?t"
    using pattern_matches_longer [of "''db''" "''2''" "''c''"] simple_dbc by simp
  have short: "length ?t \<le> 64" by (simp add: PhysicalTableName_simple simple_dbc)
  obtain q' where run: "tidb_DropDatabase ref_db demo_env ''db'' ?q = (Ok (), q')"
    using like short by (simp add: tidb_DropDatabase_def bindS_def liftS_def eachRow_def ref_simps oneDoc_def)
  have "\<forall>t. map_of (sq_tables (rf_tab ?q)) t \<noteq> None \<longrightarrow> safeTable t" by (simp add: oneDoc_def)
  then have "map_of (sq_tables (rf_tab q')) (PhysicalTableName (''db'' @ ''2'') ''c'') = None"
    using tidb_dropDatabase_drops_longer_names [where db = "''db''" and suffix = "''2''" and c = "''c''" and q = ?q and q' = q'
      and D = ref_db and E = demo_env and tab = rf_tab, OF ref.sql_contract_axioms run] simple_dbc by simp
  with run show ?thesis by simp
qed

text \<open>C13: Over a TiDB that does not fail, as over the in-memory backend, a successful rename to a collection with another table leaves at the target
  what it held before (nothing with \<^verbatim>\<open>dropTarget\<close>) and the documents of the source, and empties the source; a rename to a
  collection with the same table, such as the source itself, leaves that table empty. Neither touches any other table.\<close>

theorem tidb_rename_moves_documents:
  assumes "tidb_backend D json tab work X" and "tidb_inv X json hex (tab q)" and "\<forall>i. deployed hex (Es i)"
    and "splitNamespace fromNS (stringValue (field cmd ''$db'')) = (db, c)" and "nameable db c"
    and "requiredString cmd ''to'' = Ok toNS" and "splitNamespace toNS db = (tdb, tc)" and "nameable tdb tc"
    and "h_renameCollection (tidb_ops D X) Es cmd fromNS q = (Ok reply, q')"
  shows "tidb_contents X (tab q') = (tidb_contents X (tab q))
    (PhysicalTableName tdb tc :=
       (if h_truthy (field cmd ''dropTarget'') then {#} else tidb_contents X (tab q) (PhysicalTableName tdb tc)) +
       tidb_contents X (tab q) (PhysicalTableName db c),
     PhysicalTableName db c := {#})"
  by (rule tidb_backend.tidb_rename_moves [OF assms])

theorem tidb_rename_moves_documents_witness:
  "\<exists>q'. h_renameCollection (tidb_ops ref_db ref_json) (\<lambda>_. demo_env) [(''to'', GString ''db2.c'')] ''db.c'' emptyDb =
     (Ok (okReply []), q') \<and> tidb_contents ref_json (rf_tab q') (PhysicalTableName ''db'' ''c'') = {#}"
proof -
  let ?cmd = "[(''to'', GString ''db2.c'')]"
  have db2: "nameable ''db2'' ''c''" by (simp add: nameable_def PhysicalTableName_simple simple_dbc)
  have len: "length (PhysicalTableName ''db'' ''c'') \<le> 64" "length (PhysicalTableName ''db2'' ''c'') \<le> 64"
    using nameable_dbc db2 by (simp_all add: nameable_def)
  have other: "PhysicalTableName ''db2'' ''c'' \<noteq> PhysicalTableName ''db'' ''c''" by (simp add: PhysicalTableName_simple simple_dbc)
  obtain q' where run: "h_renameCollection (tidb_ops ref_db ref_json) (\<lambda>_. demo_env) ?cmd ''db.c'' emptyDb = (Ok (okReply []), q')"
    using len other
    by (simp add: h_renameCollection_def tidb_ops_def requiredString_def splitNamespace_def field_def run_simps bindS_def
      returnS_def liftS_def tidb_Find_def tidb_ensureCollection_def BuildFindSQL_eq canPushDownFind_def canPushDownFilter_iff
      filterRequest_def limitOf_def eachRow_def findOptions_def ApplyFindOptions_all tidb_CreateCollection_def
      tidb_collectionOptions_def queryRow_def mergedOptions_def optionsOrEmpty_def MarshalExtJSON_def ref_json_def
      tidb_DropCollection_def ref_simps emptyDb_def emptyState_def Let_def map_simps rowsOf_def setRows_def)
  have "\<forall>i. deployed (\<lambda>b. b) ((\<lambda>_. demo_env) i)" using deployed_demo by simp
  from tidb_rename_moves_documents [OF ref.tidb_backend_axioms inv_emptyDb this _ nameable_dbc _ _ db2 run]
  show ?thesis using run by (simp add: requiredString_def splitNamespace_def field_def)
qed

text \<open>The text and the arguments of a statement determine it: with the table names the program makes, no name,
  key or document can change which statement is run, or on which table.\<close>

theorem statement_reads_back:
  assumes "wf_stmt st"
  shows "guess (render st) = st"
  using assms by (rule guess_render)

theorem statement_reads_back_witness:
  "guess (insertDocSQL (PhysicalTableName ''a`b'' ''c'') ''k'' True) = InsertDoc (PhysicalTableName ''a`b'' ''c'') ''k'' True"
  using statement_reads_back [of "InsertDoc (PhysicalTableName ''a`b'' ''c'') ''k'' True", unfolded render.simps wf_stmt.simps]
  by (simp only: safeTable_Physical)

text \<open>Collections with simple names (lower-case letters and digits) have different tables.\<close>

theorem simple_names_have_own_tables:
  assumes "simpleName db" and "simpleName c" and "simpleName db'" and "simpleName c'"
    and "PhysicalTableName db c = PhysicalTableName db' c'"
  shows "db = db' \<and> c = c'"
proof -
  have eq: "db @ CHR ''_'' # c = db' @ CHR ''_'' # c'"
    using assms(5) by (simp add: PhysicalTableName_simple assms(1-4))
  have "CHR ''_'' \<notin> set db" "CHR ''_'' \<notin> set db'"
    using simpleName_D [OF assms(1)] simpleName_D [OF assms(3)] by blast+
  then have "cut_on CHR ''_'' (db @ CHR ''_'' # c) = Some (db, c)" "cut_on CHR ''_'' (db' @ CHR ''_'' # c') = Some (db', c')"
    by (simp_all only: cut_on_Some simp_thms)
  with eq show ?thesis by (metis option.inject prod.inject)
qed

theorem simple_names_have_own_tables_witness:
  "PhysicalTableName ''db'' ''c'' \<noteq> PhysicalTableName ''db2'' ''c''"
  using simple_names_have_own_tables [OF simple_dbc(1,2) simple_dbc(3,2)] by auto

text \<open>Other collections share a table, within a database and across databases: the underscore that joins the
  two names may also stand inside them.\<close>

theorem collections_share_a_table:
  "PhysicalTableName (a @ ''_'' @ b) c = PhysicalTableName a (b @ ''_'' @ c) \<and>
   PhysicalTableName ''A'' ''b-c'' = PhysicalTableName ''a'' ''b_c''"
proof
  show "PhysicalTableName (a @ ''_'' @ b) c = PhysicalTableName a (b @ ''_'' @ c)"
    by (simp add: PhysicalTableName_def)
  show "PhysicalTableName ''A'' ''b-c'' = PhysicalTableName ''a'' ''b_c''" by code_simp
qed

text \<open>The query of a find is one of four: all rows or those under one key, with the limit or without. A filter
  reaches the database only as the key of an \<open>_id\<close>; the branch that compares a JSON path never runs.\<close>

theorem find_query_forms:
  "BuildFindSQL E db c req =
    (let t = PhysicalTableName db c
     in if \<not> canPushDownFind req then Ok (render_query (SelectDocs t None None))
        else if fr_Filter req = [] then Ok (render_query (SelectDocs t None (limitOf req)))
        else mapR (\<lambda>key. render_query (SelectDocs t (Some key) (limitOf req))) (ValueKey E (snd (hd (fr_Filter req)))))"
  by (rule BuildFindSQL_eq)

end
