(* ===== verification/Wire_Server.thy ===== *)
theory Wire_Server
  imports Handler_Commands
begin

text \<open>
  \<^verbatim>\<open>internal/wire/server.go\<close>: decoding a request into a command, running it, and encoding the reply; the
  loop over the messages of one connection. The messages themselves (\<^verbatim>\<open>ferretwire\<close>, \<^verbatim>\<open>wirebson\<close>) and the
  BSON decoder are the parameters \<open>wirelib\<close>. A connection is the list of the messages it delivers; the
  end of the list is the read error that ends it.
\<close>

section \<open>The library\<close>

text \<open>
  \<open>'m\<close> and \<open>'y\<close> are the bodies of \<^verbatim>\<open>OP_MSG\<close> and \<^verbatim>\<open>OP_QUERY\<close>, \<open>'w\<close> a \<^verbatim>\<open>*wirebson.Document\<close>, \<open>'r\<close> the body of a
  response. \<open>wl_sections\<close> gives the bytes of the command document and of the document sequence;
  \<open>wl_FindRaw\<close> the size of the document that starts a sequence; \<open>wl_FromDriver\<close> a document, or the name
  of the type of anything else.
\<close>

record ('m, 'y, 'w, 'r) wirelib =
  wl_Sections :: "'m \<Rightarrow> (string \<times> string) res"
  wl_QueryDeep :: "'y \<Rightarrow> 'w res"
  wl_Unmarshal :: "string \<Rightarrow> doc res"
  wl_FindRaw :: "string \<Rightarrow> int res"
  wl_ToDriver :: "'w \<Rightarrow> gval res"
  wl_FromDriver :: "gval \<Rightarrow> ('w + string) res"
  wl_NewOpMsg :: "'w \<Rightarrow> 'r res"
  wl_NewOpReply :: "'w \<Rightarrow> 'r res"
  wl_Size :: "'r \<Rightarrow> int"
  wl_MsgHeaderLen :: int

datatype opcode = OpCodeMsg | OpCodeReply

record msgHeader =
  mh_MessageLength :: "32 word"
  mh_RequestID :: "32 word"
  mh_ResponseTo :: "32 word"
  mh_OpCode :: opcode

definition responseHeader :: "('m, 'y, 'w, 'r) wirelib \<Rightarrow> 32 word \<Rightarrow> opcode \<Rightarrow> 'r \<Rightarrow> msgHeader" where
  "responseHeader W requestID opCode body =
     \<lparr>mh_MessageLength = word_of_int (wl_Size W body + wl_MsgHeaderLen W), mh_RequestID = requestID + 1,
      mh_ResponseTo = requestID, mh_OpCode = opCode\<rparr>"

section \<open>Decoding\<close>

text \<open>A nested \<^verbatim>\<open>bson.M\<close> is left as it is.\<close>

fun normalizeDriverValue :: "gval \<Rightarrow> gval res" and normalizeDriverEntries :: "doc \<Rightarrow> doc \<Rightarrow> doc res"
  and normalizeDriverList :: "gval list \<Rightarrow> gval list \<Rightarrow> gval list res" where
  "normalizeDriverValue (GD m) = mapR GDoc (normalizeDriverEntries m [])"
| "normalizeDriverValue (GArr xs) = mapR GArr (normalizeDriverList xs [])"
| "normalizeDriverValue (GSlice xs) = mapR GArr (normalizeDriverList xs [])"
| "normalizeDriverValue v = Ok v"
| "normalizeDriverEntries [] d = Ok d"
| "normalizeDriverEntries ((k, v) # m) d =
     bindR (normalizeDriverValue v) (\<lambda>v'. normalizeDriverEntries m (put k v' d))"
| "normalizeDriverList [] ys = Ok ys"
| "normalizeDriverList (x # xs) ys = bindR (normalizeDriverValue x) (\<lambda>x'. normalizeDriverList xs (ys @ [x']))"

fun normalizeDriverDoc :: "gval \<Rightarrow> doc res" where
  "normalizeDriverDoc (GD m) = normalizeDriverEntries m []"
| "normalizeDriverDoc (GDoc m) = normalizeDriverEntries m []"
| "normalizeDriverDoc v = Err (PlainError (''document has type '' @ type_name v))"

definition rawDocumentToBSONMap :: "('m, 'y, 'w, 'r) wirelib \<Rightarrow> string \<Rightarrow> doc res" where
  "rawDocumentToBSONMap W raw = bindR (wl_Unmarshal W raw) (\<lambda>d. normalizeDriverDoc (GDoc d))"

definition WireDocToBSONMap :: "('m, 'y, 'w, 'r) wirelib \<Rightarrow> 'w \<Rightarrow> doc res" where
  "WireDocToBSONMap W w = bindR (wl_ToDriver W w) normalizeDriverDoc"

text \<open>
  The loop over a document sequence, with fuel for its iterations: \<open>None\<close> when that is used up. A size
  outside the rest of the bytes makes the slice expression panic.
\<close>

fun rawSequenceToBSONArray :: "('m, 'y, 'w, 'r) wirelib \<Rightarrow> nat \<Rightarrow> string \<Rightarrow> gval list \<Rightarrow> gval list res option" where
  "rawSequenceToBSONArray W fuel seq docs =
     (if length seq = 0 then Some (Ok docs)
      else (case fuel of
        0 \<Rightarrow> None
      | Suc fuel' \<Rightarrow>
          (case wl_FindRaw W seq of
             Err e \<Rightarrow> Some (Err e)
           | Panic p \<Rightarrow> Some (Panic p)
           | Ok n \<Rightarrow>
               if n < 0 \<or> int (length seq) < n
                 then Some (Panic ''runtime error: slice bounds out of range'')
               else
                 (case rawDocumentToBSONMap W (take (nat n) seq) of
                    Err e \<Rightarrow> Some (Err e)
                  | Panic p \<Rightarrow> Some (Panic p)
                  | Ok m \<Rightarrow> rawSequenceToBSONArray W fuel' (drop (nat n) seq) (docs @ [GDoc m])))))"

declare rawSequenceToBSONArray.simps [simp del]

definition sequenceFieldName :: "doc \<Rightarrow> string" where
  "sequenceFieldName cmd =
     (if map_of cmd ''insert'' \<noteq> None then ''documents''
      else if map_of cmd ''update'' \<noteq> None then ''updates''
      else if map_of cmd ''delete'' \<noteq> None then ''deletes''
      else ''documents'')"

section \<open>Encoding\<close>

text \<open>The first fields of every reply document, in this order; the others follow in the order of the map.\<close>

definition replyFields :: "string list" where
  "replyFields = [''ok'', ''errmsg'', ''code'', ''cursor'']"

definition orderFields :: "doc \<Rightarrow> doc" where
  "orderFields m =
     concat (map (\<lambda>key. case map_of m key of None \<Rightarrow> [] | Some v \<Rightarrow> [(key, v)]) replyFields) @
     filter (\<lambda>(key, _). key \<notin> set replyFields) m"

fun toDriverValue :: "gval \<Rightarrow> gval" and toDriverEntries :: "doc \<Rightarrow> doc" and toDriverList :: "gval list \<Rightarrow> gval list" where
  "toDriverValue (GDoc m) = GD (orderFields (toDriverEntries m))"
| "toDriverValue (GArr xs) = GArr (toDriverList xs)"
| "toDriverValue v = v"
| "toDriverEntries [] = []"
| "toDriverEntries ((k, v) # m) = (k, toDriverValue v) # toDriverEntries m"
| "toDriverList [] = []"
| "toDriverList (x # xs) = toDriverValue x # toDriverList xs"

definition toBSOND :: "doc \<Rightarrow> doc" where
  "toBSOND m = orderFields (toDriverEntries m)"

definition responseDoc :: "('m, 'y, 'w, 'r) wirelib \<Rightarrow> doc \<Rightarrow> 'w res" where
  "responseDoc W d =
     bindR (wl_FromDriver W (GD (toBSOND d))) (\<lambda>converted.
     case converted of
       Inl wireDoc \<Rightarrow> Ok wireDoc
     | Inr type \<Rightarrow> Err (PlainError (''converted response has type '' @ type)))"

definition responseOpMsg :: "('m, 'y, 'w, 'r) wirelib \<Rightarrow> doc \<Rightarrow> 'r res" where
  "responseOpMsg W d = bindR (responseDoc W d) (wl_NewOpMsg W)"

definition responseOpReply :: "('m, 'y, 'w, 'r) wirelib \<Rightarrow> doc \<Rightarrow> 'r res" where
  "responseOpReply W d = bindR (responseDoc W d) (wl_NewOpReply W)"

section \<open>Requests\<close>

text \<open>The command of an \<^verbatim>\<open>OP_MSG\<close>: its document, with the sequence under the field that the command reads.
  The fuel is the number of bytes of the sequence.\<close>

definition opMsgCommand :: "('m, 'y, 'w, 'r) wirelib \<Rightarrow> 'm \<Rightarrow> doc res option" where
  "opMsgCommand W msg =
     (case wl_Sections W msg of
        Err e \<Rightarrow> Some (Err e)
      | Panic p \<Rightarrow> Some (Panic p)
      | Ok (spec, seq) \<Rightarrow>
          (case rawDocumentToBSONMap W spec of
             Err e \<Rightarrow> Some (Err e)
           | Panic p \<Rightarrow> Some (Panic p)
           | Ok cmd \<Rightarrow>
               if length seq > 0 then
                 map_option (mapR (\<lambda>docs. put (sequenceFieldName cmd) (GArr docs) cmd))
                   (rawSequenceToBSONArray W (length seq) seq [])
               else Some (Ok cmd)))"

text \<open>\<open>None\<close>: the handler of the message does not return.\<close>

definition HandleOpMsg ::
  "('m, 'y, 'w, 'r) wirelib \<Rightarrow> 's store_ops \<Rightarrow> envs \<Rightarrow> 'm \<Rightarrow> 's \<Rightarrow> ('r res \<times> 's) option" where
  "HandleOpMsg W ops Es msg s =
     map_option (\<lambda>cmd. bindS (liftS cmd) (\<lambda>cmd. bindS (Handle ops Es cmd) (\<lambda>reply. liftS (responseOpMsg W reply))) s)
       (opMsgCommand W msg)"

definition HandleOpQuery ::
  "('m, 'y, 'w, 'r) wirelib \<Rightarrow> 's store_ops \<Rightarrow> envs \<Rightarrow> 'y \<Rightarrow> ('s, 'r) action" where
  "HandleOpQuery W ops Es query =
     bindS (liftS (bindR (wl_QueryDeep W query) (WireDocToBSONMap W))) (\<lambda>cmd.
     bindS (Handle ops Es cmd) (\<lambda>reply. liftS (responseOpReply W reply)))"

section \<open>Connections\<close>

definition errorReply :: "goerr \<Rightarrow> doc" where
  "errorReply e = [(''ok'', GFloat64 (fp_of_int 0)), (''errmsg'', GString (errorText e)), (''code'', GInt32 2)]"

text \<open>An error becomes an error reply; if even that cannot be encoded the response is nil, whose size panics.\<close>

definition orErrorReply :: "(doc \<Rightarrow> 'r res) \<Rightarrow> 'r res \<Rightarrow> 'r res" where
  "orErrorReply respond r =
     (case r of
        Err e \<Rightarrow>
          (case respond (errorReply e) of
             Ok resp \<Rightarrow> Ok resp
           | _ \<Rightarrow> Panic ''runtime error: invalid memory address or nil pointer dereference'')
      | _ \<Rightarrow> r)"

datatype ('m, 'y) incoming =
    InMsg "32 word" 'm
  | InQuery "32 word" 'y
  | InOther "32 word"

fun requestID :: "('m, 'y) incoming \<Rightarrow> 32 word" where
  "requestID (InMsg i _) = i"
| "requestID (InQuery i _) = i"
| "requestID (InOther i) = i"

text \<open>One message: its response, or \<open>Closed\<close> when the connection is closed without one.\<close>

datatype 'r outcome = Answer msgHeader 'r | Closed | Crashed string | Hangs

definition serveOne ::
  "('m, 'y, 'w, 'r) wirelib \<Rightarrow> 's store_ops \<Rightarrow> envs \<Rightarrow> ('m, 'y) incoming \<Rightarrow> 's \<Rightarrow> 'r outcome \<times> 's" where
  "serveOne W ops Es req s =
     (let finish = (\<lambda>opCode respond (r, s').
            (case orErrorReply respond r of
               Ok resp \<Rightarrow> Answer (responseHeader W (requestID req) opCode resp) resp
             | Panic p \<Rightarrow> Crashed p
             | Err e \<Rightarrow> Closed, s'))
      in case req of
           InMsg _ msg \<Rightarrow>
             (case HandleOpMsg W ops Es msg s of
                None \<Rightarrow> (Hangs, s) | Some rs \<Rightarrow> finish OpCodeMsg (responseOpMsg W) rs)
         | InQuery _ query \<Rightarrow> finish OpCodeReply (responseOpReply W) (HandleOpQuery W ops Es query s)
         | InOther _ \<Rightarrow> (Closed, s))"

text \<open>
  The accept loop: each call of \<^verbatim>\<open>Accept\<close> gives a connection or an error, with whether the context is done
  by then. A connection is served in a goroutine of its own; the result is the connections started, in
  order, and what the loop returned, \<open>None\<close> while it still waits.
\<close>

fun acceptLoop :: "('c res \<times> bool) list \<Rightarrow> 'c list \<times> unit res option" where
  "acceptLoop [] = ([], None)"
| "acceptLoop ((Ok conn, _) # accepts) = apfst (\<lambda>conns. conn # conns) (acceptLoop accepts)"
| "acceptLoop ((Err e, isDone) # _) = ([], Some (if isDone then Ok () else Err e))"
| "acceptLoop ((Panic p, _) # _) = ([], Some (Panic p))"

definition ListenAndServe :: "unit res \<Rightarrow> ('c res \<times> bool) list \<Rightarrow> 'c list \<times> unit res option" where
  "ListenAndServe listened accepts =
     (case listened of
        Ok _ \<Rightarrow> acceptLoop accepts
      | Err e \<Rightarrow> ([], Some (Err e))
      | Panic p \<Rightarrow> ([], Some (Panic p)))"

text \<open>
  The loop of \<open>serveConn\<close>: the responses written, in order, and how it ended. \<open>written i\<close> says whether
  the write of the \<open>i\<close>-th response succeeds.
\<close>

fun serveConn ::
  "('m, 'y, 'w, 'r) wirelib \<Rightarrow> 's store_ops \<Rightarrow> (nat \<Rightarrow> envs) \<Rightarrow> (nat \<Rightarrow> bool) \<Rightarrow> nat \<Rightarrow> ('m, 'y) incoming list \<Rightarrow>
   's \<Rightarrow> ((msgHeader \<times> 'r) list \<times> 'r outcome) \<times> 's" where
  "serveConn W ops Envs written i [] s = (([], Closed), s)"
| "serveConn W ops Envs written i (req # reqs) s =
     (case serveOne W ops (Envs i) req s of
        (Answer header resp, s') \<Rightarrow>
          if \<not> written i then (([], Closed), s')
          else
            (case serveConn W ops Envs written (Suc i) reqs s' of
               ((out, final), s'') \<Rightarrow> (((header, resp) # out, final), s''))
      | (other, s') \<Rightarrow> (([], other), s'))"

end
