(* ===== verification/Memory_Store.thy ===== *)
theory Memory_Store
  imports Backend_Types
begin

text \<open>
  \<^verbatim>\<open>internal/backend/memory/memory.go\<close>: the in-memory backend. Its state is three maps keyed by
  namespace; a collection maps the key of \<^verbatim>\<open>_id\<close> to the document. Every operation holds the
  store's lock from beginning to end, so it is one step on the state. A loop over a collection
  visits it in the order \<open>env_iter E i\<close>, where \<open>i\<close> numbers the loops of the operation.
\<close>

section \<open>State\<close>

type_synonym collection = "(string \<times> doc) list"

record memStore =
  ms_collections :: "(string \<times> collection) list"
  ms_options :: "(string \<times> doc) list"
  ms_indexes :: "(string \<times> doc list) list"

definition NewStore :: memStore where
  "NewStore = \<lparr>ms_collections = [], ms_options = [], ms_indexes = []\<rparr>"

definition namespace :: "string \<Rightarrow> string \<Rightarrow> string" where
  "namespace db collection = db @ ''.'' @ collection"

definition defaultIndex :: doc where
  "defaultIndex = [(''name'', GString ''_id_''), (''key'', GDoc [(''_id'', GInt32 1)])]"

definition indexesOf :: "memStore \<Rightarrow> string \<Rightarrow> doc list" where
  "indexesOf s ns = (case map_of (ms_indexes s) ns of Some l \<Rightarrow> l | None \<Rightarrow> [])"

definition ensureDefaultIndex :: "string \<Rightarrow> memStore \<Rightarrow> memStore" where
  "ensureDefaultIndex ns s =
     (if indexesOf s ns = [] then s\<lparr>ms_indexes := put ns [defaultIndex] (ms_indexes s)\<rparr> else s)"

text \<open>\<open>ensureCollection\<close> is the guarded creation that \<open>CreateCollection\<close>, \<open>CreateIndexes\<close> and
  \<open>collection\<close> share.\<close>

definition ensureCollection :: "string \<Rightarrow> memStore \<Rightarrow> memStore" where
  "ensureCollection ns s =
     (if map_of (ms_collections s) ns = None
        then s\<lparr>ms_collections := put ns [] (ms_collections s)\<rparr> else s)"

definition collectionAt :: "memStore \<Rightarrow> string \<Rightarrow> collection" where
  "collectionAt s ns = (case map_of (ms_collections s) ns of Some c \<Rightarrow> c | None \<Rightarrow> [])"

definition setCollection :: "string \<Rightarrow> collection \<Rightarrow> memStore \<Rightarrow> memStore" where
  "setCollection ns c s = s\<lparr>ms_collections := put ns c (ms_collections s)\<rparr>"

definition cloneDoc :: "doc \<Rightarrow> doc" where
  "cloneDoc d = map (\<lambda>(k, v). (k, v)) d"

lemma cloneDoc_eq [simp]: "cloneDoc d = d"
  by (simp add: cloneDoc_def)

section \<open>Collections\<close>

definition mem_CreateCollection ::
  "goenv \<Rightarrow> string \<Rightarrow> string \<Rightarrow> CreateCollectionOptions \<Rightarrow> memStore \<Rightarrow> unit res \<times> memStore" where
  "mem_CreateCollection E db collection opts s =
     (let ns = namespace db collection;
          s1 = ensureCollection ns s;
          options = (if cc_Validator opts \<noteq> [] then [(''validator'', GDoc (cc_Validator opts))] else []);
          s2 = s1\<lparr>ms_options := put ns options (ms_options s1)\<rparr>
      in (Ok (), ensureDefaultIndex ns s2))"

text \<open>The namespaces in the order a loop over \<^verbatim>\<open>s.collections\<close> visits them.\<close>

definition namespaces :: "goenv \<Rightarrow> memStore \<Rightarrow> string list" where
  "namespaces E s = map fst (env_iter E 0 (map (\<lambda>(ns, _). (ns, [])) (ms_collections s)))"

definition mem_ListCollections ::
  "goenv \<Rightarrow> string \<Rightarrow> doc \<Rightarrow> memStore \<Rightarrow> ListCollectionsResult res \<times> memStore" where
  "mem_ListCollections E db flt s =
     (let prefix = db @ ''.'';
          info = (\<lambda>ns.
            if \<not> starts_with prefix ns then []
            else
              (let name = drop (length prefix) ns
               in case as_string (field flt ''name'') of
                    Some filterName \<Rightarrow>
                      (if filterName \<noteq> name then []
                       else [\<lparr>ci_Name = name,
                              ci_Options = (case map_of (ms_options s) ns of Some o' \<Rightarrow> cloneDoc o' | None \<Rightarrow> [])\<rparr>])
                  | None \<Rightarrow>
                      [\<lparr>ci_Name = name,
                        ci_Options = (case map_of (ms_options s) ns of Some o' \<Rightarrow> cloneDoc o' | None \<Rightarrow> [])\<rparr>]))
      in (Ok (concat (map info (namespaces E s))), s))"

definition dropNamespace :: "string \<Rightarrow> memStore \<Rightarrow> memStore" where
  "dropNamespace ns s =
     \<lparr>ms_collections = del ns (ms_collections s), ms_options = del ns (ms_options s),
      ms_indexes = del ns (ms_indexes s)\<rparr>"

definition mem_DropCollection :: "goenv \<Rightarrow> string \<Rightarrow> string \<Rightarrow> memStore \<Rightarrow> unit res \<times> memStore" where
  "mem_DropCollection E db collection s = (Ok (), dropNamespace (namespace db collection) s)"

definition mem_DropDatabase :: "goenv \<Rightarrow> string \<Rightarrow> memStore \<Rightarrow> unit res \<times> memStore" where
  "mem_DropDatabase E db s =
     (Ok (), fold (\<lambda>ns s. if starts_with (db @ ''.'') ns then dropNamespace ns s else s)
               (namespaces E s) s)"

section \<open>Documents\<close>

text \<open>The loop of \<open>Insert\<close>: documents before the failing one stay inserted.\<close>

fun insertDocs :: "goenv \<Rightarrow> gval \<Rightarrow> doc list \<Rightarrow> collection \<Rightarrow> unit res \<times> collection" where
  "insertDocs E validator [] coll = (Ok (), coll)"
| "insertDocs E validator (d # docs) coll =
     (case ValidateJSONSchema E validator d of
        Err e \<Rightarrow> (Err e, coll)
      | Panic p \<Rightarrow> (Panic p, coll)
      | Ok _ \<Rightarrow>
          (case DocumentIDKey E d of
             Err e \<Rightarrow> (Err e, coll)
           | Panic p \<Rightarrow> (Panic p, coll)
           | Ok key \<Rightarrow>
               if map_of coll key \<noteq> None
                 then (Err (PlainError (''duplicate key: '' @ key)), coll)
               else insertDocs E validator docs (put key (cloneDoc d) coll)))"

definition mem_Insert :: "goenv \<Rightarrow> string \<Rightarrow> string \<Rightarrow> doc list \<Rightarrow> memStore \<Rightarrow> InsertResult res \<times> memStore" where
  "mem_Insert E db collection docs s =
     (let ns = namespace db collection;
          s1 = ensureDefaultIndex ns (ensureCollection ns s);
          validator = (case map_of (ms_options s1) ns of Some o' \<Rightarrow> field o' ''validator'' | None \<Rightarrow> GNil)
      in case insertDocs E validator docs (collectionAt s1 ns) of
           (r, coll) \<Rightarrow> (mapR (\<lambda>_. word_of_int (int (length docs))) r, setCollection ns coll s1))"

definition mem_Find :: "goenv \<Rightarrow> string \<Rightarrow> string \<Rightarrow> FindRequest \<Rightarrow> memStore \<Rightarrow> FindResult res \<times> memStore" where
  "mem_Find E db collection req s =
     (case map_of (ms_collections s) (namespace db collection) of
        None \<Rightarrow> (Ok [], s)
      | Some coll \<Rightarrow>
          (let matched = map CloneDoc (filter (\<lambda>d. Matches E d (fr_Filter req)) (map snd (env_iter E 0 coll)))
           in (Ok (ApplyFindOptions E matched (findOptions req)), s)))"

definition mem_Count :: "goenv \<Rightarrow> string \<Rightarrow> string \<Rightarrow> CountRequest \<Rightarrow> memStore \<Rightarrow> CountResult res \<times> memStore" where
  "mem_Count E db collection flt =
     bindS (mem_Find E db collection (filterRequest flt))
       (\<lambda>docs. returnS (word_of_int (int (length docs))))"

definition mem_Distinct :: "goenv \<Rightarrow> string \<Rightarrow> string \<Rightarrow> DistinctRequest \<Rightarrow> memStore \<Rightarrow> DistinctResult res \<times> memStore" where
  "mem_Distinct E db collection req =
     bindS (mem_Find E db collection (filterRequest (dr_Filter req)))
       (\<lambda>docs. liftS (distinctLoop E (dr_Key req) docs []))"

definition mem_Aggregate :: "goenv \<Rightarrow> string \<Rightarrow> string \<Rightarrow> AggregateRequest \<Rightarrow> memStore \<Rightarrow> AggregateResult res \<times> memStore" where
  "mem_Aggregate E db collection pipeline =
     bindS (mem_Find E db collection (filterRequest []))
       (\<lambda>docs. liftS (ApplyPipeline E docs pipeline))"

section \<open>Updates and deletes\<close>

text \<open>
  The state of an update request: the collection, the result so far, the matches of the current
  update, and the number of clock readings.
\<close>

record updState =
  us_coll :: collection
  us_result :: UpdateResult
  us_matchedForOp :: nat
  us_clock :: nat

definition bumpMatched :: "updState \<Rightarrow> updState" where
  "bumpMatched st =
     st\<lparr>us_matchedForOp := us_matchedForOp st + 1,
        us_result := (us_result st)\<lparr>ur_Matched := ur_Matched (us_result st) + 1\<rparr>\<rparr>"

definition storeUpdated :: "string \<Rightarrow> doc \<Rightarrow> updState \<Rightarrow> updState" where
  "storeUpdated key next st =
     st\<lparr>us_coll := put key next (us_coll st), us_clock := us_clock st + 1,
        us_result := (us_result st)\<lparr>ur_Modified := ur_Modified (us_result st) + 1\<rparr>\<rparr>"

text \<open>
  The loop over the collection for one update. Go lets the body replace the value of the entry it
  is at; the other entries are visited once, with the values they had.
\<close>

fun updateDocs :: "goenv \<Rightarrow> UpdateModel \<Rightarrow> collection \<Rightarrow> updState \<Rightarrow> unit res \<times> updState" where
  "updateDocs E u [] st = (Ok (), st)"
| "updateDocs E u ((key, d) # rest) st =
     (if \<not> Matches E d (um_Filter u) then updateDocs E u rest st
      else
        (case ApplyUpdate E (env_now E (us_clock st)) (CloneDoc d) (um_Update u) of
           Err e \<Rightarrow> (Err e, bumpMatched st)
         | Panic p \<Rightarrow> (Panic p, bumpMatched st)
         | Ok next \<Rightarrow>
             if \<not> um_Multi u then (Ok (), storeUpdated key next (bumpMatched st))
             else updateDocs E u rest (storeUpdated key next (bumpMatched st))))"

text \<open>The document an upsert stores, made from the filter.\<close>

definition upsertDoc :: "goenv \<Rightarrow> nat \<Rightarrow> UpdateModel \<Rightarrow> doc res" where
  "upsertDoc E clock u =
     mapR (\<lambda>d. if map_of d ''_id'' = None
               then put ''_id'' (GString (''upsert-'' @ dec_int (env_nano E clock))) d else d)
       (ApplyUpdate E (env_now E clock) (CloneDoc (um_Filter u)) (um_Update u))"

definition storeUpserted :: "string \<Rightarrow> doc \<Rightarrow> updState \<Rightarrow> updState" where
  "storeUpserted key d st =
     st\<lparr>us_coll := put key d (us_coll st), us_clock := us_clock st + 1,
        us_result := \<lparr>ur_Matched = ur_Matched (us_result st) + 1,
                      ur_Modified = ur_Modified (us_result st) + 1,
                      ur_Upserted = ur_Upserted (us_result st) @
                        [[(''index'', GInt32 0), (''_id'', field d ''_id'')]]\<rparr>\<rparr>"

definition upsertStep :: "goenv \<Rightarrow> UpdateModel \<Rightarrow> updState \<Rightarrow> unit res \<times> updState" where
  "upsertStep E u st =
     (if us_matchedForOp st = 0 \<and> um_Upsert u then
        (case bindR (upsertDoc E (us_clock st) u) (\<lambda>d. mapR (\<lambda>key. (key, d)) (DocumentIDKey E d)) of
           Err e \<Rightarrow> (Err e, st)
         | Panic p \<Rightarrow> (Panic p, st)
         | Ok (key, d) \<Rightarrow> (Ok (), storeUpserted key d st))
      else (Ok (), st))"

definition updateOne :: "goenv \<Rightarrow> nat \<times> UpdateModel \<Rightarrow> updState \<Rightarrow> unit res \<times> updState" where
  "updateOne E iu st =
     (case iu of (i, u) \<Rightarrow>
        bindS (updateDocs E u (env_iter E i (us_coll st))) (\<lambda>_. upsertStep E u) (st\<lparr>us_matchedForOp := 0\<rparr>))"

definition emptyUpdateResult :: UpdateResult where
  "emptyUpdateResult = \<lparr>ur_Matched = 0, ur_Modified = 0, ur_Upserted = []\<rparr>"

definition mem_Update :: "goenv \<Rightarrow> string \<Rightarrow> string \<Rightarrow> UpdateRequest \<Rightarrow> memStore \<Rightarrow> UpdateResult res \<times> memStore" where
  "mem_Update E db collection updates s =
     (let ns = namespace db collection;
          s1 = ensureDefaultIndex ns (ensureCollection ns s);
          st0 = \<lparr>us_coll = collectionAt s1 ns, us_result = emptyUpdateResult,
                 us_matchedForOp = 0, us_clock = 0\<rparr>
      in case foldS (updateOne E) (enumerate 0 updates) st0 of
           (r, st) \<Rightarrow> (mapR (\<lambda>_. us_result st) r, setCollection ns (us_coll st) s1))"

text \<open>The loop of \<open>Delete\<close> over the collection for one deletion, with the number deleted.\<close>

fun deleteDocs :: "goenv \<Rightarrow> DeleteModel \<Rightarrow> collection \<Rightarrow> collection \<times> 64 word \<Rightarrow> collection \<times> 64 word" where
  "deleteDocs E m [] st = st"
| "deleteDocs E m ((key, d) # rest) (coll, n) =
     (if \<not> Matches E d (dm_Filter m) then deleteDocs E m rest (coll, n)
      else if dm_Limit m = 1 then (del key coll, n + 1)
      else deleteDocs E m rest (del key coll, n + 1))"

definition deleteOne :: "goenv \<Rightarrow> nat \<times> DeleteModel \<Rightarrow> collection \<times> 64 word \<Rightarrow> collection \<times> 64 word" where
  "deleteOne E im st = (case (im, st) of ((i, m), (coll, n)) \<Rightarrow> deleteDocs E m (env_iter E i coll) (coll, n))"

definition mem_Delete :: "goenv \<Rightarrow> string \<Rightarrow> string \<Rightarrow> DeleteRequest \<Rightarrow> memStore \<Rightarrow> DeleteResult res \<times> memStore" where
  "mem_Delete E db collection deletes s =
     (let ns = namespace db collection
      in case map_of (ms_collections s) ns of
           None \<Rightarrow> (Ok 0, s)
         | Some coll0 \<Rightarrow>
             (case fold (deleteOne E) (enumerate 0 deletes) (coll0, 0) of
                (coll, n) \<Rightarrow> (Ok n, setCollection ns coll s)))"

section \<open>Indexes\<close>

definition indexName :: "goenv \<Rightarrow> doc \<Rightarrow> string" where
  "indexName E key =
     (case key of [] \<Rightarrow> ''unnamed_1'' | (name, direction) # _ \<Rightarrow> name @ ''_'' @ sprint E direction)"

definition effectiveName :: "goenv \<Rightarrow> IndexModel \<Rightarrow> string" where
  "effectiveName E idx = (if ix_Name idx = '''' then indexName E (ix_Key idx) else ix_Name idx)"

definition indexDoc :: "goenv \<Rightarrow> IndexModel \<Rightarrow> doc" where
  "indexDoc E idx =
     fold (\<lambda>(k, v) d. put k v d) (ix_Opts idx)
       [(''name'', GString (effectiveName E idx)), (''key'', GDoc (ix_Key idx))]"

definition mem_CreateIndexes :: "goenv \<Rightarrow> string \<Rightarrow> string \<Rightarrow> IndexModel list \<Rightarrow> memStore \<Rightarrow> CreateIndexesResult res \<times> memStore" where
  "mem_CreateIndexes E db collection indexes s =
     (let ns = namespace db collection;
          s1 = ensureDefaultIndex ns (ensureCollection ns s);
          s2 = fold (\<lambda>idx s. s\<lparr>ms_indexes := put ns (indexesOf s ns @ [indexDoc E idx]) (ms_indexes s)\<rparr>)
                 indexes s1
      in (Ok (map (effectiveName E) indexes), s2))"

definition mem_ListIndexes :: "goenv \<Rightarrow> string \<Rightarrow> string \<Rightarrow> memStore \<Rightarrow> ListIndexesResult res \<times> memStore" where
  "mem_ListIndexes E db collection s =
     (Ok (map CloneDoc (indexesOf s (namespace db collection))), s)"

text \<open>The backend as a value of the storage interface.\<close>

definition memory_ops :: "memStore store_ops" where
  "memory_ops =
     \<lparr>op_CreateCollection = mem_CreateCollection, op_ListCollections = mem_ListCollections,
      op_DropCollection = mem_DropCollection, op_Insert = mem_Insert, op_Find = mem_Find,
      op_Count = mem_Count, op_Distinct = mem_Distinct, op_Update = mem_Update,
      op_Delete = mem_Delete, op_Aggregate = mem_Aggregate, op_CreateIndexes = mem_CreateIndexes,
      op_ListIndexes = mem_ListIndexes, op_DropDatabase = mem_DropDatabase\<rparr>"

end
