(* ===== verification/Memory_Invariant.thy ===== *)
theory Memory_Invariant
  imports Memory_Store
begin

text \<open>
  What stays true of the in-memory backend: every operation keeps \<open>mem_inv\<close>, the shape of its three
  maps, so every state that a run of operations reaches has it (\<open>reachable_inv\<close>). When no update
  writes an \<open>_id\<close>, every document also stays under the key of its own \<open>_id\<close> (\<open>mem_keyed\<close>), which is
  what makes identifiers unique.
\<close>

section \<open>Invariant\<close>

text \<open>A collection: each key once, each document with each field once.\<close>

definition coll_ok :: "collection \<Rightarrow> bool" where
  "coll_ok coll \<longleftrightarrow> distinct (keys coll) \<and> (\<forall>k d. map_of coll k = Some d \<longrightarrow> distinct (keys d))"

text \<open>Every collection has its list of indexes, which starts with the default one; options belong
  to a collection.\<close>

definition mem_inv :: "memStore \<Rightarrow> bool" where
  "mem_inv s \<longleftrightarrow>
     distinct (keys (ms_collections s)) \<and> distinct (keys (ms_options s)) \<and> distinct (keys (ms_indexes s)) \<and>
     (\<forall>ns coll. map_of (ms_collections s) ns = Some coll \<longrightarrow> coll_ok coll) \<and>
     (\<forall>ns l. map_of (ms_indexes s) ns = Some l \<longrightarrow> l \<noteq> [] \<and> hd l = defaultIndex) \<and>
     dom (map_of (ms_indexes s)) = dom (map_of (ms_collections s)) \<and>
     dom (map_of (ms_options s)) \<subseteq> dom (map_of (ms_collections s))"

lemma coll_ok_Nil [simp]: "coll_ok []"
  by (simp add: coll_ok_def)

lemma coll_ok_put: "coll_ok coll \<Longrightarrow> distinct (keys d) \<Longrightarrow> coll_ok (put k d coll)"
  by (simp add: coll_ok_def map_simps)

lemma coll_ok_del: "coll_ok coll \<Longrightarrow> coll_ok (del k coll)"
  by (simp add: coll_ok_def map_simps)

lemma coll_ok_set: "coll_ok coll \<Longrightarrow> (k, d) \<in> set coll \<Longrightarrow> distinct (keys d)"
  by (simp add: coll_ok_def)

lemma mem_inv_collectionAt: "mem_inv s \<Longrightarrow> coll_ok (collectionAt s ns)"
  by (simp add: collectionAt_def mem_inv_def split: option.split)

text \<open>The state after the creation on demand that most operations begin with.\<close>

definition prepared :: "string \<Rightarrow> memStore \<Rightarrow> memStore" where
  "prepared ns s = ensureDefaultIndex ns (ensureCollection ns s)"

lemma prepared_eq:
  assumes "mem_inv s"
  shows "prepared ns s =
    (if map_of (ms_collections s) ns = None
       then s\<lparr>ms_collections := put ns [] (ms_collections s), ms_indexes := put ns [defaultIndex] (ms_indexes s)\<rparr>
     else s)"
proof -
  have dom: "map_of (ms_indexes s) ns = None \<longleftrightarrow> map_of (ms_collections s) ns = None"
    using assms unfolding mem_inv_def by blast
  have "indexesOf s ns = [] \<longleftrightarrow> map_of (ms_indexes s) ns = None"
    using assms by (auto simp: indexesOf_def mem_inv_def split: option.split)
  then show ?thesis
    using dom by (simp add: prepared_def ensureDefaultIndex_def ensureCollection_def indexesOf_def)
qed

lemma collectionAt_prepared [simp]: "collectionAt (prepared ns s) ns' = collectionAt s ns'"
  by (auto simp: prepared_def ensureDefaultIndex_def ensureCollection_def collectionAt_def map_simps)

lemma options_prepared [simp]: "ms_options (prepared ns s) = ms_options s"
  by (simp add: prepared_def ensureDefaultIndex_def ensureCollection_def)

lemma mem_inv_NewStore: "mem_inv NewStore"
  by (simp add: mem_inv_def NewStore_def)

lemma mem_inv_prepared:
  assumes "mem_inv s"
  shows "mem_inv (prepared ns s)" and "map_of (ms_collections (prepared ns s)) ns \<noteq> None"
  using assms unfolding prepared_eq [OF assms] by (auto simp: mem_inv_def map_simps simp del: map_of_eq_Some_iff)

lemma mem_inv_setCollection:
  "mem_inv s \<Longrightarrow> map_of (ms_collections s) ns \<noteq> None \<Longrightarrow> coll_ok coll \<Longrightarrow> mem_inv (setCollection ns coll s)"
  by (auto simp: mem_inv_def setCollection_def map_simps simp del: map_of_eq_Some_iff)

lemma mem_inv_options:
  "mem_inv s \<Longrightarrow> map_of (ms_collections s) ns \<noteq> None \<Longrightarrow> mem_inv (s\<lparr>ms_options := put ns opts (ms_options s)\<rparr>)"
  by (auto simp: mem_inv_def map_simps simp del: map_of_eq_Some_iff)

lemma mem_inv_dropNamespace: "mem_inv s \<Longrightarrow> mem_inv (dropNamespace ns s)"
  by (auto simp: mem_inv_def dropNamespace_def map_simps simp del: map_of_eq_Some_iff)

section \<open>Loops keep the invariant\<close>

lemma insertDocs_ok:
  "coll_ok coll \<Longrightarrow> \<forall>d \<in> set docs. distinct (keys d) \<Longrightarrow> coll_ok (snd (insertDocs E v docs coll))"
  by (induction E v docs coll rule: insertDocs.induct) (auto simp: coll_ok_put split: res.split)

lemma updateDocs_ok:
  assumes "coll_ok (us_coll st)" and "\<forall>(k, d) \<in> set entries. distinct (keys d)"
  shows "coll_ok (us_coll (snd (updateDocs E u entries st)))"
  using assms
proof (induction E u entries st rule: updateDocs.induct)
  case (2 E u key d rest st)
  then show ?case
    by (auto simp: bumpMatched_def storeUpdated_def coll_ok_put ApplyUpdate_distinct split: res.split)
qed simp

lemma upsertDoc_distinct:
  "upsertDoc E clock u = Ok d \<Longrightarrow> distinct (keys (um_Filter u)) \<Longrightarrow> distinct (keys d)"
  by (auto simp: upsertDoc_def mapR_eq_Ok map_simps dest: ApplyUpdate_distinct)

lemma upsertStep_ok:
  "coll_ok (us_coll st) \<Longrightarrow> distinct (keys (um_Filter u)) \<Longrightarrow> coll_ok (us_coll (snd (upsertStep E u st)))"
  by (auto simp: upsertStep_def storeUpserted_def coll_ok_put upsertDoc_distinct res_simps split: res.split)

lemma updateOne_ok:
  assumes "fair_iter E" and "coll_ok (us_coll st)" and "distinct (keys (um_Filter u))"
  shows "coll_ok (us_coll (snd (updateOne E (i, u) st)))"
  unfolding updateOne_def prod.case
proof (rule snd_bindS_invariant [where P = "\<lambda>st. coll_ok (us_coll st)"])
  show "coll_ok (us_coll (snd (updateDocs E u (env_iter E i (us_coll st)) (st\<lparr>us_matchedForOp := 0\<rparr>))))"
    using assms coll_ok_set by (intro updateDocs_ok) auto
qed (rule upsertStep_ok [OF _ assms(3)])

lemma deleteDocs_ok: "coll_ok coll \<Longrightarrow> coll_ok (fst (deleteDocs E m entries (coll, n)))"
  by (induction E m entries "(coll, n)" arbitrary: coll n rule: deleteDocs.induct) (auto simp: coll_ok_del)


section \<open>Operations keep the invariant\<close>

lemma mem_CreateCollection_eq:
  "mem_CreateCollection E db c opts s =
     (let ns = namespace db c; s1 = prepared ns s
      in (Ok (), s1\<lparr>ms_options := put ns (if cc_Validator opts \<noteq> [] then [(''validator'', GDoc (cc_Validator opts))] else [])
            (ms_options s1)\<rparr>))"
  by (simp add: mem_CreateCollection_def prepared_def ensureDefaultIndex_def ensureCollection_def indexesOf_def Let_def)

lemma inv_CreateCollection: "mem_inv s \<Longrightarrow> mem_inv (snd (mem_CreateCollection E db c opts s))"
  using mem_inv_prepared [of s "namespace db c"] mem_inv_options [of "prepared (namespace db c) s" "namespace db c"]
  by (simp add: mem_CreateCollection_eq Let_def)

lemma inv_Insert:
  "mem_inv s \<Longrightarrow> \<forall>d \<in> set docs. distinct (keys d) \<Longrightarrow> mem_inv (snd (mem_Insert E db c docs s))"
  using mem_inv_prepared [of s "namespace db c"] insertDocs_ok [of "collectionAt s (namespace db c)" docs E]
  by (simp add: mem_Insert_def Let_def prepared_def [symmetric] case_prod_beta mem_inv_setCollection mem_inv_collectionAt)

lemma enumerate_mem: "(i, x) \<in> set (enumerate n xs) \<Longrightarrow> x \<in> set xs"
  by (auto simp: in_set_enumerate_eq)

lemma inv_Update:
  assumes "mem_inv s" and "fair_iter E" and "\<forall>u \<in> set ups. distinct (keys (um_Filter u))"
  shows "mem_inv (snd (mem_Update E db c ups s))"
proof -
  have "coll_ok (us_coll (snd (foldS (updateOne E) (enumerate 0 ups) st)))" if "coll_ok (us_coll st)" for st :: updState
    using that
  proof (rule snd_foldS_invariant [where P = "\<lambda>st. coll_ok (us_coll st)"])
    fix iu and st :: updState
    assume "iu \<in> set (enumerate 0 ups)" and "coll_ok (us_coll st)"
    moreover obtain i u where "iu = (i, u)" by (cases iu)
    ultimately show "coll_ok (us_coll (snd (updateOne E iu st)))"
      using assms(2,3) updateOne_ok by (auto dest: enumerate_mem)
  qed
  then show ?thesis
    using assms(1) mem_inv_prepared [of s "namespace db c"]
    by (simp add: mem_Update_def Let_def prepared_def [symmetric] case_prod_beta mem_inv_setCollection mem_inv_collectionAt)
qed

lemma deleteOne_ok: "coll_ok (fst st) \<Longrightarrow> coll_ok (fst (deleteOne E im st))"
  by (cases im; cases st) (simp add: deleteOne_def deleteDocs_ok)

lemma fold_deleteOne_ok: "coll_ok (fst st) \<Longrightarrow> coll_ok (fst (fold (deleteOne E) xs st))"
  by (induction xs arbitrary: st) (simp_all add: deleteOne_ok)

lemma inv_Delete:
  assumes "mem_inv s"
  shows "mem_inv (snd (mem_Delete E db c dels s))"
proof (cases "map_of (ms_collections s) (namespace db c)")
  case (Some coll)
  with assms have "coll_ok coll" by (auto simp: mem_inv_def)
  then have "coll_ok (fst (fold (deleteOne E) (enumerate 0 dels) (coll, 0)))" by (simp add: fold_deleteOne_ok)
  with Some show ?thesis
    using mem_inv_setCollection [OF assms] by (simp add: mem_Delete_def case_prod_beta)
qed (use assms in \<open>simp add: mem_Delete_def\<close>)

lemma inv_CreateIndexes:
  assumes "mem_inv s"
  shows "mem_inv (snd (mem_CreateIndexes E db c idx s))"
proof -
  let ?ns = "namespace db c"
  have "mem_inv (fold (\<lambda>idx s. s\<lparr>ms_indexes := put ?ns (indexesOf s ?ns @ [indexDoc E idx]) (ms_indexes s)\<rparr>) xs s)"
    if "mem_inv s" and "map_of (ms_collections s) ?ns \<noteq> None" for xs s
    using that
  proof (induction xs arbitrary: s)
    case (Cons i xs)
    then obtain l where "map_of (ms_indexes s) ?ns = Some l" unfolding mem_inv_def by blast
    with Cons.prems have "mem_inv (s\<lparr>ms_indexes := put ?ns (indexesOf s ?ns @ [indexDoc E i]) (ms_indexes s)\<rparr>)"
      by (auto simp: mem_inv_def indexesOf_def map_simps simp del: map_of_eq_Some_iff)
    with Cons show ?case by simp
  qed simp
  then show ?thesis
    using mem_inv_prepared [OF assms, of ?ns]
    by (simp add: mem_CreateIndexes_def Let_def prepared_def [symmetric])
qed

lemma inv_DropDatabase: "mem_inv s \<Longrightarrow> mem_inv (snd (mem_DropDatabase E db s))"
proof -
  have "mem_inv s \<Longrightarrow> mem_inv (fold (\<lambda>ns s. if P ns then dropNamespace ns s else s) nss s)" for P nss s
    by (induction nss arbitrary: s) (simp_all add: mem_inv_dropNamespace)
  then show "mem_inv s \<Longrightarrow> mem_inv (snd (mem_DropDatabase E db s))" by (simp add: mem_DropDatabase_def)
qed

section \<open>Runs\<close>

text \<open>The operations that change the state, and the states they reach. Documents and filters come out
  of decoded maps, so they have each field once; \<open>hex\<close> is the one driver function the keys depend on.\<close>

datatype memOp =
    CreateOp string string CreateCollectionOptions
  | DropOp string string
  | InsertOp string string "doc list"
  | UpdateOp string string "UpdateModel list"
  | DeleteOp string string "DeleteModel list"
  | CreateIndexesOp string string "IndexModel list"
  | DropDatabaseOp string

fun runOp :: "goenv \<Rightarrow> memOp \<Rightarrow> memStore \<Rightarrow> memStore" where
  "runOp E (CreateOp db c opts) s = snd (mem_CreateCollection E db c opts s)"
| "runOp E (DropOp db c) s = snd (mem_DropCollection E db c s)"
| "runOp E (InsertOp db c docs) s = snd (mem_Insert E db c docs s)"
| "runOp E (UpdateOp db c ups) s = snd (mem_Update E db c ups s)"
| "runOp E (DeleteOp db c dels) s = snd (mem_Delete E db c dels s)"
| "runOp E (CreateIndexesOp db c idx) s = snd (mem_CreateIndexes E db c idx s)"
| "runOp E (DropDatabaseOp db) s = snd (mem_DropDatabase E db s)"

fun wf_op :: "memOp \<Rightarrow> bool" where
  "wf_op (InsertOp _ _ docs) = (\<forall>d \<in> set docs. distinct (keys d))"
| "wf_op (UpdateOp _ _ ups) = (\<forall>u \<in> set ups. distinct (keys (um_Filter u)))"
| "wf_op _ = True"

text \<open>No update of the operation touches the \<open>_id\<close> of a stored document.\<close>

fun op_keeps_id :: "goenv \<Rightarrow> memOp \<Rightarrow> bool" where
  "op_keeps_id E (UpdateOp _ _ ups) = (\<forall>u \<in> set ups. keeps_id E (um_Update u))"
| "op_keeps_id E _ = True"

inductive reachable :: "(goenv \<Rightarrow> memOp \<Rightarrow> bool) \<Rightarrow> (string \<Rightarrow> string) \<Rightarrow> memStore \<Rightarrow> bool"
  for ok hex where
  start: "reachable ok hex NewStore"
| step: "reachable ok hex s \<Longrightarrow> fair_iter E \<Longrightarrow> env_oid_hex E = hex \<Longrightarrow> wf_op opn \<Longrightarrow> ok E opn \<Longrightarrow>
    reachable ok hex (runOp E opn s)"

lemma inv_runOp: "mem_inv s \<Longrightarrow> fair_iter E \<Longrightarrow> wf_op opn \<Longrightarrow> mem_inv (runOp E opn s)"
  by (cases opn) (simp_all add: inv_CreateCollection inv_Insert inv_Update inv_Delete inv_CreateIndexes
    inv_DropDatabase mem_DropCollection_def mem_inv_dropNamespace)

lemma reachable_inv: "reachable ok hex s \<Longrightarrow> mem_inv s"
  by (induction rule: reachable.induct) (simp_all add: mem_inv_NewStore inv_runOp)

section \<open>Documents under their own key\<close>

definition keyed :: "goenv \<Rightarrow> collection \<Rightarrow> bool" where
  "keyed E coll \<longleftrightarrow> (\<forall>k d. map_of coll k = Some d \<longrightarrow> DocumentIDKey E d = Ok k)"

definition mem_keyed :: "goenv \<Rightarrow> memStore \<Rightarrow> bool" where
  "mem_keyed E s \<longleftrightarrow> (\<forall>ns coll. map_of (ms_collections s) ns = Some coll \<longrightarrow> keyed E coll)"

lemma keyed_hex: "env_oid_hex E = env_oid_hex E' \<Longrightarrow> keyed E coll = keyed E' coll"
proof -
  assume "env_oid_hex E = env_oid_hex E'"
  then have "ValueKey E = ValueKey E'" using ValueKey_hex by blast
  then have "DocumentIDKey E = DocumentIDKey E'" unfolding DocumentIDKey_def [abs_def] by (rule arg_cong)
  then show ?thesis by (simp add: keyed_def)
qed

lemma keyed_Nil [simp]: "keyed E []"
  by (simp add: keyed_def)

lemma keyed_put: "keyed E coll \<Longrightarrow> DocumentIDKey E d = Ok k \<Longrightarrow> keyed E (put k d coll)"
  by (simp add: keyed_def map_simps)

lemma keyed_del: "keyed E coll \<Longrightarrow> keyed E (del k coll)"
  by (simp add: keyed_def map_simps)

lemma insertDocs_keyed: "keyed E coll \<Longrightarrow> keyed E (snd (insertDocs E v docs coll))"
  by (induction E v docs coll rule: insertDocs.induct) (auto simp: keyed_put split: res.split)

lemma ApplyUpdate_same_key:
  assumes "ApplyUpdate E now d update = Ok d'" and "keeps_id E update" and "DocumentIDKey E d = Ok k"
  shows "DocumentIDKey E d' = Ok k"
proof -
  obtain oid where oid: "map_of d ''_id'' = Some oid" "ValueKey E oid = Ok k"
    using assms(3) by (auto simp: DocumentIDKey_def split: option.splits)
  then have "oid \<noteq> GNil" by auto
  from ApplyUpdate_keeps_id [OF assms(1,2) oid(1) this] oid show ?thesis by (simp add: DocumentIDKey_def)
qed

lemma updateDocs_keyed:
  assumes "keyed E (us_coll st)" and "\<forall>(k, d) \<in> set entries. DocumentIDKey E d = Ok k"
    and "keeps_id E (um_Update u)"
  shows "keyed E (us_coll (snd (updateDocs E u entries st)))"
  using assms
proof (induction E u entries st rule: updateDocs.induct)
  case (2 E u key d rest st)
  then show ?case
    by (auto simp: bumpMatched_def storeUpdated_def keyed_put ApplyUpdate_same_key split: res.split)
qed simp

lemma upsertStep_keyed:
  "keyed E (us_coll st) \<Longrightarrow> keyed E (us_coll (snd (upsertStep E u st)))"
  by (auto simp: upsertStep_def storeUpserted_def keyed_put res_simps split: res.split)

lemma updateOne_keyed:
  assumes "fair_iter E" and "coll_ok (us_coll st)" and "keyed E (us_coll st)" and "keeps_id E (um_Update u)"
  shows "keyed E (us_coll (snd (updateOne E (i, u) st)))"
  unfolding updateOne_def prod.case
proof (rule snd_bindS_invariant [where P = "\<lambda>st. keyed E (us_coll st)"])
  have "DocumentIDKey E d = Ok k" if "(k, d) \<in> set (env_iter E i (us_coll st))" for k d
    using that assms(1-3) by (auto simp: keyed_def coll_ok_def)
  then show "keyed E (us_coll (snd (updateDocs E u (env_iter E i (us_coll st)) (st\<lparr>us_matchedForOp := 0\<rparr>))))"
    using assms(3,4) by (intro updateDocs_keyed) auto
qed (rule upsertStep_keyed)

lemma deleteDocs_keyed: "keyed E coll \<Longrightarrow> keyed E (fst (deleteDocs E' m entries (coll, n)))"
  by (induction E' m entries "(coll, n)" arbitrary: coll n rule: deleteDocs.induct) (auto simp: keyed_del)

lemma fold_deleteOne_keyed: "keyed E (fst st) \<Longrightarrow> keyed E (fst (fold (deleteOne E') xs st))"
proof (induction xs arbitrary: st)
  case (Cons x xs)
  have "keyed E (fst (deleteOne E' x st))"
    using Cons.prems by (cases x; cases st) (simp add: deleteOne_def deleteDocs_keyed)
  then show ?case using Cons.IH by simp
qed simp

lemma mem_keyed_setCollection: "mem_keyed E s \<Longrightarrow> keyed E coll \<Longrightarrow> mem_keyed E (setCollection ns coll s)"
  by (simp add: mem_keyed_def setCollection_def map_simps)

lemma mem_keyed_collectionAt: "mem_keyed E s \<Longrightarrow> keyed E (collectionAt s ns)"
  by (simp add: mem_keyed_def collectionAt_def split: option.split)

lemma mem_keyed_prepared: "mem_keyed E s \<Longrightarrow> mem_keyed E (prepared ns s)"
  by (auto simp: mem_keyed_def prepared_def ensureDefaultIndex_def ensureCollection_def map_simps)

lemma mem_keyed_dropNamespace: "mem_keyed E s \<Longrightarrow> mem_keyed E (dropNamespace ns s)"
  by (simp add: mem_keyed_def dropNamespace_def map_simps)

lemma keyed_Update:
  assumes "mem_inv s" and "mem_keyed E s" and "fair_iter E"
    and "\<forall>u \<in> set ups. distinct (keys (um_Filter u)) \<and> keeps_id E (um_Update u)"
  shows "mem_keyed E (snd (mem_Update E db c ups s))"
proof -
  let ?P = "\<lambda>st :: updState. coll_ok (us_coll st) \<and> keyed E (us_coll st)"
  have "?P (snd (foldS (updateOne E) (enumerate 0 ups) st))" if "?P st" for st
    using that
  proof (rule snd_foldS_invariant [where P = ?P])
    fix iu and st :: updState
    assume "iu \<in> set (enumerate 0 ups)" and "?P st"
    moreover obtain i u where "iu = (i, u)" by (cases iu)
    ultimately show "?P (snd (updateOne E iu st))"
      using assms(3,4) updateOne_ok updateOne_keyed by (auto dest: enumerate_mem)
  qed
  then show ?thesis
    using assms(1,2) mem_keyed_prepared [of E s "namespace db c"]
    by (simp add: mem_Update_def Let_def prepared_def [symmetric] case_prod_beta mem_keyed_setCollection
      mem_keyed_collectionAt mem_inv_collectionAt)
qed

lemma keyed_runOp:
  assumes "mem_inv s" and "mem_keyed E s" and "fair_iter E" and "wf_op opn" and "op_keeps_id E opn"
  shows "mem_keyed E (runOp E opn s)"
proof (cases opn)
  case (CreateOp db c opts)
  with mem_keyed_prepared [OF assms(2), of "namespace db c"] show ?thesis
    by (simp add: mem_CreateCollection_eq Let_def mem_keyed_def)
next
  case (DropOp db c)
  with assms(2) show ?thesis by (simp add: mem_DropCollection_def mem_keyed_dropNamespace)
next
  case (InsertOp db c docs)
  with assms(2) mem_keyed_prepared [OF assms(2), of "namespace db c"] show ?thesis
    by (simp add: mem_Insert_def Let_def prepared_def [symmetric] case_prod_beta mem_keyed_setCollection
      insertDocs_keyed mem_keyed_collectionAt)
next
  case (UpdateOp db c ups)
  with assms keyed_Update show ?thesis by simp
next
  case (DeleteOp db c dels)
  show ?thesis
  proof (cases "map_of (ms_collections s) (namespace db c)")
    case (Some coll)
    with assms(2) have "keyed E coll" by (auto simp: mem_keyed_def)
    then have "keyed E (fst (fold (deleteOne E) (enumerate 0 dels) (coll, 0)))" by (simp add: fold_deleteOne_keyed)
    with Some DeleteOp assms(2) show ?thesis by (simp add: mem_Delete_def case_prod_beta mem_keyed_setCollection)
  qed (use DeleteOp assms(2) in \<open>simp add: mem_Delete_def\<close>)
next
  case (CreateIndexesOp db c idx)
  have "ms_collections (fold (\<lambda>idx s. s\<lparr>ms_indexes := put ns (indexesOf s ns @ [indexDoc E idx]) (ms_indexes s)\<rparr>) xs s) =
      ms_collections s" for ns xs and s :: memStore
    by (induction xs arbitrary: s) simp_all
  with CreateIndexesOp mem_keyed_prepared [OF assms(2), of "namespace db c"] show ?thesis
    by (simp add: mem_CreateIndexes_def Let_def prepared_def [symmetric] mem_keyed_def)
next
  case (DropDatabaseOp db)
  have "mem_keyed E s \<Longrightarrow> mem_keyed E (fold (\<lambda>ns s. if P ns then dropNamespace ns s else s) nss s)" for P nss s
    by (induction nss arbitrary: s) (simp_all add: mem_keyed_dropNamespace)
  with DropDatabaseOp assms(2) show ?thesis by (simp add: mem_DropDatabase_def)
qed

lemma mem_keyed_hex: "env_oid_hex E = env_oid_hex E' \<Longrightarrow> mem_keyed E s = mem_keyed E' s"
  by (simp add: mem_keyed_def keyed_hex [of E E'])

lemma reachable_keyed:
  "reachable op_keeps_id (env_oid_hex E) s \<Longrightarrow> mem_keyed E s"
proof (induction rule: reachable.induct)
  case start
  then show ?case by (simp add: mem_keyed_def NewStore_def)
next
  case (step s E' opn)
  then show ?case
    using keyed_runOp [of s E' opn] reachable_inv mem_keyed_hex [of E' E] by simp
qed

end
