(* ===== verification/Memory_Spec.thy ===== *)
theory Memory_Spec
  imports Memory_Invariant Handler_Contract
begin

text \<open>
  What the operations of the in-memory backend do, on top of \<open>Memory_Invariant\<close>: finds and counts
  see exactly the matching documents, inserts add all documents or a prefix, deletes and updates
  change exactly the matching ones. The interpretation \<open>mem\<close> shows that the backend satisfies the
  contract of \<open>Store_Contract\<close> with \<open>contents\<close> the multiset of stored documents.
\<close>

section \<open>Contents\<close>

definition mem_contents :: "memStore \<Rightarrow> string \<Rightarrow> doc multiset" where
  "mem_contents s ns = mset (map snd (collectionAt s ns))"

lemma collectionAt_setCollection [simp]:
  "collectionAt (setCollection ns coll s) ns' = (if ns' = ns then coll else collectionAt s ns')"
  by (simp add: collectionAt_def setCollection_def map_simps)

lemma contents_setCollection [simp]:
  "mem_contents (setCollection ns coll s) = (mem_contents s)(ns := mset (map snd coll))"
  by (auto simp: mem_contents_def)

lemma contents_prepared [simp]: "mem_contents (prepared ns s) = mem_contents s"
  by (simp add: mem_contents_def [abs_def])

lemma collectionAt_options [simp]: "collectionAt (s\<lparr>ms_options := opts\<rparr>) ns = collectionAt s ns"
  by (simp add: collectionAt_def)

lemma collectionAt_dropNamespace [simp]:
  "collectionAt (dropNamespace ns s) ns' = (if ns' = ns then [] else collectionAt s ns')"
  by (simp add: collectionAt_def dropNamespace_def map_simps)

section \<open>Find and count\<close>

lemma sortDocs_Nil [simp]: "sortDocs E i [] spec = []"
  by (metis length_0_conv length_sortDocs)

lemma ApplyFindOptions_Nil [simp]: "ApplyFindOptions E [] opts = []"
  by (simp add: ApplyFindOptions_def Let_def project_def)

text \<open>The documents a find collects, in the order of the loop over the collection.\<close>

definition found :: "goenv \<Rightarrow> doc \<Rightarrow> collection \<Rightarrow> doc list" where
  "found E f coll = filter (\<lambda>d. Matches E d f) (map snd (env_iter E 0 coll))"

lemma mset_found:
  "fair_iter E \<Longrightarrow> mset (found E f coll) = filter_mset (\<lambda>d. Matches E d f) (mset (map snd coll))"
  by (simp add: found_def)

lemma found_Nil [simp]: "fair_iter E \<Longrightarrow> found E f [] = []"
  using mset_found [of E f "[]"] by simp

lemma mem_Find_eq:
  "fair_iter E \<Longrightarrow> mem_Find E db c req s =
    (Ok (ApplyFindOptions E (found E (fr_Filter req) (collectionAt s (namespace db c))) (findOptions req)), s)"
  by (simp add: mem_Find_def collectionAt_def found_def [symmetric] Let_def split: option.split)

lemma mem_Find_all:
  "fair_iter E \<Longrightarrow> mem_Find E db c (filterRequest f) s = (Ok (found E f (collectionAt s (namespace db c))), s)"
  by (simp add: mem_Find_eq filterRequest_def findOptions_def ApplyFindOptions_all)

lemma mem_Count_eq:
  "fair_iter E \<Longrightarrow> mem_Count E db c f s =
    (Ok (word_of_int (int (length (found E f (collectionAt s (namespace db c)))))), s)"
  by (simp add: mem_Count_def bindS_def returnS_def mem_Find_all)

lemma length_found:
  "fair_iter E \<Longrightarrow> length (found E f coll) = size (filter_mset (\<lambda>d. Matches E d f) (mset (map snd coll)))"
  by (metis mset_found size_mset)

section \<open>Insert\<close>

text \<open>An insert appends a prefix of its documents under their keys; it is all of them exactly when it
  succeeds, and otherwise the next document does not validate, has no key, or has one that is taken.\<close>

definition insertable :: "goenv \<Rightarrow> gval \<Rightarrow> collection \<Rightarrow> doc \<Rightarrow> bool" where
  "insertable E v coll d \<longleftrightarrow> ValidateJSONSchema E v d = Ok () \<and>
     (\<exists>k. DocumentIDKey E d = Ok k \<and> k \<notin> set (keys coll))"

lemma insertDocs_prefix:
  "\<exists>pre post ks. docs = pre @ post \<and> map (DocumentIDKey E) pre = map Ok ks \<and> distinct ks \<and>
     set ks \<inter> set (keys coll) = {} \<and> snd (insertDocs E v docs coll) = coll @ zip ks pre \<and>
     (fst (insertDocs E v docs coll) = Ok () \<longleftrightarrow> post = []) \<and>
     (\<forall>d rest. post = d # rest \<longrightarrow> \<not> insertable E v (coll @ zip ks pre) d)"
proof (induction docs arbitrary: coll)
  case (Cons d docs)
  show ?case
  proof (cases "insertable E v coll d")
    case False
    then show ?thesis
      by (intro exI [of _ "[]"] exI [of _ "d # docs"])
        (auto simp: insertable_def map_of_eq_None_iff split: res.split)
  next
    case True
    then obtain k where k: "DocumentIDKey E d = Ok k" "k \<notin> set (keys coll)"
      and ok: "ValidateJSONSchema E v d = Ok ()" by (auto simp: insertable_def)
    then have run: "insertDocs E v (d # docs) coll = insertDocs E v docs (coll @ [(k, d)])"
      by (simp add: put_new map_of_eq_None_iff)
    from Cons.IH [of "coll @ [(k, d)]"] obtain pre post ks where
      "docs = pre @ post" "map (DocumentIDKey E) pre = map Ok ks" "distinct ks"
      "set ks \<inter> set (keys (coll @ [(k, d)])) = {}"
      "snd (insertDocs E v docs (coll @ [(k, d)])) = (coll @ [(k, d)]) @ zip ks pre"
      "fst (insertDocs E v docs (coll @ [(k, d)])) = Ok () \<longleftrightarrow> post = []"
      "\<forall>d' rest. post = d' # rest \<longrightarrow> \<not> insertable E v ((coll @ [(k, d)]) @ zip ks pre) d'" by blast
    with k show ?thesis
      unfolding run by (intro exI [of _ "d # pre"] exI [of _ post] exI [of _ "k # ks"]) auto
  qed
qed simp

lemma mem_Insert_eq:
  "mem_Insert E db c docs s =
    (let ns = namespace db c;
         v = (case map_of (ms_options s) ns of Some opts \<Rightarrow> field opts ''validator'' | None \<Rightarrow> GNil);
         (r, coll) = insertDocs E v docs (collectionAt s ns)
     in (mapR (\<lambda>_. word_of_int (int (length docs))) r, setCollection ns coll (prepared ns s)))"
  by (simp add: mem_Insert_def prepared_def [symmetric] Let_def)

lemma mem_Insert_Ok:
  assumes "mem_Insert E db c docs s = (Ok n, s')"
  shows "n = word_of_int (int (length docs))"
    and "mem_contents s' = (mem_contents s)(namespace db c := mem_contents s (namespace db c) + mset docs)"
proof -
  let ?ns = "namespace db c"
  let ?v = "case map_of (ms_options s) ?ns of Some opts \<Rightarrow> field opts ''validator'' | None \<Rightarrow> GNil"
  let ?run = "insertDocs E ?v docs (collectionAt s ?ns)"
  have ok: "fst ?run = Ok ()" and n: "n = word_of_int (int (length docs))"
    and s': "s' = setCollection ?ns (snd ?run) (prepared ?ns s)"
    using assms by (auto simp: mem_Insert_eq Let_def mapR_eq_Ok split: prod.splits)
  from insertDocs_prefix [of docs E "collectionAt s ?ns" ?v] ok obtain ks where
    ks: "map (DocumentIDKey E) docs = map Ok ks" "snd ?run = collectionAt s ?ns @ zip ks docs" by auto
  from arg_cong [OF ks(1), of length] have "map snd (zip ks docs) = docs" by simp
  then show "mem_contents s' = (mem_contents s)(?ns := mem_contents s ?ns + mset docs)"
    by (simp add: s' ks(2) mem_contents_def)
  show "n = word_of_int (int (length docs))" by (rule n)
qed

section \<open>Delete\<close>

lemma deleteDocs_one:
  "dm_Limit m = 1 \<Longrightarrow> deleteDocs E m entries (coll, n) =
    (case filter (\<lambda>(k, d). Matches E d (dm_Filter m)) entries of
       [] \<Rightarrow> (coll, n) | (k, d) # _ \<Rightarrow> (del k coll, n + 1))"
  by (induction E m entries "(coll, n)" arbitrary: coll n rule: deleteDocs.induct) auto

lemma deleteDocs_many:
  assumes "dm_Limit m \<noteq> 1"
  shows "snd (deleteDocs E m entries (coll, n)) =
      n + word_of_int (int (length (filter (\<lambda>(k, d). Matches E d (dm_Filter m)) entries)))"
    and "map_of (fst (deleteDocs E m entries (coll, n))) k =
      (if \<exists>d. (k, d) \<in> set entries \<and> Matches E d (dm_Filter m) then None else map_of coll k)"
  using assms
  by (induction E m entries "(coll, n)" arbitrary: coll n rule: deleteDocs.induct) (auto simp: map_simps)

lemma mem_Delete_single:
  "mem_Delete E db c [m] s =
    (case map_of (ms_collections s) (namespace db c) of
       None \<Rightarrow> (Ok 0, s)
     | Some coll \<Rightarrow> (case deleteDocs E m (env_iter E 0 coll) (coll, 0) of
         (coll', n) \<Rightarrow> (Ok n, setCollection (namespace db c) coll' s)))"
  by (simp add: mem_Delete_def deleteOne_def Let_def split: option.split)

lemma mem_Delete_limit1:
  assumes "mem_inv s" and "fair_iter E"
  shows "\<exists>n s'. mem_Delete E db c [\<lparr>dm_Filter = f, dm_Limit = 1\<rparr>] s = (Ok n, s') \<and> mem_inv s' \<and>
    (if filter_mset (\<lambda>d. Matches E d f) (mem_contents s (namespace db c)) = {#}
       then n = 0 \<and> mem_contents s' = mem_contents s
     else n = 1 \<and> (\<exists>d. d \<in># mem_contents s (namespace db c) \<and> Matches E d f \<and>
       mem_contents s' = (mem_contents s)(namespace db c := mem_contents s (namespace db c) - {#d#})))"
proof (cases "map_of (ms_collections s) (namespace db c)")
  case None
  with assms(1) show ?thesis by (simp add: mem_Delete_single mem_contents_def collectionAt_def)
next
  case (Some coll)
  let ?ns = "namespace db c" and ?m = "\<lparr>dm_Filter = f, dm_Limit = 1\<rparr>"
  let ?hits = "filter (\<lambda>(k, d). Matches E d f) (env_iter E 0 coll)"
  from Some have at: "collectionAt s ?ns = coll" by (simp add: collectionAt_def)
  have inv: "mem_inv (snd (mem_Delete E db c [?m] s))" by (rule inv_Delete [OF assms(1)])
  show ?thesis
  proof (cases ?hits)
    case Nil
    then have "\<forall>(k, d) \<in> set coll. \<not> Matches E d f" using assms(2) by (auto simp: filter_empty_conv)
    then have "filter_mset (\<lambda>d. Matches E d f) (mem_contents s ?ns) = {#}"
      by (auto simp: mem_contents_def at filter_mset_eq_conv)
    with Nil inv Some show ?thesis
      by (simp add: mem_Delete_single deleteDocs_one mem_contents_def [abs_def] at fun_eq_iff)
  next
    case (Cons e rest)
    obtain k d where e: "e = (k, d)" by (cases e)
    with Cons have "(k, d) \<in> set ?hits" by simp
    then have kd: "(k, d) \<in> set coll" "Matches E d f" using assms(2) by auto
    then have d: "d \<in># mem_contents s ?ns" by (force simp: mem_contents_def at)
    with kd(2) have "d \<in># filter_mset (\<lambda>d. Matches E d f) (mem_contents s ?ns)" by simp
    then have "filter_mset (\<lambda>d. Matches E d f) (mem_contents s ?ns) \<noteq> {#}" by force
    moreover have "distinct (keys coll)" using mem_inv_collectionAt [OF assms(1), of ?ns] at by (simp add: coll_ok_def)
    then have "mset (map snd (del k coll)) = mem_contents s ?ns - {#d#}"
      using kd(1) mset_del [of coll k d] by (simp add: mem_contents_def at)
    ultimately show ?thesis
      using Cons inv Some d kd(2) by (auto simp: mem_Delete_single deleteDocs_one e)
  qed
qed

section \<open>The backend satisfies the contract\<close>

interpretation mem: store_delete_contract memory_ops namespace mem_inv mem_contents
  fair_iter "\<lambda>db c. True" "\<lambda>d. distinct (keys d)" "\<lambda>E m f. True"
proof unfold_locales
  fix s and d :: doc and ns
  assume "mem_inv s" "d \<in># mem_contents s ns"
  then show "distinct (keys d)"
    using mem_inv_collectionAt [of s ns] coll_ok_set by (auto simp: mem_contents_def)
next
  fix s :: memStore and E :: goenv and req db c
  assume "mem_inv s" "fair_iter E"
  then show "\<exists>found s'. mset found = filter_mset (\<lambda>d. Matches E d (fr_Filter req)) (mem_contents s (namespace db c)) \<and>
      op_Find memory_ops E db c req s = (Ok (ApplyFindOptions E found (findOptions req)), s') \<and>
      mem_inv s' \<and> mem_contents s' = mem_contents s"
    by (intro exI [of _ "found E (fr_Filter req) (collectionAt s (namespace db c))"] exI [of _ s])
      (simp add: memory_ops_def mem_Find_eq mset_found mem_contents_def)
next
  fix s :: memStore and E :: goenv and f db c
  assume "fair_iter E"
  then show "fst (op_Count memory_ops E db c f s) =
      Ok (word_of_int (int (size (filter_mset (\<lambda>d. Matches E d f) (mem_contents s (namespace db c))))))"
    by (simp add: memory_ops_def mem_Count_eq length_found mem_contents_def)
next
  fix s :: memStore and E :: goenv and db c
  assume "mem_inv s"
  then show "\<exists>s'. op_CreateCollection memory_ops E db c \<lparr>cc_Validator = []\<rparr> s = (Ok (), s') \<and> mem_inv s' \<and>
      mem_contents s' = mem_contents s"
    using inv_CreateCollection [of s E db c "\<lparr>cc_Validator = []\<rparr>"]
    by (auto simp: memory_ops_def mem_CreateCollection_eq Let_def mem_contents_def [abs_def])
next
  fix s :: memStore and E :: goenv and db c
  assume "mem_inv s"
  then show "\<exists>s'. op_DropCollection memory_ops E db c s = (Ok (), s') \<and> mem_inv s' \<and>
      mem_contents s' = (mem_contents s)(namespace db c := {#})"
    by (auto simp: memory_ops_def mem_DropCollection_def mem_inv_dropNamespace mem_contents_def)
next
  fix s s' :: memStore and E :: goenv and docs :: "doc list" and db c n
  assume "mem_inv s" "\<forall>d \<in> set docs. distinct (keys d)" and run: "op_Insert memory_ops E db c docs s = (Ok n, s')"
  then have "mem_inv s'" using inv_Insert [of s docs E db c] by (simp add: memory_ops_def)
  with run show "n = word_of_int (int (length docs)) \<and> mem_inv s' \<and>
      mem_contents s' = (mem_contents s)(namespace db c := mem_contents s (namespace db c) + mset docs)"
    using mem_Insert_Ok [of E db c docs s n s'] by (simp add: memory_ops_def)
next
  fix s :: memStore and E :: goenv and db c f
  assume "mem_inv s" "fair_iter E"
  then show "\<exists>n s'. op_Delete memory_ops E db c [\<lparr>dm_Filter = f, dm_Limit = 1\<rparr>] s = (Ok n, s') \<and> mem_inv s' \<and>
      (if filter_mset (\<lambda>d. Matches E d f) (mem_contents s (namespace db c)) = {#}
         then n = 0 \<and> mem_contents s' = mem_contents s
       else n = 1 \<and> (\<exists>d. d \<in># mem_contents s (namespace db c) \<and> Matches E d f \<and>
         mem_contents s' = (mem_contents s)(namespace db c := mem_contents s (namespace db c) - {#d#})))"
    using mem_Delete_limit1 [of s E db c f] by (simp add: memory_ops_def)
qed simp_all

end
