(* ===== verification/Memory_Properties.thy ===== *)
theory Memory_Properties
  imports Memory_Spec
begin

text \<open>
  The properties of the in-memory backend: the invariant and unique identifiers over every run of
  operations, what each operation does to the stored documents and answers, and where the answers
  or the effects are not what a client expects.
\<close>

section \<open>Lemmas on updates\<close>

abbreviation hits :: "goenv \<Rightarrow> UpdateModel \<Rightarrow> collection \<Rightarrow> collection" where
  "hits E u entries \<equiv> filter (\<lambda>(k, d). Matches E d (um_Filter u)) entries"

lemma us_bumpMatched [simp]:
  "us_coll (bumpMatched st) = us_coll st" "us_clock (bumpMatched st) = us_clock st"
  "us_matchedForOp (bumpMatched st) = us_matchedForOp st + 1"
  "us_result (bumpMatched st) = (us_result st)\<lparr>ur_Matched := ur_Matched (us_result st) + 1\<rparr>"
  by (simp_all add: bumpMatched_def)

lemma us_storeUpdated [simp]:
  "us_coll (storeUpdated k d st) = put k d (us_coll st)" "us_clock (storeUpdated k d st) = us_clock st + 1"
  "us_matchedForOp (storeUpdated k d st) = us_matchedForOp st"
  "us_result (storeUpdated k d st) = (us_result st)\<lparr>ur_Modified := ur_Modified (us_result st) + 1\<rparr>"
  by (simp_all add: storeUpdated_def)

text \<open>An update of one document changes the first hit of the loop.\<close>

lemma updateDocs_one:
  assumes "\<not> um_Multi u"
  shows "updateDocs E u entries st =
    (case hits E u entries of
       [] \<Rightarrow> (Ok (), st)
     | (k, d) # _ \<Rightarrow>
         (case ApplyUpdate E (env_now E (us_clock st)) d (um_Update u) of
            Ok d' \<Rightarrow> (Ok (), storeUpdated k d' (bumpMatched st))
          | Err e \<Rightarrow> (Err e, bumpMatched st) | Panic p \<Rightarrow> (Panic p, bumpMatched st)))"
  using assms by (induction E u entries st rule: updateDocs.induct) (auto split: res.split)

text \<open>An update of all documents changes each hit once.\<close>

definition updated_all :: "goenv \<Rightarrow> UpdateModel \<Rightarrow> collection \<Rightarrow> updState \<Rightarrow> updState \<Rightarrow> bool" where
  "updated_all E u entries st st' \<longleftrightarrow>
     (\<forall>k d. map_of (hits E u entries) k = Some d \<longrightarrow>
        (\<exists>i d'. map_of (us_coll st') k = Some d' \<and> ApplyUpdate E (env_now E i) d (um_Update u) = Ok d')) \<and>
     (\<forall>k. map_of (hits E u entries) k = None \<longrightarrow> map_of (us_coll st') k = map_of (us_coll st) k) \<and>
     us_result st' = (us_result st)\<lparr>
       ur_Matched := ur_Matched (us_result st) + word_of_nat (length (hits E u entries)),
       ur_Modified := ur_Modified (us_result st) + word_of_nat (length (hits E u entries))\<rparr> \<and>
     us_matchedForOp st' = us_matchedForOp st + length (hits E u entries)"

lemma updateDocs_many_Cons:
  "um_Multi u \<Longrightarrow> Matches E d (um_Filter u) \<Longrightarrow> updateDocs E u ((k, d) # rest) st = (Ok (), st') \<longleftrightarrow>
    (\<exists>d'. ApplyUpdate E (env_now E (us_clock st)) d (um_Update u) = Ok d' \<and>
       updateDocs E u rest (storeUpdated k d' (bumpMatched st)) = (Ok (), st'))"
  by (auto split: res.splits)

lemma updateDocs_many:
  assumes "um_Multi u" and "updateDocs E u entries st = (Ok (), st')" and "distinct (keys entries)"
  shows "updated_all E u entries st st'"
  using assms(2,3)
proof (induction entries arbitrary: st)
  case Nil
  then show ?case by (simp add: updated_all_def)
next
  case (Cons e rest)
  obtain k d where e: "e = (k, d)" by (cases e)
  show ?case
  proof (cases "Matches E d (um_Filter u)")
    case False
    with Cons e show ?thesis by (simp add: updated_all_def)
  next
    case True
    with Cons.prems(1) obtain d' where d': "ApplyUpdate E (env_now E (us_clock st)) d (um_Update u) = Ok d'"
      and rest: "updateDocs E u rest (storeUpdated k d' (bumpMatched st)) = (Ok (), st')"
      unfolding e updateDocs_many_Cons [OF assms(1) True] by blast
    have k: "map_of (hits E u rest) k = None" using Cons.prems(2) by (auto simp: e map_of_eq_None_iff)
    from Cons.IH [OF rest] Cons.prems(2) have IH: "updated_all E u rest (storeUpdated k d' (bumpMatched st)) st'"
      by (simp add: e)
    then have "map_of (us_coll st') k = Some d'" using k by (simp add: updated_all_def map_simps)
    with IH True d' show ?thesis by (auto simp: updated_all_def e map_simps simp del: map_of_eq_Some_iff)
  qed
qed

lemma mem_Update_single:
  "mem_Update E db c [u] s =
    (let ns = namespace db c; coll = collectionAt s ns;
         st0 = \<lparr>us_coll = coll, us_result = emptyUpdateResult, us_matchedForOp = 0, us_clock = 0\<rparr>;
         (r, st) = bindS (updateDocs E u (env_iter E 0 coll)) (\<lambda>_. upsertStep E u) st0
     in (mapR (\<lambda>_. us_result st) r, setCollection ns (us_coll st) (prepared ns s)))"
proof -
  have "bindS m (\<lambda>_. foldS (updateOne E) []) st = m st" for m :: "(updState, unit) action" and st
    by (auto simp: bindS_def split: prod.split res.split)
  then show ?thesis
    by (simp add: mem_Update_def prepared_def [symmetric] Let_def updateOne_def)
qed

section \<open>Lemmas on distinct and on dropping a database\<close>

lemma distinctLoop_panic:
  "is_Panic (distinctLoop E key docs vs) \<longleftrightarrow> (\<exists>d \<in> set docs. \<exists>v. map_of d key = Some v \<and> \<not> hashable E v)"
  by (induction docs arbitrary: vs) (auto split: option.split)

lemma distinctLoop_no_Err: "distinctLoop E key docs vs \<noteq> Err e"
  by (induction docs arbitrary: vs) (auto split: option.split)

lemma distinctLoop_values:
  "distinctLoop E key docs vs = Ok ws \<Longrightarrow>
   set vs \<subseteq> set ws \<and>
   set ws \<subseteq> set vs \<union> {v. \<exists>d \<in> set docs. map_of d key = Some v} \<and>
   (\<forall>d \<in> set docs. \<forall>v. map_of d key = Some v \<longrightarrow> v \<in> set ws \<or> (\<exists>w \<in> set ws. iface_eq w v)) \<and>
   (sorted_wrt (\<lambda>v w. \<not> iface_eq v w) vs \<longrightarrow> sorted_wrt (\<lambda>v w. \<not> iface_eq v w) ws)"
proof (induction docs arbitrary: vs)
  case (Cons d docs)
  show ?case
  proof (cases "map_of d key")
    case None
    with Cons show ?thesis by auto
  next
    case (Some v)
    with Cons.prems have h: "hashable E v" by (auto split: if_splits)
    show ?thesis
    proof (cases "list_ex (\<lambda>s. iface_eq s v) vs")
      case True
      with Some h Cons.prems have "distinctLoop E key docs vs = Ok ws" by simp
      from Cons.IH [OF this] True Some show ?thesis by (auto simp: list_ex_iff)
    next
      case False
      with Some h Cons.prems have "distinctLoop E key docs (vs @ [v]) = Ok ws" by simp
      from Cons.IH [OF this] False Some show ?thesis by (auto simp: list_ex_iff sorted_wrt_append)
    qed
  qed
qed simp

lemma mem_Distinct_eq:
  "fair_iter E \<Longrightarrow> mem_Distinct E db c req s =
    (distinctLoop E (dr_Key req) (found E (dr_Filter req) (collectionAt s (namespace db c))) [], s)"
  by (simp add: mem_Distinct_def bindS_def liftS_def mem_Find_all)

lemma set_namespaces: "fair_iter E \<Longrightarrow> set (namespaces E s) = set (keys (ms_collections s))"
  by (force simp: namespaces_def)

lemma collectionAt_dropped:
  "collectionAt (fold (\<lambda>ns s. if P ns then dropNamespace ns s else s) nss s) ns =
    (if ns \<in> set nss \<and> P ns then [] else collectionAt s ns)"
  by (induction nss arbitrary: s) auto

lemma collectionAt_DropDatabase:
  assumes "fair_iter E"
  shows "collectionAt (snd (mem_DropDatabase E db s)) ns =
    (if starts_with (db @ ''.'') ns then [] else collectionAt s ns)"
proof -
  have "collectionAt s ns = []" if "ns \<notin> set (namespaces E s)"
    using that by (simp add: set_namespaces [OF assms] collectionAt_def map_of_eq_None_iff [symmetric] del: map_of_eq_None_iff)
  then show ?thesis unfolding mem_DropDatabase_def snd_conv collectionAt_dropped by auto
qed

section \<open>Lemmas on deletes\<close>

lemma deleteDocs_filter:
  "dm_Limit m \<noteq> 1 \<Longrightarrow> fst (deleteDocs E m entries (coll, n)) =
    filter (\<lambda>e. fst e \<notin> fst ` set (filter (\<lambda>(k, d). Matches E d (dm_Filter m)) entries)) coll"
  by (induction E m entries "(coll, n)" arbitrary: coll n rule: deleteDocs.induct)
    (auto simp: AList.delete_eq case_prod_beta intro!: filter_cong)

lemma deleteDocs_all:
  assumes "coll_ok coll" and "fair_iter E" and "dm_Limit m \<noteq> 1"
  shows "deleteDocs E m (env_iter E i coll) (coll, n) =
    (filter (\<lambda>(k, d). \<not> Matches E d (dm_Filter m)) coll,
     n + word_of_nat (size (filter_mset (\<lambda>d. Matches E d (dm_Filter m)) (mset (map snd coll)))))"
proof -
  let ?P = "\<lambda>(k, d). Matches E d (dm_Filter m)"
  have "fst e \<in> fst ` set (filter ?P (env_iter E i coll)) \<longleftrightarrow> ?P e" if "e \<in> set coll" for e
    using assms(1,2) that by (cases e) (auto simp: coll_ok_def image_iff dest: eq_key_imp_eq_value)
  then have "filter (\<lambda>e. fst e \<notin> fst ` set (filter ?P (env_iter E i coll))) coll = filter (\<lambda>e. \<not> ?P e) coll"
    by (intro filter_cong) auto
  then have "fst (deleteDocs E m (env_iter E i coll) (coll, n)) = filter (\<lambda>(k, d). \<not> Matches E d (dm_Filter m)) coll"
    unfolding deleteDocs_filter [OF assms(3)] by (simp add: case_prod_beta')
  moreover have "mset (filter ?P (env_iter E i coll)) = filter_mset ?P (mset coll)" using assms(2) by simp
  then have "length (filter ?P (env_iter E i coll)) = size (filter_mset ?P (mset coll))" by (metis size_mset)
  moreover have "size (filter_mset ?P (mset coll)) = size (filter_mset (\<lambda>d. Matches E d (dm_Filter m)) (mset (map snd coll)))"
    by (simp add: filter_mset_image_mset case_prod_beta')
  ultimately show ?thesis
    using deleteDocs_many(1) [OF assms(3), of E "env_iter E i coll" coll n] by (simp add: prod_eq_iff)
qed

section \<open>Small stores for examples\<close>

lemma collectionAt_NewStore [simp]: "collectionAt NewStore ns = []"
  by (simp add: collectionAt_def NewStore_def)

lemma validate_nil [simp]: "ValidateJSONSchema E GNil d = Ok ()"
  by (simp add: ValidateJSONSchema_def)

lemma insert_two:
  "mem_Insert E db c [[(''_id'', GString a)], [(''_id'', GString b)]] NewStore =
    (if a = b then (Err (PlainError (''duplicate key: string:'' @ a)),
        setCollection (namespace db c) [(''string:'' @ a, [(''_id'', GString a)])] (prepared (namespace db c) NewStore))
     else (Ok 2, setCollection (namespace db c) [(''string:'' @ a, [(''_id'', GString a)]), (''string:'' @ b, [(''_id'', GString b)])]
        (prepared (namespace db c) NewStore)))"
  by (simp add: mem_Insert_eq DocumentIDKey_def Let_def) (simp add: NewStore_def DocumentIDKey_def)

section \<open>Properties\<close>

text \<open>C4: In every state that a run of operations reaches from an empty store, the three maps of the
  in-memory backend have each key once, every collection has an index list that starts with the
  default index on \<open>_id\<close>, options and indexes belong to existing collections, and every stored
  document has each field once.\<close>

theorem memory_invariant:
  assumes "reachable ok hex s"
  shows "mem_inv s"
  using assms by (rule reachable_inv)

theorem memory_invariant_witness:
  "mem_inv (runOp demo_env (InsertOp ''db'' ''c'' [[(''_id'', GString ''a'')]]) NewStore)"
  by (rule memory_invariant [of "\<lambda>_ _. True" "env_oid_hex demo_env"], rule reachable.step)
    (simp_all add: reachable.start)

text \<open>C3: As long as no update writes an \<open>_id\<close>, every document stays under the key of its own \<open>_id\<close> through
  every run of operations, so a collection never holds two documents with one \<open>_id\<close>.\<close>

theorem ids_are_unique:
  assumes "reachable op_keeps_id (env_oid_hex E) s"
    and "map_of (collectionAt s ns) k = Some d" and "map_of (collectionAt s ns) k' = Some d'"
    and "map_of d ''_id'' = map_of d' ''_id''"
  shows "k = k' \<and> DocumentIDKey E d = Ok k"
proof -
  have "keyed E (collectionAt s ns)" using reachable_keyed [OF assms(1)] by (rule mem_keyed_collectionAt)
  with assms(2-4) DocumentIDKey_cong [of d d' E] show ?thesis by (auto simp: keyed_def)
qed

theorem ids_are_unique_witness:
  "DocumentIDKey demo_env [(''_id'', GString ''a'')] = Ok ''string:a''"
proof -
  have "reachable op_keeps_id (env_oid_hex demo_env)
      (runOp demo_env (InsertOp ''db'' ''c'' [[(''_id'', GString ''a'')], [(''_id'', GString ''b'')]]) NewStore)"
    by (rule reachable.step) (simp_all add: reachable.start)
  from ids_are_unique [OF this, of "namespace ''db'' ''c''" "''string:a''" "[(''_id'', GString ''a'')]" "''string:a''"]
  show ?thesis by (simp add: insert_two)
qed

text \<open>An update may set the \<open>_id\<close> of a document to that of another one: it succeeds, and the collection
  then holds two documents with the same \<open>_id\<close>.\<close>

theorem set_id_duplicates:
  "let s0 = snd (mem_Insert demo_env db c [[(''_id'', GString ''a'')], [(''_id'', GString ''b'')]] NewStore);
       u = \<lparr>um_Filter = [(''_id'', GString ''b'')], um_Update = [(''$set'', GDoc [(''_id'', GString ''a'')])],
            um_Multi = False, um_Upsert = False\<rparr>;
       (r, s1) = mem_Update demo_env db c [u] s0
   in is_Ok r \<and> mem_contents s1 (namespace db c) = {#[(''_id'', GString ''a'')], [(''_id'', GString ''a'')]#}"
proof -
  have "Matches demo_env [(''_id'', GString x)] [(''_id'', GString ''b'')] \<longleftrightarrow> x = ''b''" for x
    by (subst Matches_field) (auto simp: filter_operators_def valueEquals_def)
  moreover have "ApplyUpdate demo_env now [(''_id'', GString ''b'')] [(''$set'', GDoc [(''_id'', GString ''a'')])] =
      Ok [(''_id'', GString ''a'')]" for now
    by (simp add: ApplyUpdate_single applyOperator_def update_set_def)
  ultimately show ?thesis
    by (simp add: insert_two mem_Update_single updateDocs_one bindS_def upsertStep_def Let_def)
qed

text \<open>C5: An insert appends a prefix of the documents, each under the key of its \<open>_id\<close>, and touches no other
  collection. It succeeds exactly when the prefix is everything; otherwise the next document does not
  validate, has no usable \<open>_id\<close>, or has one that is already there, and the prefix stays inserted.\<close>

theorem insert_all_or_prefix:
  assumes "mem_Insert E db c docs s = (r, s')"
  shows "\<exists>pre post ks. docs = pre @ post \<and> map (DocumentIDKey E) pre = map Ok ks \<and>
     distinct ks \<and> set ks \<inter> set (keys (collectionAt s (namespace db c))) = {} \<and>
     collectionAt s' (namespace db c) = collectionAt s (namespace db c) @ zip ks pre \<and>
     (\<forall>ns. ns \<noteq> namespace db c \<longrightarrow> collectionAt s' ns = collectionAt s ns) \<and>
     (if post = [] then r = Ok (word_of_int (int (length docs))) else \<not> is_Ok r) \<and>
     (post \<noteq> [] \<longrightarrow> \<not> insertable E
        (case map_of (ms_options s) (namespace db c) of Some opts \<Rightarrow> field opts ''validator'' | None \<Rightarrow> GNil)
        (collectionAt s' (namespace db c)) (hd post))"
proof -
  let ?ns = "namespace db c"
  let ?v = "case map_of (ms_options s) ?ns of Some opts \<Rightarrow> field opts ''validator'' | None \<Rightarrow> GNil"
  let ?run = "insertDocs E ?v docs (collectionAt s ?ns)"
  have r: "r = mapR (\<lambda>_. word_of_int (int (length docs))) (fst ?run)"
    and s': "s' = setCollection ?ns (snd ?run) (prepared ?ns s)"
    using assms by (simp_all add: mem_Insert_eq Let_def split: prod.splits)
  from insertDocs_prefix [of docs E "collectionAt s ?ns" ?v] obtain pre post ks where
    "docs = pre @ post" "map (DocumentIDKey E) pre = map Ok ks" "distinct ks"
    "set ks \<inter> set (keys (collectionAt s ?ns)) = {}" "snd ?run = collectionAt s ?ns @ zip ks pre"
    "fst ?run = Ok () \<longleftrightarrow> post = []" "\<forall>d rest. post = d # rest \<longrightarrow> \<not> insertable E ?v (collectionAt s ?ns @ zip ks pre) d"
    by blast
  then show ?thesis
    unfolding r s' by (intro exI [of _ pre] exI [of _ post] exI [of _ ks]) (auto simp: neq_Nil_conv is_Ok_iff mapR_eq_Ok)
qed

theorem insert_all_or_prefix_witness:
  "\<exists>r s'. mem_Insert demo_env ''db'' ''c'' [[(''_id'', GString ''a'')], [(''_id'', GString ''a'')]] NewStore = (r, s') \<and>
     \<not> is_Ok r \<and> collectionAt s' (namespace ''db'' ''c'') = [(''string:a'', [(''_id'', GString ''a'')])]"
  using insert_all_or_prefix [of demo_env "''db''" "''c''" "[[(''_id'', GString ''a'')], [(''_id'', GString ''a'')]]" NewStore]
  by (simp add: insert_two)

text \<open>C6: After a successful insert, a find returns what it returned before and the new documents that match
  the filter, each as often as it was inserted.\<close>

theorem insert_then_find:
  assumes "mem_inv s" and "\<forall>d \<in> set docs. distinct (keys d)" and "fair_iter E"
    and "mem_Insert E db c docs s = (Ok n, s')"
  shows "\<exists>old new. mem_Find E db c (filterRequest f) s = (Ok old, s) \<and>
     mem_Find E db c (filterRequest f) s' = (Ok new, s') \<and>
     mset new = mset old + mset (filter (\<lambda>d. Matches E d f) docs)"
proof -
  have "op_Insert memory_ops E db c docs s = (Ok n, s')" using assms(4) by (simp add: memory_ops_def)
  from mem.insert_find [OF assms(1,3) TrueI assms(2) this TrueI TrueI, of f] show ?thesis
    using assms(3) by (simp add: memory_ops_def mem_Find_all)
qed

theorem insert_then_find_witness:
  "\<exists>new s'. mem_Find demo_env ''db'' ''c'' (filterRequest [(''_id'', GString ''a'')]) s' = (Ok new, s') \<and>
     mset new = {#[(''_id'', GString ''a'')]#}"
proof -
  let ?docs = "[[(''_id'', GString ''a'')], [(''_id'', GString ''b'')]]"
  obtain s' where s': "mem_Insert demo_env ''db'' ''c'' ?docs NewStore = (Ok 2, s')" by (simp add: insert_two)
  have "\<forall>d \<in> set ?docs. distinct (keys d)" by simp
  from insert_then_find [OF mem_inv_NewStore this fair_iter_demo s', of "[(''_id'', GString ''a'')]"]
  show ?thesis
    by (auto simp: mem_Find_all Matches_field filter_operators_def valueEquals_def simp del: Matches.simps)
qed

text \<open>C23: Three finds of an unchanged in-memory collection, each visiting it in an order of its own, sort the documents that
  match by one key: two consecutive pages of positive size are the page of their joint size, with any projection, as long as no
  two of these documents have equal values at the key, numbers compared as \<^verbatim>\<open>float64\<close> and other values as they are printed (all
  numbers and none NaN, or none of them a number).\<close>

theorem pages_concatenate:
  assumes "mem_inv s" and "\<forall>i. fair_iter (Es i) \<and> alike E (Es i)" and "key \<noteq> ''$natural''"
    and "comparable ((\<lambda>d. fst (valueByPath d key)) ` {d. d \<in># mem_contents s (namespace db c) \<and> Matches E d f})"
    and "\<forall>x y. x \<in># mem_contents s (namespace db c) \<and> y \<in># mem_contents s (namespace db c) \<and> Matches E x f \<and> Matches E y f \<and>
      equal E (fst (valueByPath x key)) (fst (valueByPath y key)) \<longrightarrow> x = y"
    and "0 \<le> sint k" and "0 < sint a" and "0 < sint b" and "sint k + sint a + sint b < 2 ^ 63"
  shows "let page = (\<lambda>k n. \<lparr>fr_Filter = f, fr_Projection = p, fr_Sort = [(key, dir)], fr_Skip = k, fr_Limit = n\<rparr>)
    in \<exists>p1 p2. mem_Find (Es 0) db c (page k a) s = (Ok p1, s) \<and> mem_Find (Es 1) db c (page (k + a) b) s = (Ok p2, s) \<and>
      mem_Find (Es 2) db c (page k (a + b)) s = (Ok (p1 @ p2), s)"
proof -
  define page where "page k n = \<lparr>fr_Filter = f, fr_Projection = p, fr_Sort = [(key, dir)], fr_Skip = k, fr_Limit = n\<rparr>" for k n
  have envs: "\<forall>i. fair_iter (Es i) \<and> alike E (Es i) \<and> True" using assms(2) by simp
  obtain p1 p2 s1 s2 s3 where finds: "mem_Find (Es 0) db c (page k a) s = (Ok p1, s1)" "mem_Find (Es 1) db c (page (k + a) b) s1 = (Ok p2, s2)"
    "mem_Find (Es 2) db c (page k (a + b)) s2 = (Ok (p1 @ p2), s3)"
    using mem.pages [OF assms(1) TrueI envs assms(3) page_def assms(4-9)] unfolding memory_ops_def store_ops.select_convs
    by (elim exE conjE)
  have "snd (mem_Find (Es i) db c req t) = t" for i req t using assms(2) by (simp add: mem_Find_eq)
  from this [of 0 "page k a" s] this [of 1 "page (k + a) b" s1] this [of 2 "page k (a + b)" s2]
  have "s1 = s" "s2 = s1" "s3 = s2" unfolding finds by simp_all
  with finds show ?thesis unfolding page_def Let_def by blast
qed

theorem pages_concatenate_witness:
  "let s = snd (mem_Insert demo_env ''db'' ''c'' [[(''_id'', GString ''a'')], [(''_id'', GString ''b'')]] NewStore);
       page = (\<lambda>k n. \<lparr>fr_Filter = [], fr_Projection = [], fr_Sort = [(''_id'', GInt32 1)], fr_Skip = k, fr_Limit = n\<rparr>)
   in \<exists>p1 p2. mem_Find demo_env ''db'' ''c'' (page 0 1) s = (Ok p1, s) \<and>
     mem_Find (demo_env\<lparr>env_iter := \<lambda>i m. rev m\<rparr>) ''db'' ''c'' (page 1 1) s = (Ok p2, s) \<and>
     mem_Find demo_env ''db'' ''c'' (page 0 2) s = (Ok (p1 @ p2), s)"
proof -
  let ?docs = "[[(''_id'', GString ''a'')], [(''_id'', GString ''b'')]]"
  define s where "s = snd (mem_Insert demo_env ''db'' ''c'' ?docs NewStore)"
  define Es where "Es i = (if i = 1 then demo_env\<lparr>env_iter := \<lambda>i m. rev m\<rparr> else demo_env)" for i :: nat
  have inv: "mem_inv s" unfolding s_def by (rule inv_Insert [OF mem_inv_NewStore]) simp
  have envs: "\<forall>i. fair_iter (Es i) \<and> alike demo_env (Es i)" by (simp add: Es_def fair_iter_def alike_def)
  have stored: "d \<in># mem_contents s (namespace ''db'' ''c'') \<longleftrightarrow> d \<in> set ?docs" for d
    by (auto simp: s_def insert_two mem_contents_def)
  have "comparable ((\<lambda>d. fst (valueByPath d ''_id'')) ` {d. d \<in># mem_contents s (namespace ''db'' ''c'') \<and> Matches demo_env d []})"
    unfolding stored by (auto simp: comparable_def valueByPath_def)
  moreover have "\<forall>x y. x \<in># mem_contents s (namespace ''db'' ''c'') \<and> y \<in># mem_contents s (namespace ''db'' ''c'') \<and>
      Matches demo_env x [] \<and> Matches demo_env y [] \<and> equal demo_env (fst (valueByPath x ''_id'')) (fst (valueByPath y ''_id'')) \<longrightarrow> x = y"
    unfolding stored by (auto simp: valueByPath_def)
  ultimately show ?thesis
    using pages_concatenate [OF inv envs, of "''_id''" "''db''" "''c''" "[]" 0 1 1 "[]" "GInt32 1"]
    by (simp add: s_def [symmetric] Es_def)
qed

text \<open>C7: A deletion without limit removes exactly the matching documents of its collection and answers how
  many they were.\<close>

theorem delete_removes_matching:
  assumes "mem_inv s" and "fair_iter E" and "dm_Limit m \<noteq> 1"
    and "mem_Delete E db c [m] s = (r, s')"
  shows "mem_contents s' (namespace db c) =
      filter_mset (\<lambda>d. \<not> Matches E d (dm_Filter m)) (mem_contents s (namespace db c)) \<and>
    r = Ok (word_of_int (int (size (filter_mset (\<lambda>d. Matches E d (dm_Filter m)) (mem_contents s (namespace db c)))))) \<and>
    (\<forall>ns. ns \<noteq> namespace db c \<longrightarrow> mem_contents s' ns = mem_contents s ns)"
proof (cases "map_of (ms_collections s) (namespace db c)")
  case None
  then have "mem_contents s (namespace db c) = {#}" by (simp add: mem_contents_def collectionAt_def)
  with None assms(4) show ?thesis by (auto simp: mem_Delete_single)
next
  case (Some coll)
  then have at: "collectionAt s (namespace db c) = coll" by (simp add: collectionAt_def)
  then have "coll_ok coll" using mem_inv_collectionAt [OF assms(1)] by metis
  from deleteDocs_all [OF this assms(2,3), of 0 0] Some assms(4) show ?thesis
    by (auto simp: mem_Delete_single mem_contents_def at filter_mset_image_mset case_prod_beta')
qed

theorem delete_removes_matching_witness:
  "mem_contents (snd (mem_Delete demo_env ''db'' ''c'' [\<lparr>dm_Filter = [], dm_Limit = 0\<rparr>] NewStore))
     (namespace ''db'' ''c'') = {#}"
  using delete_removes_matching [OF mem_inv_NewStore fair_iter_demo, of "\<lparr>dm_Filter = [], dm_Limit = 0\<rparr>" "''db''" "''c''"]
  by (simp add: mem_contents_def mem_Delete_single NewStore_def)

text \<open>A deletion with limit 1 removes one matching document if there is any, and answers 1, or answers 0.\<close>

theorem delete_removes_one:
  assumes "mem_inv s" and "fair_iter E"
  shows "\<exists>n s'. mem_Delete E db c [\<lparr>dm_Filter = f, dm_Limit = 1\<rparr>] s = (Ok n, s') \<and> 
    (if filter_mset (\<lambda>d. Matches E d f) (mem_contents s (namespace db c)) = {#}
       then n = 0 \<and> mem_contents s' = mem_contents s
     else n = 1 \<and> (\<exists>d. d \<in># mem_contents s (namespace db c) \<and> Matches E d f \<and>
       mem_contents s' = (mem_contents s)(namespace db c := mem_contents s (namespace db c) - {#d#})))"
  using mem_Delete_limit1 [OF assms, of db c f] by metis

theorem delete_removes_one_witness:
  "\<exists>s'. mem_Delete demo_env ''db'' ''c'' [\<lparr>dm_Filter = [], dm_Limit = 1\<rparr>] NewStore = (Ok 0, s')"
  using delete_removes_one [OF mem_inv_NewStore fair_iter_demo, of "''db''" "''c''" "[]"]
  by (auto simp: mem_contents_def)

text \<open>C8: A successful update of many without upsert replaces every matching document by the result of \<open>ApplyUpdate\<close>, keeps
  every other document, adds and removes none, and answers the number of matches.\<close>

theorem update_changes_all_matching:
  assumes "mem_inv s" and "fair_iter E" and "um_Multi u" and "\<not> um_Upsert u"
    and "mem_Update E db c [u] s = (Ok r, s')"
    and "collectionAt s (namespace db c) = coll" and "collectionAt s' (namespace db c) = coll'"
  shows "(\<forall>k. case map_of coll k of
        None \<Rightarrow> map_of coll' k = None
      | Some d \<Rightarrow> if Matches E d (um_Filter u)
          then \<exists>i d'. map_of coll' k = Some d' \<and> ApplyUpdate E (env_now E i) d (um_Update u) = Ok d'
          else map_of coll' k = Some d) \<and>
    r = \<lparr>ur_Matched = word_of_nat (length (hits E u coll)), ur_Modified = word_of_nat (length (hits E u coll)),
         ur_Upserted = []\<rparr>"
proof -
  have coll: "coll_ok coll" using mem_inv_collectionAt [OF assms(1)] assms(6) by metis
  let ?it = "env_iter E 0 coll"
  let ?st0 = "\<lparr>us_coll = coll, us_result = emptyUpdateResult, us_matchedForOp = 0, us_clock = 0\<rparr>"
  obtain st where st: "updateDocs E u ?it ?st0 = (Ok (), st)" and r: "r = us_result st" and coll': "coll' = us_coll st"
    using assms(4-) by (auto simp: mem_Update_single Let_def bindS_def upsertStep_def mapR_eq_Ok split: prod.splits res.splits)
  have dist: "distinct (keys ?it)" using assms(2) coll by (simp add: coll_ok_def)
  have hits: "mset (hits E u ?it) = mset (hits E u coll)" using assms(2) by simp
  have keys: "distinct (keys (hits E u coll))" using coll by (auto simp: coll_ok_def intro: distinct_map_filter)
  have map: "map_of (hits E u ?it) = map_of (hits E u coll)"
    using mset_map_of_eq [OF hits [symmetric] keys] by simp
  have lookup: "map_of (hits E u coll) k = (case map_of coll k of None \<Rightarrow> None
      | Some d \<Rightarrow> if Matches E d (um_Filter u) then Some d else None)" for k
    using coll keys by (auto simp: coll_ok_def map_of_eq_None_iff dest: eq_key_imp_eq_value split: option.split)
  have len: "length (hits E u ?it) = length (hits E u coll)" using hits by (rule mset_eq_length)
  from updateDocs_many [OF assms(3) st dist] show ?thesis
    unfolding updated_all_def map lookup len r coll'
    by (auto simp: emptyUpdateResult_def split: option.splits if_splits)
qed

theorem update_changes_all_matching_witness:
  "\<exists>r s'. mem_Update demo_env ''db'' ''c'' [\<lparr>um_Filter = [], um_Update = [(''$unset'', GDoc [])], um_Multi = True, um_Upsert = False\<rparr>]
       NewStore = (Ok r, s') \<and> r = \<lparr>ur_Matched = 0, ur_Modified = 0, ur_Upserted = []\<rparr>"
proof -
  let ?u = "\<lparr>um_Filter = [], um_Update = [(''$unset'', GDoc [])], um_Multi = True, um_Upsert = False\<rparr>"
  obtain r s' where run: "mem_Update demo_env ''db'' ''c'' [?u] NewStore = (Ok r, s')"
    by (simp add: mem_Update_single bindS_def upsertStep_def Let_def)
  with update_changes_all_matching [OF mem_inv_NewStore fair_iter_demo, of ?u "''db''" "''c''" r s' "[]"]
  show ?thesis by simp
qed

text \<open>A successful update of one replaces one matching document by the result of \<open>ApplyUpdate\<close> and nothing
  else, or changes nothing when no document matches.\<close>

theorem update_changes_one_matching:
  assumes "mem_inv s" and "fair_iter E" and "\<not> um_Multi u" and "\<not> um_Upsert u"
    and "mem_Update E db c [u] s = (Ok r, s')"
    and "collectionAt s (namespace db c) = coll" and "collectionAt s' (namespace db c) = coll'"
  shows "(hits E u coll = [] \<and> coll' = coll \<and> r = emptyUpdateResult) \<or>
    (\<exists>k d d'. map_of coll k = Some d \<and> Matches E d (um_Filter u) \<and>
       ApplyUpdate E (env_now E 0) d (um_Update u) = Ok d' \<and> coll' = put k d' coll \<and>
       r = \<lparr>ur_Matched = 1, ur_Modified = 1, ur_Upserted = []\<rparr>)"
proof (cases "hits E u (env_iter E 0 coll)")
  case Nil
  then have "\<forall>e \<in> set coll. \<not> (case e of (k, d) \<Rightarrow> Matches E d (um_Filter u))"
    using assms(2) by (simp add: filter_empty_conv)
  then have "hits E u coll = []" by (simp add: filter_empty_conv)
  with Nil assms(3-) show ?thesis
    by (auto simp: mem_Update_single Let_def bindS_def upsertStep_def updateDocs_one)
next
  case (Cons e rest)
  obtain k d where e: "e = (k, d)" by (cases e)
  with Cons have "(k, d) \<in> set (hits E u (env_iter E 0 coll))" by simp
  then have kd: "(k, d) \<in> set coll" "Matches E d (um_Filter u)" using assms(2) by auto
  moreover have "coll_ok coll" using mem_inv_collectionAt [OF assms(1)] assms(6) by metis
  ultimately have k: "map_of coll k = Some d" by (simp add: coll_ok_def)
  note run = assms(5) [unfolded mem_Update_single Let_def assms(6) updateDocs_one [OF assms(3)]]
  obtain d' where d': "ApplyUpdate E (env_now E 0) d (um_Update u) = Ok d'"
    using run Cons by (cases "ApplyUpdate E (env_now E 0) d (um_Update u)") (simp_all add: e bindS_def)
  then have "coll' = put k d' coll \<and> r = \<lparr>ur_Matched = 1, ur_Modified = 1, ur_Upserted = []\<rparr>"
    using run Cons assms(4,7) by (auto simp: e bindS_def upsertStep_def emptyUpdateResult_def)
  with k kd(2) d' show ?thesis by blast
qed

theorem update_changes_one_matching_witness:
  "\<exists>r s'. mem_Update demo_env ''db'' ''c'' [\<lparr>um_Filter = [], um_Update = [], um_Multi = False, um_Upsert = False\<rparr>]
       NewStore = (Ok r, s') \<and> collectionAt s' (namespace ''db'' ''c'') = []"
proof -
  let ?u = "\<lparr>um_Filter = [], um_Update = [], um_Multi = False, um_Upsert = False\<rparr>"
  obtain r s' where run: "mem_Update demo_env ''db'' ''c'' [?u] NewStore = (Ok r, s')"
    by (simp add: mem_Update_single bindS_def upsertStep_def Let_def)
  with update_changes_one_matching [OF mem_inv_NewStore fair_iter_demo, of ?u "''db''" "''c''" r s' "[]"]
  show ?thesis by simp
qed

text \<open>An upsert whose filter matches nothing stores its document under the key of its \<open>_id\<close> without
  looking whether that key is taken: a document with this \<open>_id\<close> is lost, and the answer reports a new one.\<close>

theorem upsert_overwrites:
  assumes "fair_iter E" and "um_Upsert u" and "hits E u (collectionAt s (namespace db c)) = []"
    and "upsertDoc E 0 u = Ok d" and "DocumentIDKey E d = Ok k"
    and "map_of (collectionAt s (namespace db c)) k = Some old"
  shows "\<exists>s'. mem_Update E db c [u] s =
      (Ok \<lparr>ur_Matched = 1, ur_Modified = 1, ur_Upserted = [[(''index'', GInt32 0), (''_id'', field d ''_id'')]]\<rparr>, s') \<and>
    map_of (collectionAt s' (namespace db c)) = (map_of (collectionAt s (namespace db c)))(k \<mapsto> d)"
proof -
  let ?coll = "collectionAt s (namespace db c)"
  have none: "\<forall>e \<in> set (env_iter E 0 ?coll). \<not> (case e of (k, d) \<Rightarrow> Matches E d (um_Filter u))"
    using assms(1,3) by (simp add: filter_empty_conv)
  have "updateDocs E u xs st = (Ok (), st)"
    if "\<forall>e \<in> set xs. \<not> (case e of (k, d) \<Rightarrow> Matches E d (um_Filter u))" for xs st
    using that by (induction xs) auto
  from this [OF none] show ?thesis
    using assms by (simp add: mem_Update_single Let_def bindS_def upsertStep_def storeUpserted_def emptyUpdateResult_def map_simps)
qed

theorem upsert_overwrites_witness:
  "\<exists>s'. mem_Update demo_env ''db'' ''c'' [\<lparr>um_Filter = [(''_id'', GString ''a''), (''v'', GInt32 2)], um_Update = [],
        um_Multi = False, um_Upsert = True\<rparr>]
      (setCollection (namespace ''db'' ''c'') [(''string:a'', [(''_id'', GString ''a'')])] NewStore) =
      (Ok \<lparr>ur_Matched = 1, ur_Modified = 1, ur_Upserted = [[(''index'', GInt32 0), (''_id'', GString ''a'')]]\<rparr>, s') \<and>
    map_of (collectionAt s' (namespace ''db'' ''c'')) = [''string:a'' \<mapsto> [(''_id'', GString ''a''), (''v'', GInt32 2)]]"
proof -
  let ?u = "\<lparr>um_Filter = [(''_id'', GString ''a''), (''v'', GInt32 2)], um_Update = [], um_Multi = False, um_Upsert = True\<rparr>"
  let ?s = "setCollection (namespace ''db'' ''c'') [(''string:a'', [(''_id'', GString ''a'')])] NewStore"
  have "\<not> Matches demo_env [(''_id'', GString ''a'')] [(''v'', GInt32 2)]"
    by (simp add: Matches_field filter_operators_def del: Matches.simps)
  then have "hits demo_env ?u (collectionAt ?s (namespace ''db'' ''c'')) = []"
    using Matches_append [of demo_env "[(''_id'', GString ''a'')]" "[(''_id'', GString ''a'')]" "[(''v'', GInt32 2)]"] by simp
  moreover have "upsertDoc demo_env 0 ?u = Ok [(''_id'', GString ''a''), (''v'', GInt32 2)]"
    by (simp add: upsertDoc_def ApplyUpdate_def)
  ultimately show ?thesis
    using upsert_overwrites [OF fair_iter_demo, of ?u ?s "''db''" "''c''" "[(''_id'', GString ''a''), (''v'', GInt32 2)]"
        "''string:a''" "[(''_id'', GString ''a'')]"] by (simp add: DocumentIDKey_def)
qed

text \<open>The distinct values of a field are those of the matching documents, each once; but when one of them
  cannot be hashed, such as an array or an embedded document, the process panics.\<close>

theorem distinct_answer:
  assumes "fair_iter E"
  shows "let docs = filter_mset (\<lambda>d. Matches E d (dr_Filter req)) (mem_contents s (namespace db c))
    in if \<exists>d v. d \<in># docs \<and> map_of d (dr_Key req) = Some v \<and> \<not> hashable E v
     then is_Panic (fst (mem_Distinct E db c req s))
     else \<exists>vs. mem_Distinct E db c req s = (Ok vs, s) \<and> sorted_wrt (\<lambda>v w. \<not> iface_eq v w) vs \<and>
       (\<forall>v \<in> set vs. \<exists>d. d \<in># docs \<and> map_of d (dr_Key req) = Some v) \<and>
       (\<forall>d v. d \<in># docs \<longrightarrow> map_of d (dr_Key req) = Some v \<longrightarrow> v \<in> set vs \<or> (\<exists>w \<in> set vs. iface_eq w v))"
proof -
  let ?docs = "found E (dr_Filter req) (collectionAt s (namespace db c))"
  let ?run = "distinctLoop E (dr_Key req) ?docs []"
  have docs: "d \<in># filter_mset (\<lambda>d. Matches E d (dr_Filter req)) (mem_contents s (namespace db c)) \<longleftrightarrow> d \<in> set ?docs" for d
    by (metis mset_found [OF assms] mem_contents_def set_mset_mset)
  show ?thesis
  proof (cases "is_Panic ?run")
    case True
    then show ?thesis
      unfolding Let_def docs mem_Distinct_eq [OF assms] by (auto simp: distinctLoop_panic)
  next
    case False
    then obtain vs where vs: "?run = Ok vs"
      using distinctLoop_no_Err [of E "dr_Key req" ?docs "[]"] by (cases ?run) auto
    moreover have "\<not> (\<exists>d \<in> set ?docs. \<exists>v. map_of d (dr_Key req) = Some v \<and> \<not> hashable E v)"
      using False unfolding distinctLoop_panic .
    ultimately show ?thesis
      using distinctLoop_values [OF vs] unfolding Let_def docs mem_Distinct_eq [OF assms] by auto
  qed
qed

theorem distinct_answer_witness:
  "is_Panic (fst (mem_Distinct demo_env ''db'' ''c'' \<lparr>dr_Key = ''tags'', dr_Filter = []\<rparr>
     (setCollection (namespace ''db'' ''c'') [(''string:a'', [(''tags'', GArr [])])] NewStore)))"
  using distinct_answer [OF fair_iter_demo, of "\<lparr>dr_Key = ''tags'', dr_Filter = []\<rparr>"
      "setCollection (namespace ''db'' ''c'') [(''string:a'', [(''tags'', GArr [])])] NewStore" "''db''" "''c''"]
  by (simp add: mem_contents_def)

text \<open>Dropping a database empties exactly the namespaces that start with its name and a dot; these
  include the collections of databases whose own name has a dot, such as "db.x".\<close>

theorem dropDatabase_drops_by_prefix:
  assumes "fair_iter E"
  shows "mem_contents (snd (mem_DropDatabase E db s)) ns =
    (if starts_with (db @ ''.'') ns then {#} else mem_contents s ns)"
  using collectionAt_DropDatabase [OF assms] by (simp add: mem_contents_def)

theorem dropDatabase_drops_by_prefix_witness:
  "mem_contents (snd (mem_DropDatabase demo_env ''db'' NewStore)) (namespace ''db.x'' ''c'') = {#} \<and>
   mem_contents (snd (mem_DropDatabase demo_env ''db'' NewStore)) (namespace ''db2'' ''c'') = mem_contents NewStore (namespace ''db2'' ''c'')"
  using dropDatabase_drops_by_prefix [OF fair_iter_demo, of "''db''" NewStore "namespace ''db.x'' ''c''"]
    dropDatabase_drops_by_prefix [OF fair_iter_demo, of "''db''" NewStore "namespace ''db2'' ''c''"]
  by (simp add: namespace_def)

text \<open>Updates do not look at the validator of the collection: whatever validators are stored, they give the
  same answer and the same documents.\<close>

theorem update_ignores_validator:
  "fst (mem_Update E db c ups (s\<lparr>ms_options := opts\<rparr>)) = fst (mem_Update E db c ups s) \<and>
   mem_contents (snd (mem_Update E db c ups (s\<lparr>ms_options := opts\<rparr>))) = mem_contents (snd (mem_Update E db c ups s))"
proof -
  have "mem_contents (prepared ns (s\<lparr>ms_options := opts\<rparr>)) = mem_contents s" for ns
    by (simp add: mem_contents_def [abs_def])
  then show ?thesis
    by (simp add: mem_Update_def prepared_def [symmetric] Let_def case_prod_beta)
qed

end
