(* ===== verification/Handler_Properties.thy ===== *)
theory Handler_Properties
  imports Handler_Contract Memory_Properties
begin

text \<open>
  What commands do: the properties of the handlers over the in-memory backend, which follow from the
  lemmas of \<open>Handler_Contract\<close> by the interpretation \<open>mem\<close>, and those of the dispatch over any backend.
\<close>

section \<open>Lemmas on the dispatch\<close>

definition staticNames :: "string list" where
  "staticNames =
     [''hello'', ''isMaster'', ''ismaster'', ''ping'', ''buildInfo'', ''serverStatus'',
      ''connectionStatus'', ''dbStats'', ''collStats'', ''hostInfo'', ''getCmdLineOpts'',
      ''getParameter'', ''currentOp'', ''top'', ''profile'', ''listCommands'', ''usersInfo'',
      ''rolesInfo'', ''getDefaultRWConcern'', ''validate'', ''planCacheClear'', ''explain'',
      ''collMod'', ''listDatabases'']"

definition collectionNames :: "string list" where
  "collectionNames =
     [''create'', ''drop'', ''createIndexes'', ''listIndexes'', ''dropIndexes'', ''insert'', ''find'',
      ''count'', ''distinct'', ''findAndModify'', ''update'', ''delete'', ''aggregate'']"

definition readNames :: "string list" where
  "readNames = [''find'', ''count'', ''distinct'', ''aggregate'', ''listIndexes'', ''dropIndexes'']"

definition handledNames :: "string list" where
  "handledNames = staticNames @ collectionNames @ [''listCollections'', ''dropDatabase'', ''renameCollection'']"

lemma keys_static: "keys (staticReplies cmd arg) = staticNames"
  by (simp add: staticReplies_def staticNames_def)

lemma keys_collection: "keys (collectionHandlers ops Es cmd) = collectionNames"
  by (simp add: collectionHandlers_def collectionNames_def)

lemma static_None: "map_of (staticReplies cmd arg) name = None \<longleftrightarrow> name \<notin> set staticNames"
  unfolding keys_static [of cmd arg, symmetric] by (simp add: map_of_eq_None_iff)

lemma collection_None: "map_of (collectionHandlers ops Es cmd) name = None \<longleftrightarrow> name \<notin> set collectionNames"
  unfolding keys_collection [of ops Es cmd, symmetric] by (simp add: map_of_eq_None_iff)

lemma names_disjoint: "list_all (\<lambda>n. n \<notin> set staticNames) (collectionNames @ [''listCollections'', ''dropDatabase''])"
  by code_simp

lemma names_distinct: "distinct collectionNames"
  by code_simp

lemma other_names: "''listCollections'' \<notin> set collectionNames" "''dropDatabase'' \<notin> set collectionNames"
  by code_simp+

lemma dispatch_unhandled:
  "name \<notin> set handledNames \<Longrightarrow> dispatch ops Es cmd name arg s = (Err (commandNotFound name), s)"
  using static_None [of cmd arg name] collection_None [of ops Es cmd name]
  by (simp add: dispatch_def handledNames_def liftS_def)

lemma dispatch_collection:
  assumes "(name, h) \<in> set (collectionHandlers ops Es cmd)"
  shows "dispatch ops Es cmd name arg = bindS (liftS (collectionArg name arg)) h"
proof -
  have h: "map_of (collectionHandlers ops Es cmd) name = Some h"
    using assms names_distinct keys_collection [of ops Es cmd] by (intro map_of_is_SomeI) simp_all
  then have "name \<in> set collectionNames" using collection_None [of ops Es cmd name] by simp
  then have "map_of (staticReplies cmd arg) name = None"
    using names_disjoint by (simp add: static_None list_all_iff)
  with h show ?thesis by (simp add: dispatch_def [abs_def])
qed

lemma dispatch_other:
  "dispatch ops Es cmd ''listCollections'' arg = h_listCollections ops Es cmd"
  "dispatch ops Es cmd ''dropDatabase'' arg = h_dropDatabase ops Es cmd"
proof -
  have "map_of (staticReplies cmd arg) ''listCollections'' = None" "map_of (staticReplies cmd arg) ''dropDatabase'' = None"
    "map_of (collectionHandlers ops Es cmd) ''listCollections'' = None"
    "map_of (collectionHandlers ops Es cmd) ''dropDatabase'' = None"
    using names_disjoint other_names by (simp_all add: static_None collection_None)
  then show "dispatch ops Es cmd ''listCollections'' arg = h_listCollections ops Es cmd"
    "dispatch ops Es cmd ''dropDatabase'' arg = h_dropDatabase ops Es cmd"
    by (simp_all add: dispatch_def [abs_def])
qed

lemma requiredString_missing: "map_of cmd key = None \<Longrightarrow> requiredString cmd key = Err (badValue (''missing required field '' @ key))"
  by (simp add: requiredString_def)

lemma insertDocs_succeeds:
  assumes "map (DocumentIDKey E) docs = map Ok ks" and "distinct ks" and "set ks \<inter> set (keys coll) = {}"
  shows "insertDocs E GNil docs coll = (Ok (), coll @ zip ks docs)"
  using assms
proof (induction docs arbitrary: ks coll)
  case (Cons d docs)
  then obtain k ks' where ks: "ks = k # ks'" "DocumentIDKey E d = Ok k" "map (DocumentIDKey E) docs = map Ok ks'"
    by (cases ks) auto
  with Cons.prems have "put k d coll = coll @ [(k, d)]" "map_of coll k = None"
    by (auto simp: put_new map_of_eq_None_iff)
  moreover have "insertDocs E GNil docs (coll @ [(k, d)]) = (Ok (), (coll @ [(k, d)]) @ zip ks' docs)"
    using Cons.IH [OF ks(3), of "coll @ [(k, d)]"] Cons.prems ks(1) by auto
  ultimately show ?case using ks by simp
qed simp

text \<open>Inserting what a find of everything returned into the emptied collection succeeds.\<close>

lemma keyed_keys:
  assumes "keyed E coll" and "distinct (keys coll)" and "mset xs = mset coll"
  shows "map (DocumentIDKey E) (map snd xs) = map Ok (keys xs)" and "distinct (keys xs)"
proof -
  have "DocumentIDKey E d = Ok k" if "(k, d) \<in> set xs" for k d
    using that assms by (metis keyed_def map_of_is_SomeI mset_eq_setD)
  then show "map (DocumentIDKey E) (map snd xs) = map Ok (keys xs)" by auto
  show "distinct (keys xs)" using assms(2,3) by (metis mset_eq_imp_distinct_iff mset_map)
qed

lemma reinsert_succeeds:
  assumes "mem_inv s" and "mem_keyed E s" and "fair_iter E0" and "env_oid_hex E = env_oid_hex E'"
    and "docs = found E0 [] (collectionAt s ns)" and "ns = namespace db c"
    and "collectionAt t ns = []" and "map_of (ms_options t) ns = Some []"
  shows "fst (mem_Insert E' db c docs t) = Ok (word_of_int (int (length docs)))"
proof -
  let ?xs = "env_iter E0 0 (collectionAt s ns)"
  have docs: "docs = map snd ?xs" by (simp add: assms(5) found_def)
  have keyed: "keyed E' (collectionAt s ns)"
    using mem_keyed_collectionAt [OF assms(2)] keyed_hex [OF assms(4)] by simp
  have dist: "distinct (keys (collectionAt s ns))"
    using mem_inv_collectionAt [OF assms(1)] by (simp add: coll_ok_def)
  from keyed_keys [OF keyed dist, of ?xs] assms(3)
  have "insertDocs E' GNil docs [] = (Ok (), [] @ zip (keys ?xs) docs)"
    unfolding docs by (intro insertDocs_succeeds) auto
  then show ?thesis using assms(6-8) by (simp add: mem_Insert_eq Let_def)
qed

text \<open>Actions that leave the state alone, whatever they answer.\<close>

definition readonly :: "('s, 'a) action \<Rightarrow> bool" where
  "readonly m \<longleftrightarrow> (\<forall>s. snd (m s) = s)"

named_theorems readonly_intros \<open>actions that leave the state alone\<close>

lemma readonly_lift [readonly_intros]: "readonly (liftS r)"
  by (simp add: readonly_def liftS_def)

lemma readonly_return [readonly_intros]: "readonly (returnS x)"
  by (simp add: readonly_def returnS_def)

lemma readonly_bind [readonly_intros]: "readonly m \<Longrightarrow> (\<And>x. readonly (f x)) \<Longrightarrow> readonly (bindS m f)"
  unfolding readonly_def
  by (intro allI snd_bindS_invariant [where P = "\<lambda>t. t = s" for s]) simp_all

lemma readonly_Find [readonly_intros]: "readonly (mem_Find E db c req)"
  by (simp add: readonly_def mem_Find_def Let_def split: option.split)

lemma readonly_Count [readonly_intros]: "readonly (mem_Count E db c f)"
  unfolding mem_Count_def by (intro readonly_intros)

lemma readonly_Distinct [readonly_intros]: "readonly (mem_Distinct E db c req)"
  unfolding mem_Distinct_def by (intro readonly_intros)

lemma readonly_Aggregate [readonly_intros]: "readonly (mem_Aggregate E db c p)"
  unfolding mem_Aggregate_def by (intro readonly_intros)

lemma readonly_ListIndexes [readonly_intros]: "readonly (mem_ListIndexes E db c)"
  by (simp add: readonly_def mem_ListIndexes_def)

lemma readonly_ListCollections [readonly_intros]: "readonly (mem_ListCollections E db f)"
  by (simp add: readonly_def mem_ListCollections_def Let_def)

text \<open>Two environments that differ only in the order of their loops.\<close>

definition demo_rev :: goenv where
  "demo_rev = demo_env\<lparr>env_iter := \<lambda>i m. rev m\<rparr>"

section \<open>Properties\<close>

text \<open>A command whose name no handler has is answered with \<^verbatim>\<open>CommandNotFound\<close>, code 59, and the backend is
  not called.\<close>

theorem unknown_command:
  assumes "Name cmd = Ok (name, arg)" and "name \<notin> set handledNames"
  shows "Handle ops Es cmd s = (Err (MongoError 59 ''CommandNotFound'' (''no such command: '' @ name)), s)"
  using assms dispatch_unhandled [OF assms(2), of ops Es cmd arg s]
  by (simp add: Handle_def bindS_lift_Ok commandNotFound_def CodeCommandNotFound_def)

theorem unknown_command_witness:
  "Handle memory_ops (\<lambda>_. demo_env) [(''dropTarget'', GInt32 1)] NewStore =
     (Err (MongoError 59 ''CommandNotFound'' ''no such command: dropTarget''), NewStore)"
proof -
  have "''dropTarget'' \<notin> set handledNames" by code_simp
  from unknown_command [OF _ this, of "[(''dropTarget'', GInt32 1)]" "GInt32 1"] show ?thesis
    by (simp add: Name_def knownNames_def)
qed

text \<open>Every command that works on a collection or a database needs \<^verbatim>\<open>$db\<close>: without it the answer is
  \<^verbatim>\<open>BadValue\<close>, code 2, and the backend is not called.\<close>

theorem missing_database:
  assumes "Name cmd = Ok (name, GString coll)" and "map_of cmd ''$db'' = None"
    and "name \<in> set collectionNames - {''dropIndexes''} \<union> {''listCollections'', ''dropDatabase''}"
    and "coll \<noteq> ''''"
  shows "Handle ops Es cmd s = (Err (MongoError 2 ''BadValue'' ''missing required field $db''), s)"
proof -
  let ?err = "Err (badValue ''missing required field $db'')"
  have db: "requiredString cmd ''$db'' = ?err" using requiredString_missing [OF assms(2)] by simp
  have handlers: "\<forall>(n, h) \<in> set (collectionHandlers ops Es cmd). n \<noteq> ''dropIndexes'' \<longrightarrow> h coll s = (?err, s)"
    by (simp add: collectionHandlers_def h_insert_def h_find_def h_count_def h_distinct_def h_findAndModify_def
      h_update_def h_delete_def h_aggregate_def h_createCollection_def h_dropCollection_def h_createIndexes_def
      h_listIndexes_def db bindS_lift_Err)
  have "dispatch ops Es cmd name (GString coll) s = (?err, s)"
  proof (cases "name \<in> {''listCollections'', ''dropDatabase''}")
    case True
    then show ?thesis
      by (auto simp: dispatch_other h_listCollections_def h_dropDatabase_def db bindS_lift_Err)
  next
    case False
    with assms(3) have "name \<in> set (keys (collectionHandlers ops Es cmd)) \<and> name \<noteq> ''dropIndexes''"
      unfolding keys_collection by blast
    then obtain h where "(name, h) \<in> set (collectionHandlers ops Es cmd)" "name \<noteq> ''dropIndexes''" by auto
    with handlers dispatch_collection [OF this(1)] assms(4) show ?thesis
      by (auto simp: collectionArg_def bindS_lift_Ok)
  qed
  with assms(1) show ?thesis by (simp add: Handle_def bindS_lift_Ok badValue_def CodeBadValue_def)
qed

theorem missing_database_witness:
  "Handle memory_ops (\<lambda>_. demo_env) [(''find'', GString ''c'')] NewStore =
     (Err (MongoError 2 ''BadValue'' ''missing required field $db''), NewStore)"
  by (rule missing_database [of _ "''find''" "''c''"]) (simp_all add: Name_def knownNames_def collectionNames_def)

text \<open>C12: A successful rename to another namespace leaves there what the target held before (nothing with
  \<^verbatim>\<open>dropTarget\<close>) and the documents of the source, empties the source, and touches no other collection.\<close>

theorem rename_moves_documents:
  assumes "mem_inv s" and "\<forall>i. fair_iter (Es i)"
    and "splitNamespace fromNS (stringValue (field cmd ''$db'')) = (db, c)"
    and "requiredString cmd ''to'' = Ok toNS" and "splitNamespace toNS db = (tdb, tc)"
    and "namespace tdb tc \<noteq> namespace db c"
    and "h_renameCollection memory_ops Es cmd fromNS s = (Ok reply, s')"
  shows "mem_contents s' (namespace tdb tc) =
      (if h_truthy (field cmd ''dropTarget'') then {#} else mem_contents s (namespace tdb tc)) + mem_contents s (namespace db c) \<and>
    mem_contents s' (namespace db c) = {#} \<and>
    (\<forall>ns. ns \<noteq> namespace tdb tc \<longrightarrow> ns \<noteq> namespace db c \<longrightarrow> mem_contents s' ns = mem_contents s ns)"
  using mem.rename_moves [OF assms(1-3) _ assms(4,5) _ assms(7)] assms(6) by simp

theorem rename_moves_documents_witness:
  "\<exists>s'. h_renameCollection memory_ops (\<lambda>_. demo_env) [(''to'', GString ''db.e'')] ''db.c'' NewStore = (Ok (okReply []), s') \<and>
     mem_contents s' (namespace ''db'' ''e'') = {#}"
proof -
  let ?cmd = "[(''to'', GString ''db.e'')]"
  obtain s' where run: "h_renameCollection memory_ops (\<lambda>_. demo_env) ?cmd ''db.c'' NewStore = (Ok (okReply []), s')"
    by (simp add: h_renameCollection_def memory_ops_def requiredString_def splitNamespace_def field_def run_simps bindS_simps
      mem_Find_all mem_CreateCollection_eq Let_def mem_DropCollection_def)
  from rename_moves_documents [OF mem_inv_NewStore _ _ _ _ _ this, of "''db''" "''c''" "''db.e''" "''db''" "''e''"] run
  show ?thesis by (simp add: requiredString_def splitNamespace_def field_def namespace_def mem_contents_def)
qed

text \<open>The answer of \<^verbatim>\<open>count\<close> is the number of documents that a find with the same filter returns.\<close>

theorem count_agrees_with_find:
  assumes "mem_inv s" and "\<forall>i. fair_iter (Es i)"
    and "requiredString cmd ''$db'' = Ok db" and "docArg cmd ''query'' = Ok f"
  shows "\<exists>docs. mem_Find (Es 0) db c (filterRequest f) s = (Ok docs, s) \<and>
    h_count memory_ops Es cmd c s = (Ok (okReply [(''n'', GInt64 (word_of_int (int (length docs))))]), s)"
proof -
  have "readonly (h_count memory_ops Es cmd c)"
    unfolding h_count_def memory_ops_def store_ops.simps by (intro readonly_intros)
  with mem.count_is_find_length [OF assms(1,2) _ _ assms(3,4), of c] show ?thesis
    using readonly_Find [of "Es 0" db c "filterRequest f"]
    by (auto simp: memory_ops_def readonly_def prod_eq_iff)
qed

theorem count_agrees_with_find_witness:
  "h_count memory_ops (\<lambda>_. demo_env) [(''$db'', GString ''db'')] ''c'' NewStore = (Ok (okReply [(''n'', GInt64 0)]), NewStore)"
  using count_agrees_with_find [OF mem_inv_NewStore, of "\<lambda>_. demo_env" "[(''$db'', GString ''db'')]" "''db''" "[]" "''c''"]
  by (simp add: requiredString_def docArg_def mem_Find_all)

text \<open>Renaming a collection to its own name with \<^verbatim>\<open>dropTarget\<close> is answered with ok and loses every
  document: the target is dropped, filled again, and then dropped as the source.\<close>

theorem rename_onto_itself_loses_documents:
  assumes "reachable op_keeps_id hex s" and "\<forall>i. fair_iter (Es i) \<and> env_oid_hex (Es i) = hex"
    and "splitNamespace fromNS (stringValue (field cmd ''$db'')) = (db, c)"
    and "requiredString cmd ''to'' = Ok toNS" and "splitNamespace toNS db = (db, c)"
    and "h_truthy (field cmd ''dropTarget'')"
  shows "\<exists>s'. h_renameCollection memory_ops Es cmd fromNS s = (Ok (okReply []), s') \<and>
    mem_contents s' (namespace db c) = {#}"
proof -
  let ?ns = "namespace db c"
  define docs where "docs = found (Es 0) [] (collectionAt s ?ns)"
  define s1 where "s1 = dropNamespace ?ns s"
  define s2 where "s2 = snd (mem_CreateCollection (Es 2) db c \<lparr>cc_Validator = []\<rparr> s1)"
  have inv: "mem_inv s" using reachable_inv [OF assms(1)] .
  have keyed: "mem_keyed (Es 0) s" using reachable_keyed [of "Es 0" s] assms(1,2) by simp
  have s2: "collectionAt s2 ?ns = []" "map_of (ms_options s2) ?ns = Some []"
    by (simp_all add: s2_def s1_def mem_CreateCollection_eq Let_def map_simps)
  have "fst (mem_Insert (Es 3) db c docs s2) = Ok (word_of_int (int (length docs)))"
    by (rule reinsert_succeeds [OF inv keyed, of "Es 0" _ _ ?ns]) (use assms(2) s2 docs_def in auto)
  then obtain s3 where ins: "mem_Insert (Es 3) db c docs s2 = (Ok (word_of_int (int (length docs))), s3)"
    by (metis prod.collapse)
  have find: "mem_Find (Es 0) db c (filterRequest []) s = (Ok docs, s)"
    using assms(2) by (simp add: mem_Find_all docs_def)
  have drop: "mem_DropCollection E db c t = (Ok (), dropNamespace ?ns t)" for E t by (simp add: mem_DropCollection_def)
  have create: "mem_CreateCollection (Es 2) db c \<lparr>cc_Validator = []\<rparr> s1 = (Ok (), s2)"
    by (simp add: s2_def mem_CreateCollection_eq Let_def)
  show ?thesis
  proof (cases "docs = []")
    case True
    with assms(3-6) find drop create show ?thesis
      by (simp add: h_renameCollection_def memory_ops_def run_simps bindS_simps s1_def mem_contents_def)
  next
    case False
    with assms(3-6) find drop create ins show ?thesis
      by (simp add: h_renameCollection_def memory_ops_def run_simps bindS_simps s1_def mem_contents_def)
  qed
qed

theorem rename_onto_itself_loses_documents_witness:
  "\<exists>s'. h_renameCollection memory_ops (\<lambda>_. demo_env) [(''to'', GString ''db.c''), (''dropTarget'', GBool True)] ''db.c''
      (runOp demo_env (InsertOp ''db'' ''c'' [[(''_id'', GString ''a'')], [(''_id'', GString ''b'')]]) NewStore) =
      (Ok (okReply []), s') \<and> mem_contents s' (namespace ''db'' ''c'') = {#}"
proof (rule rename_onto_itself_loses_documents [of "env_oid_hex demo_env" _ _ _ _ "''db''" "''c''" "''db.c''"])
  show "reachable op_keeps_id (env_oid_hex demo_env)
      (runOp demo_env (InsertOp ''db'' ''c'' [[(''_id'', GString ''a'')], [(''_id'', GString ''b'')]]) NewStore)"
    by (rule reachable.step) (simp_all add: reachable.start)
qed (simp_all add: requiredString_def splitNamespace_def field_def cut_on_Some)

text \<open>C14: \<^verbatim>\<open>findAndModify\<close> with \<^verbatim>\<open>remove\<close> removes exactly one matching document and answers with a matching
  document, or changes nothing and answers with an empty one when none matches.\<close>

theorem findAndModify_removes_one:
  assumes "mem_inv s" and "\<forall>i. fair_iter (Es i)" and "\<And>d. Matches (Es 0) d q = Matches (Es 1) d q"
    and "requiredString cmd ''$db'' = Ok db" and "docOrNone (field cmd ''query'') = q" and "h_truthy (field cmd ''remove'')"
  shows "\<exists>reply s'. h_findAndModify memory_ops Es cmd c s = (Ok reply, s') \<and>
    (if filter_mset (\<lambda>d. Matches (Es 0) d q) (mem_contents s (namespace db c)) = {#}
       then mem_contents s' = mem_contents s \<and> field reply ''value'' = GDoc []
     else \<exists>answered removed. answered \<in># mem_contents s (namespace db c) \<and> Matches (Es 0) answered q \<and>
       removed \<in># mem_contents s (namespace db c) \<and> Matches (Es 0) removed q \<and> field reply ''value'' = GDoc answered \<and>
       mem_contents s' = (mem_contents s)(namespace db c := mem_contents s (namespace db c) - {#removed#}))"
  by (rule mem.findAndRemove [OF assms(1,2) _ _ assms(3-6)]) simp_all

theorem findAndModify_removes_one_witness:
  "\<exists>reply s'. h_findAndModify memory_ops (\<lambda>_. demo_env) [(''remove'', GBool True), (''$db'', GString ''db'')] ''c'' NewStore =
      (Ok reply, s') \<and> field reply ''value'' = GDoc []"
  using findAndModify_removes_one [OF mem_inv_NewStore, of "\<lambda>_. demo_env" "[]"
      "[(''remove'', GBool True), (''$db'', GString ''db'')]" "''db''" "''c''"]
  by (auto simp: requiredString_def docOrNone_def field_def mem_contents_def)

text \<open>The document that \<^verbatim>\<open>findAndModify\<close> with \<^verbatim>\<open>remove\<close> answers need not be the one it removes: the find and
  the deletion are two scans, which Go may run in different orders.\<close>

theorem findAndModify_answers_another_document:
  "let ns = namespace ''db'' ''c'';
       s = setCollection ns [(''string:a'', [(''_id'', GString ''a'')]), (''string:b'', [(''_id'', GString ''b'')])] NewStore;
       cmd = [(''findAndModify'', GString ''c''), (''remove'', GBool True), (''$db'', GString ''db'')];
       (r, s') = h_findAndModify memory_ops (\<lambda>i. if i = 0 then demo_env else demo_rev) cmd ''c'' s
   in (\<exists>reply. r = Ok reply \<and> field reply ''value'' = GDoc [(''_id'', GString ''a'')]) \<and>
      mem_contents s' ns = {#[(''_id'', GString ''a'')]#}"
proof -
  let ?a = "[(''_id'', GString ''a'')]" and ?b = "[(''_id'', GString ''b'')]"
  let ?s = "setCollection (namespace ''db'' ''c'') [(''string:a'', ?a), (''string:b'', ?b)] NewStore"
  let ?s' = "setCollection (namespace ''db'' ''c'') [(''string:a'', ?a)] ?s"
  have "mem_Find demo_env ''db'' ''c'' ((filterRequest [])\<lparr>fr_Limit := 1\<rparr>) ?s = (Ok [?a], ?s)"
    by (simp add: mem_Find_eq found_def filterRequest_def findOptions_def ApplyFindOptions_def)
  moreover have "mem_Delete demo_rev ''db'' ''c'' [\<lparr>dm_Filter = [], dm_Limit = 1\<rparr>] ?s = (Ok 1, ?s')"
    by (simp add: mem_Delete_single setCollection_def demo_rev_def NewStore_def)
  ultimately show ?thesis
    by (simp add: Let_def h_findAndModify_def memory_ops_def requiredString_def docOrNone_def run_simps bindS_simps
      headDoc_def optDoc_def reply_value field_def [of "_ # _"])
qed

text \<open>With \<^verbatim>\<open>new\<close>, \<^verbatim>\<open>findAndModify\<close> answers the document before the update whenever the update makes it leave
  the query: the second find looks for the query again instead of for the document.\<close>

theorem findAndModify_new_answers_old:
  "let ns = namespace ''db'' ''c'';
       s = setCollection ns [(''string:a'', [(''_id'', GString ''a''), (''st'', GString ''x'')])] NewStore;
       cmd = [(''findAndModify'', GString ''c''), (''query'', GDoc [(''st'', GString ''x'')]),
              (''update'', GDoc [(''$set'', GDoc [(''st'', GString ''y'')])]), (''new'', GBool True), (''$db'', GString ''db'')];
       (r, s') = h_findAndModify memory_ops (\<lambda>_. demo_env) cmd ''c'' s
   in (\<exists>reply. r = Ok reply \<and> field reply ''value'' = GDoc [(''_id'', GString ''a''), (''st'', GString ''x'')]) \<and>
      mem_contents s' ns = {#[(''_id'', GString ''a''), (''st'', GString ''y'')]#}"
proof -
  let ?x = "[(''_id'', GString ''a''), (''st'', GString ''x'')]" and ?y = "[(''_id'', GString ''a''), (''st'', GString ''y'')]"
  let ?s = "setCollection (namespace ''db'' ''c'') [(''string:a'', ?x)] NewStore"
  let ?u = "\<lparr>um_Filter = [(''st'', GString ''x'')], um_Update = [(''$set'', GDoc [(''st'', GString ''y'')])],
    um_Multi = False, um_Upsert = False\<rparr>"
  have m: "Matches demo_env [(''_id'', GString ''a''), (''st'', GString v)] [(''st'', GString ''x'')] \<longleftrightarrow> v = ''x''" for v
    by (subst Matches_field) (auto simp: filter_operators_def valueEquals_def)
  have "mem_Find demo_env ''db'' ''c'' ((filterRequest [(''st'', GString ''x'')])\<lparr>fr_Limit := 1\<rparr>) ?s = (Ok [?x], ?s)"
    by (simp add: mem_Find_eq found_def filterRequest_def findOptions_def ApplyFindOptions_def m del: Matches.simps)
  moreover obtain r s' where "mem_Update demo_env ''db'' ''c'' [?u] ?s = (Ok r, s')"
    and s': "collectionAt s' (namespace ''db'' ''c'') = [(''string:a'', ?y)]"
    by (simp add: mem_Update_single updateDocs_one m bindS_def upsertStep_def Let_def ApplyUpdate_single applyOperator_def
      update_set_def del: Matches.simps)
  moreover have "mem_Find demo_env ''db'' ''c'' ((filterRequest [(''st'', GString ''x'')])\<lparr>fr_Limit := 1\<rparr>) s' = (Ok [], s')"
    by (simp add: mem_Find_eq found_def filterRequest_def s' m del: Matches.simps)
  ultimately show ?thesis
    by (simp add: Let_def h_findAndModify_def memory_ops_def requiredString_def docOrNone_def run_simps bindS_simps
      headDoc_def optDoc_def reply_value field_def [of "_ # _"] mem_contents_def)
qed

text \<open>C39: The commands that read, and those with a fixed answer, leave the stored data alone, whatever they
  answer.\<close>

theorem reading_commands_change_nothing:
  assumes "name \<in> set staticNames \<union> set readNames \<union> {''listCollections''}"
  shows "snd (dispatch memory_ops Es cmd name arg s) = s"
proof -
  have h: "readonly (h_find memory_ops Es cmd c)" "readonly (h_count memory_ops Es cmd c)"
    "readonly (h_distinct memory_ops Es cmd c)" "readonly (h_aggregate memory_ops Es cmd c)"
    "readonly (h_listIndexes memory_ops Es cmd c)" "readonly (h_listCollections memory_ops Es cmd)" for c
    unfolding h_find_def h_count_def h_distinct_def h_aggregate_def h_listIndexes_def h_listCollections_def
      memory_ops_def store_ops.simps
    by (intro readonly_intros)+
  consider (static) "name \<in> set staticNames" | (coll) "name \<in> set readNames" | (list) "name = ''listCollections''"
    using assms by blast
  then show ?thesis
  proof cases
    case static
    then obtain reply where "map_of (staticReplies cmd arg) name = Some reply"
      using static_None [of cmd arg name] by blast
    then show ?thesis by (simp add: dispatch_def returnS_def)
  next
    case coll
    have "list_all (\<lambda>n. n \<in> set collectionNames) readNames" by code_simp
    with coll have "name \<in> set collectionNames" unfolding list_all_iff by blast
    then obtain f where f: "(name, f) \<in> set (collectionHandlers memory_ops Es cmd)"
      unfolding keys_collection [of memory_ops Es cmd, symmetric] by auto
    have "\<forall>(n, f) \<in> set (collectionHandlers memory_ops Es cmd). n \<in> set readNames \<longrightarrow> (\<forall>c. readonly (f c))"
      by (simp add: collectionHandlers_def readNames_def h readonly_intros)
    with f coll have "\<forall>c. readonly (f c)" by blast
    then have "readonly (dispatch memory_ops Es cmd name arg)"
      unfolding dispatch_collection [OF f] by (blast intro: readonly_intros)
    then show ?thesis by (simp add: readonly_def)
  next
    case list
    then show ?thesis using h(6) by (simp add: dispatch_other readonly_def)
  qed
qed

theorem reading_commands_change_nothing_witness:
  "snd (dispatch memory_ops (\<lambda>_. demo_env) [(''find'', GString ''c'')] ''find'' (GString ''c'') NewStore) = NewStore"
  by (rule reading_commands_change_nothing) (simp add: readNames_def)

end
