(* ===== verification/Wire_Properties.thy ===== *)
theory Wire_Properties
  imports Wire_Server Handler_Properties
begin

text \<open>
  The properties of the wire server: document sequences are read to their end, in order, and the loop
  ends; a reply decodes to the document the handler answered; a connection answers its requests in
  order; an insert whose documents come as a sequence reaches the backend with exactly those.
\<close>

section \<open>Document sequences\<close>

text \<open>What \<^verbatim>\<open>wirebson.FindRaw\<close> documents: the size of a document that starts the bytes and lies within them.\<close>

definition sizes_fit :: "('m, 'y, 'w, 'r) wirelib \<Rightarrow> bool" where
  "sizes_fit W \<longleftrightarrow> (\<forall>seq n. wl_FindRaw W seq = Ok n \<longrightarrow> 0 < n \<and> n \<le> int (length seq))"

lemma rawSequence_ends:
  assumes "sizes_fit W" and "length seq \<le> fuel"
  shows "rawSequenceToBSONArray W fuel seq docs \<noteq> None"
  using assms(2)
proof (induction fuel arbitrary: seq docs)
  case 0
  then show ?case by (simp add: rawSequenceToBSONArray.simps)
next
  case (Suc fuel)
  show ?case
  proof (cases "wl_FindRaw W seq")
    case (Ok n)
    then have "0 < n" "n \<le> int (length seq)" using assms(1) by (auto simp: sizes_fit_def)
    then have "length (drop (nat n) seq) \<le> fuel" using Suc.prems by simp
    from Suc.IH [OF this] Ok show ?thesis
      by (subst rawSequenceToBSONArray.simps) (simp split: res.split)
  qed (simp_all add: rawSequenceToBSONArray.simps)
qed

lemma rawSequence_splits:
  assumes "\<forall>raw \<in> set raws. raw \<noteq> [] \<and> (\<forall>rest. wl_FindRaw W (raw @ rest) = Ok (int (length raw))) \<and>
      rawDocumentToBSONMap W raw = Ok (decode raw)"
    and "length (concat raws) \<le> fuel"
  shows "rawSequenceToBSONArray W fuel (concat raws) docs = Some (Ok (docs @ map (GDoc \<circ> decode) raws))"
  using assms
proof (induction raws arbitrary: fuel docs)
  case Nil
  then show ?case by (simp add: rawSequenceToBSONArray.simps)
next
  case (Cons raw raws)
  then have "raw \<noteq> []" by simp
  with Cons.prems(2) obtain fuel' where fuel: "fuel = Suc fuel'" by (cases fuel) auto
  from \<open>raw \<noteq> []\<close> Cons.prems(2) fuel have "length (concat raws) \<le> fuel'" by (cases raw) auto
  from Cons.IH [OF _ this] Cons.prems(1) \<open>raw \<noteq> []\<close> show ?case
    by (subst rawSequenceToBSONArray.simps) (simp add: fuel)
qed

section \<open>Replies\<close>

lemma mset_orderFields: "distinct (keys m) \<Longrightarrow> mset (orderFields m) = mset m"
proof -
  assume m: "distinct (keys m)"
  have one: "(case map_of m key of None \<Rightarrow> [] | Some v \<Rightarrow> [(key, v)]) = filter (\<lambda>(k, _). k = key) m" for key
    using m
  proof (induction m)
    case (Cons e m)
    have "filter (\<lambda>(k, _). k = key) m = []" if "fst e = key"
      using Cons.prems that by (auto simp: filter_empty_conv) (metis fst_conv image_eqI)
    with Cons show ?case by (cases e) auto
  qed simp
  have many: "mset (concat (map (\<lambda>key. filter (\<lambda>(k, _). k = key) m) ks)) = mset (filter (\<lambda>(k, _). k \<in> set ks) m)"
    if "distinct ks" for ks
    using that
  proof (induction ks)
    case (Cons key ks)
    have "filter_mset (\<lambda>(k, _). k = key \<or> k \<in> set ks) (mset m) =
        filter_mset (\<lambda>(k, _). k = key) (mset m) + filter_mset (\<lambda>(k, _). k \<in> set ks) (mset m)"
      using Cons.prems by (induction m) auto
    with Cons show ?case by (simp add: case_prod_beta')
  qed simp
  have "distinct replyFields" by (simp add: replyFields_def)
  from many [OF this] have "mset (orderFields m) =
      filter_mset (\<lambda>(k, _). k \<in> set replyFields) (mset m) + filter_mset (\<lambda>(k, _). k \<notin> set replyFields) (mset m)"
    by (simp add: orderFields_def one)
  also have "\<dots> = mset m"
    using multiset_partition [of "mset m" "\<lambda>(k, _). k \<in> set replyFields"] by (simp add: case_prod_beta')
  finally show ?thesis .
qed

lemma keys_toDriverEntries [simp]: "keys (toDriverEntries m) = keys m"
  by (induction m) auto

text \<open>Documents up to the order of their fields, at every level.\<close>

fun canon :: "gval \<Rightarrow> gval" and canonEntries :: "doc \<Rightarrow> doc" and canonList :: "gval list \<Rightarrow> gval list" where
  "canon (GDoc m) = GDoc (sort_key fst (canonEntries m))"
| "canon (GArr xs) = GArr (canonList xs)"
| "canon v = v"
| "canonEntries [] = []"
| "canonEntries ((k, v) # m) = (k, canon v) # canonEntries m"
| "canonList [] = []"
| "canonList (x # xs) = canon x # canonList xs"

lemma canonEntries_map: "canonEntries m = map (\<lambda>(k, v). (k, canon v)) m"
  by (induction m) auto

lemma canonList_map: "canonList xs = map canon xs"
  by (induction xs) auto

lemma sort_entries_cong:
  assumes "mset xs = mset ys" and "distinct (keys (xs :: doc))"
  shows "sort_key fst xs = sort_key fst ys"
proof (rule sort_key_inj_key_eq)
  show "mset xs = mset (sort_key fst ys)" by (simp add: assms(1))
  show "inj_on fst (set xs)" using assms(2) by (simp add: distinct_map)
qed (rule sorted_sort_key)

lemma normalizeDriverEntries_all:
  assumes "\<forall>(k, v) \<in> set m. \<exists>w. normalizeDriverValue v = Ok w" and "distinct (keys (d @ m))"
  shows "normalizeDriverEntries m d =
    Ok (d @ map (\<lambda>(k, v). (k, (case normalizeDriverValue v of Ok w \<Rightarrow> w | _ \<Rightarrow> GNil))) m)"
  using assms
proof (induction m arbitrary: d)
  case (Cons e m)
  obtain k v where e: "e = (k, v)" by (cases e)
  with Cons.prems obtain w where w: "normalizeDriverValue v = Ok w" by auto
  have "put k w d = d @ [(k, w)]" using Cons.prems(2) e by (intro put_new) auto
  with Cons.IH [of "d @ [(k, w)]"] Cons.prems e w show ?case by auto
qed simp

text \<open>What a client sends back of a reply value is the value, up to the order of fields.\<close>

definition returns :: "gval \<Rightarrow> bool" where
  "returns v \<longleftrightarrow> (\<exists>w. normalizeDriverValue (toDriverValue v) = Ok w \<and> canon w = canon v)"

lemma toDriverEntries_map: "toDriverEntries m = map (\<lambda>(k, v). (k, toDriverValue v)) m"
  by (induction m) auto

definition sent :: "gval \<Rightarrow> gval" where
  "sent v = (case normalizeDriverValue (toDriverValue v) of Ok w \<Rightarrow> w | _ \<Rightarrow> GNil)"

lemma returns_sent: "returns v \<Longrightarrow> normalizeDriverValue (toDriverValue v) = Ok (sent v) \<and> canon (sent v) = canon v"
  by (auto simp: returns_def sent_def)

lemma normalizeDriverList_sent:
  "\<forall>v \<in> set xs. returns v \<Longrightarrow> normalizeDriverList (toDriverList xs) ys = Ok (ys @ map sent xs)"
proof (induction xs arbitrary: ys)
  case (Cons v xs)
  then have "normalizeDriverValue (toDriverValue v) = Ok (sent v)" using returns_sent by simp
  with Cons show ?case by simp
qed simp

lemma returns_entries:
  assumes "\<forall>(k, v) \<in> set m. returns v" and "distinct (keys m)"
  shows "\<exists>d. normalizeDriverEntries (toBSOND m) [] = Ok d \<and> canon (GDoc d) = canon (GDoc m)"
proof -
  let ?nd = "\<lambda>(k, v). (k, (case normalizeDriverValue v of Ok w \<Rightarrow> w | _ \<Rightarrow> GNil))"
  have perm: "mset (toBSOND m) = mset (toDriverEntries m)"
    using assms(2) by (simp add: toBSOND_def mset_orderFields)
  have set: "set (toBSOND m) = set (toDriverEntries m)" using perm by (rule mset_eq_setD)
  have "\<forall>(k, v) \<in> set (toBSOND m). \<exists>w. normalizeDriverValue v = Ok w"
    unfolding set toDriverEntries_map using assms(1) returns_sent by fastforce
  moreover have dist: "distinct (keys (toBSOND m))"
    using assms(2) perm by (metis keys_toDriverEntries mset_eq_imp_distinct_iff mset_map)
  ultimately have "normalizeDriverEntries (toBSOND m) [] = Ok (map ?nd (toBSOND m))"
    by (subst normalizeDriverEntries_all) simp_all
  moreover have "canon (GDoc (map ?nd (toBSOND m))) = canon (GDoc m)"
  proof -
    have "mset (canonEntries (map ?nd (toBSOND m))) = image_mset ((\<lambda>(k, v). (k, canon v)) \<circ> ?nd) (mset (toBSOND m))"
      by (simp add: canonEntries_map image_mset.compositionality)
    also have "\<dots> = image_mset ((\<lambda>(k, v). (k, canon v)) \<circ> ?nd \<circ> (\<lambda>(k, v). (k, toDriverValue v))) (mset m)"
      unfolding perm toDriverEntries_map by (simp add: image_mset.compositionality)
    also have "\<dots> = image_mset (\<lambda>(k, v). (k, canon v)) (mset m)"
      using assms(1) returns_sent by (intro image_mset_cong) fastforce
    finally have "mset (canonEntries (map ?nd (toBSOND m))) = mset (canonEntries m)"
      by (simp add: canonEntries_map)
    moreover have "distinct (keys (canonEntries (map ?nd (toBSOND m))))"
      using dist by (simp add: canonEntries_map o_def case_prod_beta)
    ultimately show ?thesis by (simp add: sort_entries_cong)
  qed
  ultimately show ?thesis by blast
qed

lemma returns_normal:
  "normal_val v \<Longrightarrow> wf_val v \<Longrightarrow> returns v"
  "normal_entries m \<Longrightarrow> wf_entries m \<Longrightarrow> \<forall>(k, v) \<in> set m. returns v"
  "normal_list xs \<Longrightarrow> wf_list xs \<Longrightarrow> \<forall>v \<in> set xs. returns v"
proof (induction v and m and xs rule: toDriverValue_toDriverEntries_toDriverList.induct)
  case (1 m)
  then show ?case using returns_entries [of m] by (auto simp: returns_def toBSOND_def)
next
  case (2 xs)
  then have xs: "\<forall>v \<in> set xs. returns v" by simp
  from normalizeDriverList_sent [OF this] have "normalizeDriverList (toDriverList xs) [] = Ok (map sent xs)" by simp
  moreover have "canonList (map sent xs) = canonList xs"
    unfolding canonList_map map_map using xs returns_sent by (intro map_cong [OF refl]) (simp only: comp_apply)
  ultimately show ?case by (simp add: returns_def)
qed (auto simp: returns_def)

section \<open>Connections\<close>

lemma dec_int_59: "dec_int 59 = ''59''"
  by code_simp

lemma insert_is_known: "''insert'' \<in> set knownNames"
  by code_simp

lemma serveOne_header:
  "serveOne W ops Es req s = (Answer header resp, s') \<Longrightarrow>
    mh_ResponseTo header = requestID req \<and> mh_RequestID header = requestID req + 1 \<and>
    mh_MessageLength header = word_of_int (wl_Size W resp + wl_MsgHeaderLen W)"
  by (auto simp: serveOne_def Let_def responseHeader_def split: incoming.splits option.splits res.splits prod.splits)

lemma serveOne_not_answered:
  assumes "serveOne W ops Es req s = (Closed, s')"
  shows "\<exists>i. req = InOther i"
proof -
  have "orErrorReply respond r \<noteq> Err e" for respond and r :: "'x res" and e
    by (auto simp: orErrorReply_def split: res.splits)
  with assms show ?thesis
    by (auto simp: serveOne_def Let_def split: incoming.splits option.splits res.splits prod.splits)
qed

text \<open>A library for the witnesses: a sequence is made of documents of one byte, and a body is its document.\<close>

definition demo_wire :: "(string \<times> string, doc, gval, gval) wirelib" where
  "demo_wire =
     \<lparr>wl_Sections = Ok, wl_QueryDeep = (\<lambda>d. Ok (GDoc d)),
      wl_Unmarshal = (\<lambda>raw. Ok (if raw = ''i'' then [(''insert'', GString ''c''), (''$db'', GString ''db'')]
                            else [(''_id'', GString raw)])),
      wl_FindRaw = (\<lambda>seq. if seq = [] then Err (PlainError ''EOF'') else Ok 1), wl_ToDriver = Ok,
      wl_FromDriver = (\<lambda>v. Ok (Inl v)), wl_NewOpMsg = Ok, wl_NewOpReply = Ok,
      wl_Size = (\<lambda>_. 0), wl_MsgHeaderLen = 16\<rparr>"

lemma demo_unknown:
  "HandleOpMsg demo_wire memory_ops (\<lambda>_. demo_env) (''x'', []) NewStore = Some (Err (commandNotFound ''_id''), NewStore)"
proof -
  have "''_id'' \<notin> set handledNames" by code_simp
  then have "Handle memory_ops (\<lambda>_. demo_env) [(''_id'', GString ''x'')] NewStore = (Err (commandNotFound ''_id''), NewStore)"
    by (simp add: Handle_def Name_def knownNames_def bindS_lift_Ok dispatch_unhandled)
  then show ?thesis
    by (simp add: HandleOpMsg_def opMsgCommand_def demo_wire_def rawDocumentToBSONMap_def run_simps bindS_simps)
qed

lemma demo_unknown_reply:
  "responseOpMsg demo_wire (errorReply (commandNotFound ''_id'')) =
     Ok (GD [(''ok'', GFloat64 (fp_of_int 0)), (''errmsg'', GString ''CommandNotFound (59): no such command: _id''), (''code'', GInt32 2)])"
  by (simp add: responseOpMsg_def responseDoc_def demo_wire_def toBSOND_def orderFields_def replyFields_def
    errorReply_def commandNotFound_def CodeCommandNotFound_def dec_int_59)

text \<open>An insert with a document sequence.\<close>

lemma HandleOpMsg_insert:
  assumes "wl_Sections W msg = Ok (spec, seq)" and "seq \<noteq> []"
    and "rawDocumentToBSONMap W spec = Ok cmd" and "rawSequenceToBSONArray W (length seq) seq [] = Some (Ok (map GDoc docs))"
    and "Name cmd = Ok (''insert'', GString c)" and "c \<noteq> ''''" and "map_of cmd ''$db'' = Some (GString db)" and "db \<noteq> ''''"
  shows "HandleOpMsg W ops Es msg s =
    Some (bindS (op_Insert ops (Es 0) db c docs)
      (\<lambda>n. liftS (responseOpMsg W (okReply [(''n'', GInt32 (word_of_int (sint n)))]))) s)"
proof -
  let ?cmd = "put ''documents'' (GArr (map GDoc docs)) cmd"
  have known: "firstKnown knownNames cmd = Some (''insert'', GString c)"
  proof (cases "firstKnown knownNames cmd")
    case None
    with assms(5) have "firstPlain cmd = Some (''insert'', GString c)" by (simp add: Name_def split: option.splits)
    from firstPlain_Some [OF this] have "map_of cmd ''insert'' \<noteq> None" by (simp only: map_of_eq_None_iff) (auto intro: rev_image_eqI)
    with None insert_is_known show ?thesis by (simp add: firstKnown_None)
  qed (use assms(5) in \<open>simp add: Name_def\<close>)
  then have insert: "map_of cmd ''insert'' = Some (GString c)" by (rule firstKnown_Some [THEN conjunct2])
  have "firstKnown names ?cmd = firstKnown names cmd" if "''documents'' \<notin> set names" for names
    using that by (induction names) (auto simp: map_simps split: option.split)
  moreover have "''documents'' \<notin> set knownNames" by code_simp
  ultimately have name: "Name ?cmd = Ok (''insert'', GString c)" using known by (simp add: Name_def)
  have h: "(''insert'', h_insert ops Es ?cmd) \<in> set (collectionHandlers ops Es ?cmd)" by (simp add: collectionHandlers_def)
  have items: "docItems ''document'' (map GDoc docs) = Ok docs" by (induction docs) auto
  have "Handle ops Es ?cmd = h_insert ops Es ?cmd c"
    by (simp add: Handle_def name dispatch_collection [OF h] collectionArg_def assms(6) bindS_lift_Ok [abs_def] fun_eq_iff bindS_lift_Ok)
  also have "\<dots> = bindS (op_Insert ops (Es 0) db c docs) (\<lambda>n. returnS (okReply [(''n'', GInt32 (word_of_int (sint n)))]))"
    by (simp add: h_insert_def requiredString_def arrArg_def field_def map_simps assms(7,8) items fun_eq_iff bindS_lift_Ok)
  finally show ?thesis
    using assms(1-4) insert
    by (simp add: HandleOpMsg_def opMsgCommand_def sequenceFieldName_def bindS_assoc bindS_returnS bindS_lift_Ok)
qed

section \<open>Properties\<close>

text \<open>C25: A document sequence made of encoded documents is read as those documents, in order; and whatever
  the bytes, the loop over them ends, given that every document found lies within them and is not empty.\<close>

theorem sequence_is_read_in_order:
  assumes "sizes_fit W"
    and "\<forall>raw \<in> set raws. raw \<noteq> [] \<and> (\<forall>rest. wl_FindRaw W (raw @ rest) = Ok (int (length raw))) \<and>
      rawDocumentToBSONMap W raw = Ok (decode raw)"
  shows "rawSequenceToBSONArray W (length (concat raws)) (concat raws) [] = Some (Ok (map (GDoc \<circ> decode) raws)) \<and>
    rawSequenceToBSONArray W (length seq) seq [] \<noteq> None"
  using rawSequence_splits [OF assms(2) order_refl, of "[]"] rawSequence_ends [OF assms(1) order_refl] by simp

theorem sequence_is_read_in_order_witness:
  "rawSequenceToBSONArray demo_wire 2 ''ab'' [] = Some (Ok [GDoc [(''_id'', GString ''a'')], GDoc [(''_id'', GString ''b'')]])"
proof -
  have "sizes_fit demo_wire" by (auto simp: sizes_fit_def demo_wire_def Suc_le_eq split: if_splits)
  moreover have "\<forall>raw \<in> set [''a'', ''b'']. raw \<noteq> [] \<and> (\<forall>rest. wl_FindRaw demo_wire (raw @ rest) = Ok (int (length raw))) \<and>
      rawDocumentToBSONMap demo_wire raw = Ok [(''_id'', GString raw)]"
    by (simp add: demo_wire_def rawDocumentToBSONMap_def)
  ultimately show ?thesis
    using sequence_is_read_in_order [of demo_wire "[''a'', ''b'']" "\<lambda>raw. [(''_id'', GString raw)]"] by (simp add: numeral_2_eq_2)
qed

text \<open>C27: Decoding the encoded form of a reply gives back the reply, at every level, up to the order of fields.\<close>

theorem reply_roundtrip:
  assumes "normal_entries m" and "wf_doc m"
  shows "\<exists>d. normalizeDriverDoc (GD (toBSOND m)) = Ok d \<and> canon (GDoc d) = canon (GDoc m)"
  using returns_entries [of m] returns_normal(2) [OF assms(1)] assms(2) by simp

theorem reply_roundtrip_witness:
  "\<exists>d. normalizeDriverDoc (GD (toBSOND [(''n'', GInt32 1), (''ok'', GDoc [(''b'', GNil), (''a'', GNil)])])) = Ok d \<and>
     map_of d ''n'' = Some (GInt32 1)"
proof -
  let ?m = "[(''n'', GInt32 1), (''ok'', GDoc [(''b'', GNil), (''a'', GNil)])]"
  from reply_roundtrip [of ?m] obtain d where d: "normalizeDriverDoc (GD (toBSOND ?m)) = Ok d" by auto
  then have "d = [(''ok'', GDoc [(''b'', GNil), (''a'', GNil)]), (''n'', GInt32 1)]"
    by (simp add: toBSOND_def orderFields_def replyFields_def)
  with d show ?thesis by (intro exI [of _ d] conjI) simp_all
qed

text \<open>An encoded reply has the fields of the reply, each once: \<^verbatim>\<open>ok\<close>, \<^verbatim>\<open>errmsg\<close>, \<^verbatim>\<open>code\<close> and \<^verbatim>\<open>cursor\<close> first and
  in this order, then the others in the order of the map.\<close>

theorem reply_fields_in_order:
  "keys (toBSOND m) = filter (\<lambda>key. key \<in> set (keys m)) replyFields @ filter (\<lambda>key. key \<notin> set replyFields) (keys m)"
proof -
  have "keys (concat (map (\<lambda>key. case map_of es key of None \<Rightarrow> [] | Some v \<Rightarrow> [(key, v)]) ks)) =
      filter (\<lambda>key. key \<in> set (keys es)) ks" for es :: doc and ks
    by (induction ks) (auto split: option.split simp: map_of_eq_None_iff dest: map_of_SomeD intro: rev_image_eqI)
  moreover have "keys (filter (\<lambda>(key, _). key \<notin> A) es) = filter (\<lambda>key. key \<notin> A) (keys es)" for es :: doc and A
    by (induction es) auto
  ultimately show ?thesis by (simp only: toBSOND_def orderFields_def map_append keys_toDriverEntries)
qed

text \<open>C28: A connection answers its requests in order: the \<open>i\<close>-th response refers to the \<open>i\<close>-th request and carries
  the next identifier; it stops early only at a message of another kind, a failed write or a crash.\<close>

theorem connection_answers_in_order:
  "case serveConn W ops Envs written i reqs s of ((out, final), s') \<Rightarrow>
     map (mh_ResponseTo \<circ> fst) out = map requestID (take (length out) reqs) \<and>
     map (mh_RequestID \<circ> fst) out = map (\<lambda>req. requestID req + 1) (take (length out) reqs) \<and>
     (length out = length reqs \<or> final \<noteq> Closed \<or> \<not> written (i + length out) \<or>
      (\<exists>j. length out < length reqs \<and> reqs ! length out = InOther j))"
proof (induction reqs arbitrary: i s)
  case (Cons req reqs)
  obtain o1 s1 where one: "serveOne W ops (Envs i) req s = (o1, s1)" by fastforce
  show ?case
  proof (cases o1)
    case (Answer header resp)
    show ?thesis
    proof (cases "written i")
      case True
      obtain out final s2 where rest: "serveConn W ops Envs written (Suc i) reqs s1 = ((out, final), s2)"
        by (metis prod.collapse)
      with Cons.IH [of "Suc i" s1] True one Answer serveOne_header [of W ops "Envs i" req s header resp s1]
      show ?thesis by (auto simp: add_Suc_right)
    qed (use one Answer in simp)
  next
    case Closed
    then show ?thesis using one serveOne_not_answered [of W ops "Envs i" req s s1] by auto
  qed (use one in simp_all)
qed simp

theorem connection_answers_in_order_witness:
  "\<exists>out final s'. serveConn demo_wire memory_ops (\<lambda>_ _. demo_env) (\<lambda>_. True) 0 [InMsg 7 (''x'', []), InOther 9] NewStore =
      ((out, final), s') \<and> map (mh_ResponseTo \<circ> fst) out = [7] \<and> map (mh_RequestID \<circ> fst) out = [8]"
proof -
  let ?reqs = "[InMsg 7 (''x'', []), InOther 9] :: (string \<times> string, doc) incoming list"
  obtain out final s' where run: "serveConn demo_wire memory_ops (\<lambda>_ _. demo_env) (\<lambda>_. True) 0 ?reqs NewStore = ((out, final), s')"
    by (metis prod.collapse)
  moreover from run have "length out = 1"
    by (auto simp: serveOne_def orErrorReply_def demo_unknown demo_unknown_reply)
  ultimately show ?thesis
    using connection_answers_in_order [where W = demo_wire and ops = memory_ops and Envs = "\<lambda>_ _. demo_env"
      and written = "\<lambda>_. True" and i = 0 and reqs = ?reqs and s = NewStore] by simp
qed

text \<open>Whatever error a command returns, the client sees error code 2: the numeric code of the error is only in
  the text.\<close>

theorem every_error_has_code_2:
  assumes "HandleOpMsg W ops Es msg s = Some (Err e, s')"
    and "responseOpMsg W [(''ok'', GFloat64 (fp_of_int 0)), (''errmsg'', GString (errorText e)), (''code'', GInt32 2)] = Ok resp"
  shows "serveOne W ops Es (InMsg i msg) s = (Answer (responseHeader W i OpCodeMsg resp) resp, s')"
  using assms by (simp add: serveOne_def orErrorReply_def errorReply_def)

theorem every_error_has_code_2_witness:
  "\<exists>resp s'. serveOne demo_wire memory_ops (\<lambda>_. demo_env) (InMsg 7 (''x'', [])) NewStore =
     (Answer (responseHeader demo_wire 7 OpCodeMsg resp) resp, s') \<and>
   resp = GD [(''ok'', GFloat64 (fp_of_int 0)), (''errmsg'', GString ''CommandNotFound (59): no such command: _id''), (''code'', GInt32 2)]"
  using every_error_has_code_2 [OF demo_unknown demo_unknown_reply [unfolded errorReply_def]] by blast

text \<open>C26: An insert whose documents come as a document sequence hands exactly these documents, in order, to the
  backend, and answers with what it says.\<close>

theorem sequence_insert_reaches_backend:
  assumes "wl_Sections W msg = Ok (spec, seq)" and "seq \<noteq> []"
    and "rawDocumentToBSONMap W spec = Ok cmd" and "rawSequenceToBSONArray W (length seq) seq [] = Some (Ok (map GDoc docs))"
    and "Name cmd = Ok (''insert'', GString c)" and "c \<noteq> ''''" and "map_of cmd ''$db'' = Some (GString db)" and "db \<noteq> ''''"
  shows "HandleOpMsg W ops Es msg s =
    Some (bindS (op_Insert ops (Es 0) db c docs)
      (\<lambda>n. liftS (responseOpMsg W (okReply [(''n'', GInt32 (word_of_int (sint n)))]))) s)"
  using assms by (rule HandleOpMsg_insert)

theorem sequence_insert_reaches_backend_witness:
  "HandleOpMsg demo_wire memory_ops (\<lambda>_. demo_env) (''i'', ''a'') NewStore =
    Some (bindS (mem_Insert demo_env ''db'' ''c'' [[(''_id'', GString ''a'')]])
      (\<lambda>n. liftS (responseOpMsg demo_wire (okReply [(''n'', GInt32 (word_of_int (sint n)))]))) NewStore)"
proof -
  have "rawSequenceToBSONArray demo_wire (length ''a'') ''a'' [] = Some (Ok (map GDoc [[(''_id'', GString ''a'')]]))"
    by (simp add: rawSequenceToBSONArray.simps demo_wire_def rawDocumentToBSONMap_def)
  then have "HandleOpMsg demo_wire memory_ops (\<lambda>_. demo_env) (''i'', ''a'') NewStore =
    Some (bindS (op_Insert memory_ops demo_env ''db'' ''c'' [[(''_id'', GString ''a'')]])
      (\<lambda>n. liftS (responseOpMsg demo_wire (okReply [(''n'', GInt32 (word_of_int (sint n)))]))) NewStore)"
    by (intro sequence_insert_reaches_backend [where cmd = "[(''insert'', GString ''c''), (''$db'', GString ''db'')]" and seq = "''a''"])
      (assumption | simp add: demo_wire_def rawDocumentToBSONMap_def Name_def knownNames_def)+
  then show ?thesis by (simp add: memory_ops_def)
qed

end
