(* ===== verification/Concurrent_Clients.thy ===== *)
theory Concurrent_Clients
  imports Handler_Invariant Handler_Properties
begin

text \<open>
  Several clients on the in-memory backend. Its operations hold the lock, so each is atomic, but a command
  may use several, and other clients' operations may run between them. The invariants of the backend
  survive any interleaving; \<^verbatim>\<open>findAndModify\<close> and \<^verbatim>\<open>renameCollection\<close> are not atomic.
\<close>

section \<open>The invariant of the backend\<close>

definition hex_env :: "(string \<Rightarrow> string) \<Rightarrow> goenv" where
  "hex_env hex = demo_env\<lparr>env_oid_hex := hex\<rparr>"

definition mem_safe :: "(string \<Rightarrow> string) \<Rightarrow> memStore \<Rightarrow> bool" where
  "mem_safe hex s \<longleftrightarrow> mem_inv s \<and> mem_keyed (hex_env hex) s"

definition good_env :: "(string \<Rightarrow> string) \<Rightarrow> goenv \<Rightarrow> bool" where
  "good_env hex E \<longleftrightarrow> fair_iter E \<and> env_oid_hex E = hex"

lemma safe_runOp:
  assumes "mem_safe hex s" and "good_env hex E" and "wf_op opn" and "op_keeps_id E opn"
  shows "mem_safe hex (runOp E opn s)"
proof -
  have "env_oid_hex (hex_env hex) = env_oid_hex E" using assms(2) by (simp add: good_env_def hex_env_def)
  from mem_keyed_hex [OF this] assms show ?thesis
    by (simp add: mem_safe_def good_env_def inv_runOp keyed_runOp)
qed

lemma keeps_runOp:
  assumes "good_env hex E" and "wf_op opn" and "op_keeps_id E opn" and "\<And>s. snd (m s) = runOp E opn s"
  shows "keeps (mem_safe hex) m"
  using assms safe_runOp by (simp add: maintains_def)

lemma keeps_readonly: "readonly m \<Longrightarrow> keeps P m"
  by (simp add: maintains_def readonly_def)

lemma found_distinct:
  assumes "mem_inv s" and "fair_iter E" and "d \<in> set (found E f (collectionAt s ns))"
  shows "distinct (keys d)"
proof -
  from assms(2,3) obtain k where "(k, d) \<in> set (collectionAt s ns)"
    by (auto simp: found_def)
  then show ?thesis using mem_inv_collectionAt [OF assms(1), of ns] by (auto simp: coll_ok_def)
qed

interpretation safe: store_invariant memory_ops "mem_safe hex" "good_env hex" keeps_id "\<lambda>d. distinct (keys d)" for hex
proof unfold_locales
  fix E assume E: "good_env hex E"
  note op = keeps_runOp [OF E]
  show "keeps (mem_safe hex) (op_CreateCollection memory_ops E db c opts)" for db c opts
    by (rule op [where opn = "CreateOp db c opts"]) (simp_all add: memory_ops_def)
  show "keeps (mem_safe hex) (op_DropCollection memory_ops E db c)" for db c
    by (rule op [where opn = "DropOp db c"]) (simp_all add: memory_ops_def)
  show "keeps (mem_safe hex) (op_Delete memory_ops E db c dels)" for db c dels
    by (rule op [where opn = "DeleteOp db c dels"]) (simp_all add: memory_ops_def)
  show "keeps (mem_safe hex) (op_CreateIndexes memory_ops E db c idx)" for db c idx
    by (rule op [where opn = "CreateIndexesOp db c idx"]) (simp_all add: memory_ops_def)
  show "keeps (mem_safe hex) (op_DropDatabase memory_ops E db)" for db
    by (rule op [where opn = "DropDatabaseOp db"]) (simp_all add: memory_ops_def)
  show "keeps (mem_safe hex) (op_Insert memory_ops E db c docs)" if "\<forall>d \<in> set docs. distinct (keys d)" for db c docs
    using that by (intro op [where opn = "InsertOp db c docs"]) (simp_all add: memory_ops_def)
  show "keeps (mem_safe hex) (op_Update memory_ops E db c ups)"
    if "\<forall>u \<in> set ups. distinct (keys (um_Filter u)) \<and> keeps_id E (um_Update u)" for db c ups
    using that by (intro op [where opn = "UpdateOp db c ups"]) (simp_all add: memory_ops_def)
  show "maintains (mem_safe hex) (op_Find memory_ops E db c (filterRequest [])) (\<lambda>docs. \<forall>d \<in> set docs. distinct (keys d))" for db c
    using E found_distinct by (auto simp: maintains_def memory_ops_def mem_Find_all good_env_def mem_safe_def)
qed (auto simp: memory_ops_def intro!: keeps_readonly readonly_intros)

interpretation crowd: store_invariant "concurrent memory_ops" "calm (mem_safe hex)" "good_env hex" keeps_id
    "\<lambda>d. distinct (keys d)" for hex
  by (rule safe.concurrent_invariant)

text \<open>The operations of other clients between two steps, in the order they run.\<close>

definition runOps :: "(goenv \<times> memOp) list \<Rightarrow> memStore \<Rightarrow> memStore" where
  "runOps steps = fold (\<lambda>(E, opn). runOp E opn) steps"

definition ops_ok :: "(string \<Rightarrow> string) \<Rightarrow> (goenv \<times> memOp) list \<Rightarrow> bool" where
  "ops_ok hex steps \<longleftrightarrow> (\<forall>(E, opn) \<in> set steps. good_env hex E \<and> wf_op opn \<and> op_keeps_id E opn)"

lemma safe_runOps: "ops_ok hex steps \<Longrightarrow> mem_safe hex s \<Longrightarrow> mem_safe hex (runOps steps s)"
  by (induction steps arbitrary: s) (auto simp: runOps_def ops_ok_def safe_runOp)

lemma safe_reachable: "reachable op_keeps_id hex s \<Longrightarrow> mem_safe hex s"
  using reachable_keyed [of "hex_env hex"] reachable_inv by (simp add: mem_safe_def hex_env_def)

lemma safe_ids_unique:
  assumes "mem_safe hex s" and "env_oid_hex E = hex"
    and "map_of (collectionAt s ns) k = Some d" and "map_of (collectionAt s ns) k' = Some d'"
    and "map_of d ''_id'' = map_of d' ''_id''"
  shows "k = k' \<and> DocumentIDKey E d = Ok k"
proof -
  have "env_oid_hex (hex_env hex) = env_oid_hex E" using assms(2) by (simp add: hex_env_def)
  from mem_keyed_hex [OF this] assms(1) have "mem_keyed E s" by (simp add: mem_safe_def)
  then have "keyed E (collectionAt s ns)" by (rule mem_keyed_collectionAt)
  with assms(3-5) DocumentIDKey_cong [of d d' E] show ?thesis by (auto simp: keyed_def)
qed

text \<open>A store together with the answers that other clients were given while a command ran.\<close>

definition beside_log :: "('s, 'a) action \<Rightarrow> ('s \<times> 'l, 'a) action" where
  "beside_log m = (\<lambda>(s, log). case m s of (r, s') \<Rightarrow> (r, (s', log)))"

definition with_log :: "'s store_ops \<Rightarrow> ('s \<times> 'l) store_ops" where
  "with_log ops =
     \<lparr>op_CreateCollection = (\<lambda>E db c opts. beside_log (op_CreateCollection ops E db c opts)),
      op_ListCollections = (\<lambda>E db flt. beside_log (op_ListCollections ops E db flt)),
      op_DropCollection = (\<lambda>E db c. beside_log (op_DropCollection ops E db c)),
      op_Insert = (\<lambda>E db c docs. beside_log (op_Insert ops E db c docs)),
      op_Find = (\<lambda>E db c req. beside_log (op_Find ops E db c req)),
      op_Count = (\<lambda>E db c flt. beside_log (op_Count ops E db c flt)),
      op_Distinct = (\<lambda>E db c req. beside_log (op_Distinct ops E db c req)),
      op_Update = (\<lambda>E db c ups. beside_log (op_Update ops E db c ups)),
      op_Delete = (\<lambda>E db c dels. beside_log (op_Delete ops E db c dels)),
      op_Aggregate = (\<lambda>E db c pipeline. beside_log (op_Aggregate ops E db c pipeline)),
      op_CreateIndexes = (\<lambda>E db c idx. beside_log (op_CreateIndexes ops E db c idx)),
      op_ListIndexes = (\<lambda>E db c. beside_log (op_ListIndexes ops E db c)),
      op_DropDatabase = (\<lambda>E db. beside_log (op_DropDatabase ops E db))\<rparr>"

text \<open>A step of another client: it runs \<open>m\<close> on the store as it is then, and its answer is kept.\<close>

definition otherClient :: "('s, 'a) action \<Rightarrow> 's \<times> 'a res list \<Rightarrow> 's \<times> 'a res list" where
  "otherClient m = (\<lambda>(s, log). case m s of (r, s') \<Rightarrow> (s', log @ [r]))"

lemmas run_logged = concurrent_def with_log_def beside_log_def otherClient_def memory_ops_def

lemma options_setCollection [simp]: "ms_options (setCollection ns coll s) = ms_options s"
  by (simp add: setCollection_def)

text \<open>A collection with one document, for the runs below.\<close>

definition one_doc :: "string \<Rightarrow> string \<Rightarrow> memStore" where
  "one_doc ns oid = setCollection ns [(''string:'' @ oid, [(''_id'', GString oid)])] NewStore"

lemma mem_Delete_one:
  "mem_Delete demo_env ''db'' ''c'' [\<lparr>dm_Filter = [], dm_Limit = 1\<rparr>] (one_doc (namespace ''db'' ''c'') oid) =
     (Ok 1, setCollection (namespace ''db'' ''c'') [] (one_doc (namespace ''db'' ''c'') oid))"
  by (simp add: mem_Delete_single setCollection_def one_doc_def NewStore_def)

text \<open>As long as no update writes an \<open>_id\<close>, a command leaves every document under the key of its own \<open>_id\<close>, and so
  no collection with two documents of one \<open>_id\<close>, whatever operations of other clients run between the steps of
  the command.\<close>

lemma concurrent_commands_keep_ids_unique:
  assumes "reachable op_keeps_id hex s" and "\<forall>steps \<in> set others. ops_ok hex steps"
    and "\<forall>i. good_env hex (Es i)" and "wf_doc cmd" and "\<forall>i. updates_ok (keeps_id (Es i)) cmd"
    and "Handle (concurrent memory_ops) Es cmd (s, map runOps others) = (r, (s', rest))"
    and "map_of (collectionAt s' ns) k = Some d" and "map_of (collectionAt s' ns) k' = Some d'"
    and "map_of d ''_id'' = map_of d' ''_id''" and "env_oid_hex E = hex"
  shows "k = k' \<and> DocumentIDKey E d = Ok k"
proof -
  have "calm (mem_safe hex) (s, map runOps others)"
    using safe_reachable [OF assms(1)] assms(2) safe_runOps by (auto simp: calm_def)
  with crowd.keeps_Handle [OF assms(3-5)] assms(6) have "calm (mem_safe hex) (s', rest)"
    by (force simp: maintains_def)
  then have "mem_safe hex s'" by (simp add: calm_def)
  from safe_ids_unique [OF this assms(10,7,8,9)] show ?thesis .
qed

section \<open>Properties\<close>

text \<open>C29: \<^verbatim>\<open>findAndModify\<close> with \<^verbatim>\<open>remove\<close> is not atomic: another client's whole \<^verbatim>\<open>findAndModify\<close> may run between its find
  and its delete, and then both clients are answered with the only document there is.\<close>

theorem two_clients_take_one_document:
  "let s = one_doc (namespace ''db'' ''c'') oid;
       cmd = [(''findAndModify'', GString ''c''), (''remove'', GBool True), (''$db'', GString ''db'')];
       other = otherClient (h_findAndModify memory_ops (\<lambda>_. demo_env) cmd ''c'');
       (r, ((s', log), _)) = h_findAndModify (concurrent (with_log memory_ops)) (\<lambda>_. demo_env) cmd ''c'' ((s, []), [\<lambda>t. t, other])
   in (\<exists>reply. r = Ok reply \<and> field reply ''value'' = GDoc [(''_id'', GString oid)]) \<and>
      (\<exists>reply. log = [Ok reply] \<and> field reply ''value'' = GDoc [(''_id'', GString oid)]) \<and>
      mem_contents s' (namespace ''db'' ''c'') = {#}"
proof -
  let ?s = "one_doc (namespace ''db'' ''c'') oid"
  have found: "mem_Find demo_env ''db'' ''c'' ((filterRequest [])\<lparr>fr_Limit := 1\<rparr>) ?s = (Ok [[(''_id'', GString oid)]], ?s)"
    by (simp add: mem_Find_eq found_def filterRequest_def findOptions_def ApplyFindOptions_def one_doc_def)
  obtain n s2 where gone: "mem_Delete demo_env ''db'' ''c'' [\<lparr>dm_Filter = [], dm_Limit = 1\<rparr>] (setCollection (namespace ''db'' ''c'') [] ?s) = (Ok n, s2)"
    and "mem_contents s2 (namespace ''db'' ''c'') = {#}"
    by (simp add: mem_Delete_single setCollection_def one_doc_def NewStore_def mem_contents_def collectionAt_def)
  then show ?thesis
    by (simp add: Let_def h_findAndModify_def run_logged requiredString_def docOrNone_def run_simps bindS_simps
      headDoc_def optDoc_def reply_value field_def [of "_ # _"] found mem_Delete_one)
qed

text \<open>C30: A rename loses a document that another client inserts into the source after the rename has read it: the insert
  runs before the rename drops the source and is answered with success, the rename succeeds, and afterwards neither
  collection holds the document.\<close>

theorem rename_loses_concurrent_insert:
  "let s = one_doc ''db.c'' ''a'';
       new = [(''_id'', GString ''b'')];
       other = otherClient (mem_Insert demo_env ''db'' ''c'' [new]);
       (r, ((s', log), _)) = h_renameCollection (concurrent (with_log memory_ops)) (\<lambda>_. demo_env) [(''to'', GString ''db.e'')] ''db.c''
          ((s, []), [\<lambda>t. t, \<lambda>t. t, \<lambda>t. t, other])
   in is_Ok r \<and> log = [Ok 1] \<and> new \<notin># mem_contents s' (namespace ''db'' ''c'') \<and> new \<notin># mem_contents s' (namespace ''db'' ''e'')"
proof -
  let ?a = "[(''_id'', GString ''a'')]" and ?b = "[(''_id'', GString ''b'')]"
  let ?s = "one_doc ''db.c'' ''a''"
  have ns: "namespace ''db'' ''c'' = ''db.c''" "namespace ''db'' ''e'' = ''db.e''" by (simp_all add: namespace_def)
  have key: "DocumentIDKey demo_env [(''_id'', GString x)] = Ok (''string:'' @ x)" for x by (simp add: DocumentIDKey_def)
  have found: "mem_Find demo_env ''db'' ''c'' (filterRequest []) ?s = (Ok [?a], ?s)"
    by (simp add: mem_Find_all found_def one_doc_def ns)
  define s1 where "s1 = snd (mem_CreateCollection demo_env ''db'' ''e'' \<lparr>cc_Validator = []\<rparr> ?s)"
  have create: "mem_CreateCollection demo_env ''db'' ''e'' \<lparr>cc_Validator = []\<rparr> ?s = (Ok (), s1)"
    by (simp add: s1_def mem_CreateCollection_eq Let_def)
  have s1: "collectionAt s1 ''db.e'' = []" "map_of (ms_options s1) ''db.e'' = Some []"
    "collectionAt s1 ''db.c'' = [(''string:a'', ?a)]"
    by (simp_all add: s1_def mem_CreateCollection_eq Let_def ns one_doc_def map_simps)
  have "map_of (ms_options s1) ''db.c'' = None"
    by (simp add: s1_def mem_CreateCollection_eq Let_def ns one_doc_def map_simps setCollection_def NewStore_def prepared_def
      ensureDefaultIndex_def ensureCollection_def)
  note s1 = s1 this
  define s2 where "s2 = snd (mem_Insert demo_env ''db'' ''e'' [?a] s1)"
  have insert: "mem_Insert demo_env ''db'' ''e'' [?a] s1 = (Ok 1, s2)"
    using s1 by (simp add: s2_def mem_Insert_eq Let_def ns key)
  have s2: "collectionAt s2 ''db.e'' = [(''string:a'', ?a)]" "collectionAt s2 ''db.c'' = [(''string:a'', ?a)]"
    "map_of (ms_options s2) ''db.c'' = None"
    using s1 by (simp_all add: s2_def mem_Insert_eq Let_def ns key)
  define s3 where "s3 = snd (mem_Insert demo_env ''db'' ''c'' [?b] s2)"
  have other: "mem_Insert demo_env ''db'' ''c'' [?b] s2 = (Ok 1, s3)"
    using s2 by (simp add: s3_def mem_Insert_eq Let_def ns key)
  have s3: "collectionAt s3 ''db.e'' = [(''string:a'', ?a)]"
    using s2 by (simp add: s3_def mem_Insert_eq Let_def ns key)
  show ?thesis
    using s3 by (simp add: Let_def create insert other found h_renameCollection_def run_logged
      requiredString_def splitNamespace_def field_def run_simps bindS_simps mem_DropCollection_def mem_contents_def ns)
qed

end
