(* ===== verification/Server_Properties.thy ===== *)
theory Server_Properties
  imports Wire_Properties Concurrent_Clients
begin

text \<open>
  The whole path of a request: the bytes of a message become a command that is a plain map, the command keeps the
  invariant of the backend whatever other connections do meanwhile, and so does a connection.
\<close>

section \<open>Decoded commands\<close>

text \<open>The command of a message, when it has one.\<close>

definition requestCommand :: "('m, 'y, 'w, 'r) wirelib \<Rightarrow> ('m, 'y) incoming \<Rightarrow> doc option" where
  "requestCommand W req =
     (case req of
        InMsg _ msg \<Rightarrow> (case opMsgCommand W msg of Some (Ok cmd) \<Rightarrow> Some cmd | _ \<Rightarrow> None)
      | InQuery _ query \<Rightarrow> (case bindR (wl_QueryDeep W query) (WireDocToBSONMap W) of Ok cmd \<Rightarrow> Some cmd | _ \<Rightarrow> None)
      | InOther _ \<Rightarrow> None)"

text \<open>
  A predicate of the values that the driver decodes (\<open>raw\<close>) and one of the values of commands (\<open>ok\<close>), such that the
  normalization of documents and arrays takes the first to the second.
\<close>

locale decoded_values =
  fixes raw :: "gval \<Rightarrow> bool" and ok :: "gval \<Rightarrow> bool"
  assumes ok_doc: "ok (GDoc m) \<longleftrightarrow> distinct (keys m) \<and> (\<forall>(k, v) \<in> set m. ok v)"
    and ok_list: "ok (GArr xs) \<longleftrightarrow> (\<forall>x \<in> set xs. ok x)"
    and raw_parts: "raw (GD m) \<Longrightarrow> (k, v) \<in> set m \<Longrightarrow> raw v" "raw (GArr xs) \<Longrightarrow> x \<in> set xs \<Longrightarrow> raw x"
      "raw (GSlice xs) \<Longrightarrow> x \<in> set xs \<Longrightarrow> raw x" "raw (GDoc m) \<Longrightarrow> (k, v) \<in> set m \<Longrightarrow> raw v"
    and others: "raw v \<Longrightarrow> normalizeDriverValue v = Ok v \<Longrightarrow> (\<And>xs. v \<noteq> GArr xs) \<Longrightarrow> ok v"
begin

lemma ok_put: "ok (GDoc m) \<Longrightarrow> ok v \<Longrightarrow> ok (GDoc (put k v m))"
  using set_put_subset [of k v m] by (auto simp: ok_doc map_simps)

lemma normalizeDriver_ok:
  "raw v \<Longrightarrow> normalizeDriverValue v = Ok w \<Longrightarrow> ok w"
  "\<forall>(k, v) \<in> set m. raw v \<Longrightarrow> ok (GDoc d) \<Longrightarrow> normalizeDriverEntries m d = Ok d' \<Longrightarrow> ok (GDoc d')"
  "\<forall>x \<in> set xs. raw x \<Longrightarrow> ok (GArr ys) \<Longrightarrow> normalizeDriverList xs ys = Ok zs \<Longrightarrow> ok (GArr zs)"
proof (induction v and m d and xs ys arbitrary: w and d' and zs
    rule: normalizeDriverValue_normalizeDriverEntries_normalizeDriverList.induct)
  case (6 k v m d)
  from 6(5) obtain v' where v': "normalizeDriverValue v = Ok v'" and rest: "normalizeDriverEntries m (put k v' d) = Ok d'"
    by (auto simp only: normalizeDriverEntries.simps res_simps)
  from 6(3) have "raw v" and m: "\<forall>(k, v) \<in> set m. raw v" by simp_all
  from 6(1) [OF this(1) v'] 6(4) have "ok (GDoc (put k v' d))" by (intro ok_put)
  from 6(2) [OF m this rest] show ?case .
next
  case (1 m)
  then obtain d' where "w = GDoc d'" "normalizeDriverEntries m [] = Ok d'"
    by (auto simp only: normalizeDriverValue.simps res_simps)
  with 1(1) [of d'] raw_parts(1) [OF 1(2)] show ?case by (auto simp: ok_doc)
next
  case (2 xs)
  then obtain zs where "w = GArr zs" "normalizeDriverList xs [] = Ok zs"
    by (auto simp only: normalizeDriverValue.simps res_simps)
  with 2(1) [of zs] raw_parts(2) [OF 2(2)] show ?case by (simp add: ok_list)
next
  case (3 xs)
  then obtain zs where "w = GArr zs" "normalizeDriverList xs [] = Ok zs"
    by (auto simp only: normalizeDriverValue.simps res_simps)
  with 3(1) [of zs] raw_parts(3) [OF 3(2)] show ?case by (simp add: ok_list)
next
  case (8 x xs ys)
  from 8(5) obtain x' where x': "normalizeDriverValue x = Ok x'" and rest: "normalizeDriverList xs (ys @ [x']) = Ok zs"
    by (auto simp only: normalizeDriverList.simps res_simps)
  from 8(3) have "raw x" and xs: "\<forall>x \<in> set xs. raw x" by simp_all
  from 8(1) [OF this(1) x'] 8(4) have "ok (GArr (ys @ [x']))" by (auto simp: ok_list)
  from 8(2) [OF xs this rest] show ?case .
qed (auto dest: others)

lemma rawDocument_ok:
  assumes "\<forall>r d. wl_Unmarshal W r = Ok d \<longrightarrow> (\<forall>(k, v) \<in> set d. raw v)" and "rawDocumentToBSONMap W r = Ok cmd"
  shows "ok (GDoc cmd)"
proof -
  from assms(2) obtain d where "wl_Unmarshal W r = Ok d" "normalizeDriverEntries d [] = Ok cmd"
    by (auto simp: rawDocumentToBSONMap_def res_simps)
  with assms(1) normalizeDriver_ok(2) [of d "[]" cmd] show ?thesis by (simp add: ok_doc)
qed

lemma rawSequence_ok:
  assumes "\<forall>r d. wl_Unmarshal W r = Ok d \<longrightarrow> (\<forall>(k, v) \<in> set d. raw v)" and "ok (GArr docs)"
    and "rawSequenceToBSONArray W fuel seq docs = Some (Ok docs')"
  shows "ok (GArr docs')"
  using assms(2,3)
proof (induction fuel arbitrary: seq docs)
  case 0
  then show ?case by (auto simp: rawSequenceToBSONArray.simps [of W 0] split: if_splits)
next
  case (Suc fuel)
  show ?case
  proof (cases "seq = []")
    case True
    with Suc.prems show ?thesis by (simp add: rawSequenceToBSONArray.simps)
  next
    case False
    with Suc.prems obtain n m where "rawDocumentToBSONMap W (take (nat n) seq) = Ok m"
      "rawSequenceToBSONArray W fuel (drop (nat n) seq) (docs @ [GDoc m]) = Some (Ok docs')"
      by (auto simp: rawSequenceToBSONArray.simps [of W "Suc fuel"] split: res.splits if_splits)
    with Suc.IH [OF _ this(2)] Suc.prems(1) rawDocument_ok [OF assms(1)] show ?thesis by (auto simp: ok_list)
  qed
qed

lemma opMsgCommand_ok:
  assumes unmarshal: "\<forall>r d. wl_Unmarshal W r = Ok d \<longrightarrow> (\<forall>(k, v) \<in> set d. raw v)" and "opMsgCommand W msg = Some (Ok cmd)"
  shows "ok (GDoc cmd)"
proof -
  from assms(2) obtain spec seq c where "wl_Sections W msg = Ok (spec, seq)" and c: "rawDocumentToBSONMap W spec = Ok c"
    and rest: "(if length seq > 0 then
        map_option (mapR (\<lambda>docs. put (sequenceFieldName c) (GArr docs) c)) (rawSequenceToBSONArray W (length seq) seq [])
      else Some (Ok c)) = Some (Ok cmd)"
    by (auto simp: opMsgCommand_def split: res.splits prod.splits)
  from rawDocument_ok [OF unmarshal c] have ok: "ok (GDoc c)" .
  show ?thesis
  proof (cases "length seq > 0")
    case True
    with rest obtain docs where "rawSequenceToBSONArray W (length seq) seq [] = Some (Ok docs)"
      "cmd = put (sequenceFieldName c) (GArr docs) c"
      by (auto simp: res_simps)
    with rawSequence_ok [OF unmarshal _ this(1)] ok show ?thesis by (auto simp: ok_list intro: ok_put)
  qed (use rest ok in simp)
qed

lemma requestCommand_ok:
  assumes unmarshal: "\<forall>r d. wl_Unmarshal W r = Ok d \<longrightarrow> (\<forall>(k, v) \<in> set d. raw v)" and todriver: "\<forall>w v. wl_ToDriver W w = Ok v \<longrightarrow> raw v"
    and "requestCommand W req = Some cmd"
  shows "ok (GDoc cmd)"
proof (cases req)
  case (InMsg i msg)
  with assms(3) have "opMsgCommand W msg = Some (Ok cmd)"
    by (auto simp: requestCommand_def split: option.splits res.splits)
  with unmarshal show ?thesis by (rule opMsgCommand_ok)
next
  case (InQuery i query)
  with assms(3) obtain w v where "wl_ToDriver W w = Ok v" and cmd: "normalizeDriverDoc v = Ok cmd"
    by (auto simp: requestCommand_def WireDocToBSONMap_def res_simps split: res.splits)
  then have "raw v" using todriver by blast
  moreover obtain m where v: "v = GD m \<or> v = GDoc m" and run: "normalizeDriverEntries m [] = Ok cmd" using cmd by (cases v) auto
  ultimately have "\<forall>(k, v) \<in> set m. raw v" using raw_parts(1,4) by blast
  with normalizeDriver_ok(2) [OF _ _ run] show ?thesis by (simp add: ok_doc)
qed (use assms(3) in \<open>simp add: requestCommand_def\<close>)

end

text \<open>What the BSON decoder and the conversion of wire documents promise: values that are documents.\<close>

definition decodes_wf :: "('m, 'y, 'w, 'r) wirelib \<Rightarrow> bool" where
  "decodes_wf W \<longleftrightarrow>
     (\<forall>raw d. wl_Unmarshal W raw = Ok d \<longrightarrow> wf_entries d) \<and> (\<forall>w v. wl_ToDriver W w = Ok v \<longrightarrow> wf_val v)"

interpretation wf: decoded_values wf_val wf_val
  by unfold_locales (auto simp: wf_entries_iff wf_list_iff)

lemma wf_requestCommand: "decodes_wf W \<Longrightarrow> requestCommand W req = Some cmd \<Longrightarrow> wf_doc cmd"
  using wf.requestCommand_ok [of W req cmd] by (simp add: decodes_wf_def wf_entries_iff)

text \<open>
  A document of the code: a \<^verbatim>\<open>bson.M\<close> with each field once, whose documents are such documents and whose arrays are
  \<^verbatim>\<open>bson.A\<close>, at every level.
\<close>

fun plain_val :: "gval \<Rightarrow> bool" and plain_entries :: "doc \<Rightarrow> bool" and plain_list :: "gval list \<Rightarrow> bool" where
  "plain_val (GDoc m) = (distinct (keys m) \<and> plain_entries m)"
| "plain_val (GArr xs) = plain_list xs"
| "plain_val (GD m) = False"
| "plain_val (GMap m) = False"
| "plain_val (GSlice xs) = False"
| "plain_val (GDocs ds) = False"
| "plain_val v = True"
| "plain_entries [] = True"
| "plain_entries ((k, v) # m) = (plain_val v \<and> plain_entries m)"
| "plain_list [] = True"
| "plain_list (x # xs) = (plain_val x \<and> plain_list xs)"

lemma plain_entries_iff: "plain_entries m \<longleftrightarrow> (\<forall>(k, v) \<in> set m. plain_val v)"
  by (induction m) auto

lemma plain_list_iff: "plain_list xs \<longleftrightarrow> (\<forall>x \<in> set xs. plain_val x)"
  by (induction xs) auto

text \<open>
  A value that the driver decodes: documents inside others are \<^verbatim>\<open>bson.D\<close>, in which a field may stand twice, and arrays
  are \<^verbatim>\<open>bson.A\<close> or \<^verbatim>\<open>[]any\<close>; where the driver decodes into \<^verbatim>\<open>bson.M\<close>, it does so at every level.
\<close>

fun driver_val :: "gval \<Rightarrow> bool" and driver_entries :: "doc \<Rightarrow> bool" and driver_list :: "gval list \<Rightarrow> bool" where
  "driver_val (GD m) = driver_entries m"
| "driver_val (GArr xs) = driver_list xs"
| "driver_val (GSlice xs) = driver_list xs"
| "driver_val v = plain_val v"
| "driver_entries [] = True"
| "driver_entries ((k, v) # m) = (driver_val v \<and> driver_entries m)"
| "driver_list [] = True"
| "driver_list (x # xs) = (driver_val x \<and> driver_list xs)"

lemma driver_entries_iff: "driver_entries m \<longleftrightarrow> (\<forall>(k, v) \<in> set m. driver_val v)"
  by (induction m) auto

lemma driver_list_iff: "driver_list xs \<longleftrightarrow> (\<forall>x \<in> set xs. driver_val x)"
  by (induction xs) auto

lemma plain_driver:
  "plain_val v \<Longrightarrow> driver_val v" "plain_entries m \<Longrightarrow> driver_entries m" "plain_list xs \<Longrightarrow> driver_list xs"
  by (induction v and m and xs rule: plain_val_plain_entries_plain_list.induct) simp_all

definition decodes_driver :: "('m, 'y, 'w, 'r) wirelib \<Rightarrow> bool" where
  "decodes_driver W \<longleftrightarrow>
     (\<forall>raw d. wl_Unmarshal W raw = Ok d \<longrightarrow> driver_entries d) \<and> (\<forall>w v. wl_ToDriver W w = Ok v \<longrightarrow> driver_val v)"

interpretation plain: decoded_values driver_val plain_val
proof unfold_locales
  show "plain_val v" if "driver_val v" "normalizeDriverValue v = Ok v" "\<And>xs. v \<noteq> GArr xs" for v
    using that by (cases v) (auto simp: res_simps)
qed (auto simp: plain_entries_iff plain_list_iff driver_entries_iff driver_list_iff intro: plain_driver)

section \<open>Connections keep the invariant\<close>

lemma serveOne_keeps:
  assumes "\<And>cmd. requestCommand W req = Some cmd \<Longrightarrow> keeps P (Handle ops Es cmd)" and "P s"
  shows "P (snd (serveOne W ops Es req s))"
proof (cases req)
  case (InMsg i msg)
  show ?thesis
  proof (cases "opMsgCommand W msg")
    case None
    with InMsg assms(2) show ?thesis by (simp add: serveOne_def HandleOpMsg_def)
  next
    case (Some r)
    have "keeps P (bindS (liftS r) (\<lambda>cmd. bindS (Handle ops Es cmd) (\<lambda>reply. liftS (responseOpMsg W reply))))"
      using assms(1) InMsg Some
      by (intro maintains_bind [where R = "\<lambda>cmd. r = Ok cmd"] maintains_lift keeps_bind keeps_lift) (auto simp: requestCommand_def)
    with assms(2) have "P (snd (bindS (liftS r) (\<lambda>cmd. bindS (Handle ops Es cmd) (\<lambda>reply. liftS (responseOpMsg W reply))) s))"
      by (simp add: maintains_def)
    with InMsg Some show ?thesis by (simp add: serveOne_def HandleOpMsg_def case_prod_beta)
  qed
next
  case (InQuery i query)
  have "keeps P (HandleOpQuery W ops Es query)"
    unfolding HandleOpQuery_def using assms(1) InQuery
    by (intro maintains_bind [where R = "\<lambda>cmd. bindR (wl_QueryDeep W query) (WireDocToBSONMap W) = Ok cmd"]
        maintains_lift keeps_bind keeps_lift) (auto simp: requestCommand_def)
  with assms(2) InQuery show ?thesis by (simp add: serveOne_def maintains_def case_prod_beta)
next
  case (InOther i)
  with assms(2) show ?thesis by (simp add: serveOne_def)
qed

lemma serveConn_keeps:
  assumes "\<And>j req cmd. req \<in> set reqs \<Longrightarrow> requestCommand W req = Some cmd \<Longrightarrow> keeps P (Handle ops (Envs j) cmd)" and "P s"
  shows "P (snd (serveConn W ops Envs written i reqs s))"
  using assms
proof (induction reqs arbitrary: i s)
  case (Cons req reqs)
  obtain o1 s1 where one: "serveOne W ops (Envs i) req s = (o1, s1)" by fastforce
  have "P (snd (serveOne W ops (Envs i) req s))"
    by (rule serveOne_keeps) (use Cons.prems in auto)
  with one have "P s1" by simp
  then have "P (snd (serveConn W ops Envs written (Suc i) reqs s1))"
    by (intro Cons.IH) (use Cons.prems(1) in auto)
  with \<open>P s1\<close> show ?case using one by (auto split: outcome.split prod.split)
qed simp

text \<open>An insert whose document comes as a sequence, for the witnesses.\<close>

definition demo_msgs :: "(string \<times> string, doc, gval, gval) wirelib" where
  "demo_msgs = demo_wire\<lparr>wl_ToDriver := (\<lambda>_. Ok GNil)\<rparr>"

lemma demo_parts:
  "rawSequenceToBSONArray demo_msgs (Suc 0) ''a'' [] = Some (Ok [GDoc [(''_id'', GString ''a'')]])"
  "wl_Sections demo_msgs (''i'', ''a'') = Ok (''i'', ''a'')"
  "rawDocumentToBSONMap demo_msgs ''i'' = Ok [(''insert'', GString ''c''), (''$db'', GString ''db'')]"
  by (simp_all add: demo_msgs_def demo_wire_def rawSequenceToBSONArray.simps rawDocumentToBSONMap_def)

lemma demo_insert_command:
  "requestCommand demo_msgs (InMsg 7 (''i'', ''a'')) =
     Some [(''insert'', GString ''c''), (''$db'', GString ''db''), (''documents'', GArr [GDoc [(''_id'', GString ''a'')]])]"
  by (simp add: requestCommand_def opMsgCommand_def sequenceFieldName_def demo_parts)

lemma demo_decodes_wf: "decodes_wf demo_msgs"
  by (auto simp: decodes_wf_def demo_msgs_def demo_wire_def)

section \<open>Requests are answered\<close>

lemma normalizeDriver_no_panic:
  "\<not> is_Panic (normalizeDriverValue v)" "\<not> is_Panic (normalizeDriverEntries m d)" "\<not> is_Panic (normalizeDriverList xs ys)"
  by (induction v and m d and xs ys rule: normalizeDriverValue_normalizeDriverEntries_normalizeDriverList.induct)
    (auto simp: is_Panic_bindR)

lemma normalizeDriverDoc_no_panic: "\<not> is_Panic (normalizeDriverDoc v)"
  using normalizeDriver_no_panic(2) by (cases v) auto

text \<open>The wire library does not panic, a document that starts a sequence lies within it, and an error can be encoded.\<close>

definition wire_total :: "('m, 'y, 'w, 'r) wirelib \<Rightarrow> bool" where
  "wire_total W \<longleftrightarrow>
     sizes_fit W \<and> (\<forall>m. \<not> is_Panic (wl_Sections W m)) \<and> (\<forall>y. \<not> is_Panic (wl_QueryDeep W y)) \<and>
     (\<forall>raw. \<not> is_Panic (wl_Unmarshal W raw)) \<and> (\<forall>seq. \<not> is_Panic (wl_FindRaw W seq)) \<and> (\<forall>w. \<not> is_Panic (wl_ToDriver W w)) \<and>
     (\<forall>d. \<not> is_Panic (responseOpMsg W d)) \<and> (\<forall>d. \<not> is_Panic (responseOpReply W d)) \<and>
     (\<forall>e. is_Ok (responseOpMsg W (errorReply e))) \<and> (\<forall>e. is_Ok (responseOpReply W (errorReply e)))"

lemma rawDocument_no_panic: "wire_total W \<Longrightarrow> \<not> is_Panic (rawDocumentToBSONMap W raw)"
  by (simp add: rawDocumentToBSONMap_def is_Panic_bindR wire_total_def normalizeDriver_no_panic)

lemma rawSequence_no_panic:
  assumes "wire_total W"
  shows "rawSequenceToBSONArray W fuel seq docs \<noteq> Some (Panic p)"
proof (induction fuel arbitrary: seq docs)
  case 0
  then show ?case by (simp add: rawSequenceToBSONArray.simps [of W 0])
next
  case (Suc fuel)
  have "wl_FindRaw W seq \<noteq> Panic q" for q using assms by (auto simp: wire_total_def) (metis is_Panic.simps(1))
  moreover have "rawDocumentToBSONMap W raw \<noteq> Panic q" for raw q
    using rawDocument_no_panic [OF assms, of raw] by auto
  moreover have "0 \<le> n \<and> n \<le> int (length seq)" if "wl_FindRaw W seq = Ok n" for n
    using assms that by (simp add: wire_total_def sizes_fit_def order_less_imp_le)
  ultimately show ?case
    using Suc.IH by (auto simp: rawSequenceToBSONArray.simps [of W "Suc fuel"] split: res.split)
qed

lemma opMsgCommand_no_panic:
  assumes "wire_total W"
  obtains cmd where "opMsgCommand W msg = Some (Ok cmd)" | e where "opMsgCommand W msg = Some (Err e)"
proof -
  have raw: "rawDocumentToBSONMap W raw \<noteq> Panic q" for raw q
    using rawDocument_no_panic [OF assms, of raw] by auto
  have sections: "wl_Sections W msg \<noteq> Panic q" for q
    using assms by (auto simp: wire_total_def) (metis is_Panic.simps(1))
  have ends: "rawSequenceToBSONArray W (length seq) seq [] \<noteq> None" for seq
    by (rule rawSequence_ends) (use assms in \<open>simp_all add: wire_total_def\<close>)
  have "opMsgCommand W msg \<noteq> None"
    by (simp add: opMsgCommand_def ends split: res.split prod.split del: not_None_eq)
  then obtain r where r: "opMsgCommand W msg = Some r" by blast
  moreover have "r \<noteq> Panic q" for q
    using r raw sections rawSequence_no_panic [OF assms]
    by (auto simp: opMsgCommand_def split: res.splits if_splits) (metis is_Panic.simps(1) is_Panic_mapR is_Panic.elims(2))
  ultimately show thesis using that by (cases r) auto
qed

lemma orErrorReply_answers:
  assumes "\<not> is_Panic r" and "\<And>e. is_Ok (respond (errorReply e))"
  shows "\<exists>resp. orErrorReply respond r = Ok resp"
proof (cases r)
  case (Err e)
  with assms(2) [of e] show ?thesis by (cases "respond (errorReply e)") (simp_all add: orErrorReply_def)
qed (use assms(1) in \<open>simp_all add: orErrorReply_def\<close>)

lemma command_no_panic:
  assumes "\<not> is_Panic r" and "\<And>cmd. r = Ok cmd \<Longrightarrow> \<not> is_Panic (fst (Handle ops Es cmd s))" and "\<And>d. \<not> is_Panic (respond d)"
  shows "\<not> is_Panic (fst (bindS (liftS r) (\<lambda>cmd. bindS (Handle ops Es cmd) (\<lambda>reply. liftS (respond reply))) s))"
  using assms by (cases r) (auto simp: bindS_def liftS_def split: prod.split res.split)

section \<open>Properties\<close>

text \<open>C34: The driver decodes the documents inside a message into \<^verbatim>\<open>bson.D\<close>, in which a field may stand twice, or throughout into
  \<^verbatim>\<open>bson.M\<close>, and arrays into \<^verbatim>\<open>bson.A\<close> or \<^verbatim>\<open>[]any\<close>: then the command that a message becomes is a \<^verbatim>\<open>bson.M\<close> with each field once, in which every
  document is again a \<^verbatim>\<open>bson.M\<close> with each field once and every array a \<^verbatim>\<open>bson.A\<close>, at every level.\<close>

theorem decoded_commands_are_plain_maps:
  assumes "decodes_driver W" and "requestCommand W req = Some cmd"
  shows "plain_val (GDoc cmd)"
  using plain.requestCommand_ok [of W req cmd] assms by (simp add: decodes_driver_def driver_entries_iff)

theorem decoded_commands_are_plain_maps_witness:
  "let W = demo_msgs\<lparr>wl_Unmarshal := (\<lambda>_. Ok [(''find'', GString ''c''),
         (''filter'', GD [(''a'', GInt32 1), (''b'', GSlice [GD [(''c'', GNil)]]), (''a'', GInt32 2)])])\<rparr>;
       cmd = [(''find'', GString ''c''), (''filter'', GDoc [(''a'', GInt32 2), (''b'', GArr [GDoc [(''c'', GNil)]])])]
   in requestCommand W (InMsg 7 (''i'', [])) = Some cmd \<and> plain_val (GDoc cmd)"
proof -
  let ?W = "demo_msgs\<lparr>wl_Unmarshal := (\<lambda>_. Ok [(''find'', GString ''c''),
    (''filter'', GD [(''a'', GInt32 1), (''b'', GSlice [GD [(''c'', GNil)]]), (''a'', GInt32 2)])])\<rparr>"
  let ?cmd = "[(''find'', GString ''c''), (''filter'', GDoc [(''a'', GInt32 2), (''b'', GArr [GDoc [(''c'', GNil)]])])]"
  have run: "requestCommand ?W (InMsg 7 (''i'', [])) = Some ?cmd"
    by (simp add: requestCommand_def opMsgCommand_def demo_msgs_def demo_wire_def rawDocumentToBSONMap_def)
  have "decodes_driver ?W" by (auto simp: decodes_driver_def demo_msgs_def demo_wire_def)
  from decoded_commands_are_plain_maps [OF this run] run show ?thesis by (simp add: Let_def)
qed

text \<open>C1: Whatever messages a connection delivers, and whatever the other connections do between any two steps of its
  commands, no collection ever holds two documents with one \<open>_id\<close>, as long as no update writes an \<open>_id\<close>.\<close>

theorem connections_keep_ids_unique:
  assumes "reachable op_keeps_id hex s" and "\<forall>steps \<in> set others. ops_ok hex steps" and "decodes_wf W"
    and "\<forall>j i. good_env hex (Envs j i)"
    and "\<forall>req \<in> set reqs. \<forall>cmd. requestCommand W req = Some cmd \<longrightarrow> (\<forall>j i. updates_ok (keeps_id (Envs j i)) cmd)"
    and "serveConn W (concurrent memory_ops) Envs written i reqs (s, map runOps others) = (out, (s', rest))"
    and "map_of (collectionAt s' ns) k = Some d" and "map_of (collectionAt s' ns) k' = Some d'"
    and "map_of d ''_id'' = map_of d' ''_id''" and "env_oid_hex E = hex"
  shows "k = k' \<and> DocumentIDKey E d = Ok k"
proof -
  have start: "calm (mem_safe hex) (s, map runOps others)"
    using safe_reachable [OF assms(1)] assms(2) safe_runOps by (auto simp: calm_def)
  have "calm (mem_safe hex) (snd (serveConn W (concurrent memory_ops) Envs written i reqs (s, map runOps others)))"
  proof (rule serveConn_keeps [where P = "calm (mem_safe hex)", OF _ start])
    fix j req cmd assume "req \<in> set reqs" and "requestCommand W req = Some cmd"
    then show "keeps (calm (mem_safe hex)) (Handle (concurrent memory_ops) (Envs j) cmd)"
      using assms(4,5) wf_requestCommand [OF assms(3)] by (intro crowd.keeps_Handle) auto
  qed
  with assms(6) have "mem_safe hex s'" by (simp add: calm_def)
  from safe_ids_unique [OF this assms(10,7,8,9)] show ?thesis .
qed

theorem connections_keep_ids_unique_witness:
  "\<exists>out s' rest. serveConn demo_msgs (concurrent memory_ops) (\<lambda>_ _. demo_env) (\<lambda>_. True) 0 [InMsg 7 (''i'', ''a'')]
       (NewStore, map runOps [[(demo_env, InsertOp ''db'' ''c'' [[(''_id'', GString ''b'')]])]]) = (out, (s', rest)) \<and>
     keys (collectionAt s' ''db.c'') = [''string:b'', ''string:a''] \<and>
     DocumentIDKey demo_env [(''_id'', GString ''a'')] = Ok ''string:a''"
proof -
  let ?between = "[(demo_env, InsertOp ''db'' ''c'' [[(''_id'', GString ''b'')]])]"
  obtain out s' rest where run: "serveConn demo_msgs (concurrent memory_ops) (\<lambda>_ _. demo_env) (\<lambda>_. True) 0 [InMsg 7 (''i'', ''a'')]
      (NewStore, map runOps [?between]) = (out, (s', rest))"
    by (metis prod.collapse)
  have s': "collectionAt s' ''db.c'' = [(''string:b'', [(''_id'', GString ''b'')]), (''string:a'', [(''_id'', GString ''a'')])]"
  proof -
    let ?a = "[(''_id'', GString ''a'')]" and ?b = "[(''_id'', GString ''b'')]"
    have key: "DocumentIDKey demo_env [(''_id'', GString x)] = Ok (''string:'' @ x)" for x by (simp add: DocumentIDKey_def)
    obtain t where ins: "op_Insert (concurrent memory_ops) demo_env ''db'' ''c'' [?a] (NewStore, map runOps [?between]) = (Ok 1, (t, []))"
      and t: "collectionAt t ''db.c'' = [(''string:b'', ?b), (''string:a'', ?a)]"
      by (simp add: concurrent_def memory_ops_def runOps_def mem_Insert_eq Let_def key namespace_def)
        (simp add: NewStore_def key)
    have "HandleOpMsg demo_msgs (concurrent memory_ops) (\<lambda>_. demo_env) (''i'', ''a'') st =
      Some (bindS (op_Insert (concurrent memory_ops) demo_env ''db'' ''c'' [?a])
        (\<lambda>n. liftS (responseOpMsg demo_msgs (okReply [(''n'', GInt32 (word_of_int (sint n)))]))) st)" for st
      by (rule HandleOpMsg_insert [where spec = "''i''" and seq = "''a''" and cmd = "[(''insert'', GString ''c''), (''$db'', GString ''db'')]"])
        (simp_all add: demo_parts Name_def knownNames_def)
    with run ins t show ?thesis
      by (auto simp: serveOne_def bindS_simps liftS_def split: outcome.splits res.splits prod.splits)
  qed
  have "\<forall>req \<in> set [InMsg 7 (''i'', ''a'')]. \<forall>cmd. requestCommand demo_msgs req = Some cmd \<longrightarrow>
      (\<forall>j i. updates_ok (keeps_id demo_env) cmd)"
    by (simp add: demo_insert_command updates_ok_def arrArg_def field_def docOrNone_def)
  moreover have "ops_ok (env_oid_hex demo_env) ?between" by (simp add: ops_ok_def good_env_def)
  ultimately have "''string:a'' = ''string:a'' \<and> DocumentIDKey demo_env [(''_id'', GString ''a'')] = Ok ''string:a''"
    using connections_keep_ids_unique [OF reachable.start _ demo_decodes_wf _ _ run, of "env_oid_hex demo_env" "''db.c''"
        "''string:a''" "[(''_id'', GString ''a'')]" "''string:a''" "[(''_id'', GString ''a'')]" demo_env]
    by (simp add: good_env_def s')
  with run s' show ?thesis by auto
qed

text \<open>Every command message is answered: with a wire library that does not panic and a command that does not panic, its
  message gets a response to its identifier, an error when decoding or the command fails.\<close>

theorem requests_are_answered:
  assumes "wire_total W" and "\<forall>j. req \<noteq> InOther j"
    and "\<forall>cmd. requestCommand W req = Some cmd \<longrightarrow> \<not> is_Panic (fst (Handle ops Es cmd s))"
  shows "\<exists>header resp s'. serveOne W ops Es req s = (Answer header resp, s') \<and> mh_ResponseTo header = requestID req"
proof -
  show ?thesis
  proof (cases req)
    case (InMsg i msg)
    obtain r where cmd: "opMsgCommand W msg = Some r" and np: "\<not> is_Panic r"
      by (rule opMsgCommand_no_panic [OF assms(1), of msg]) auto
    define run where "run = bindS (liftS r) (\<lambda>cmd. bindS (Handle ops Es cmd) (\<lambda>reply. liftS (responseOpMsg W reply))) s"
    have "\<not> is_Panic (fst run)"
      unfolding run_def
      by (rule command_no_panic) (use assms(1,3) InMsg cmd np in \<open>simp_all add: wire_total_def requestCommand_def\<close>)
    then have "\<exists>resp. orErrorReply (responseOpMsg W) (fst run) = Ok resp"
      by (rule orErrorReply_answers) (use assms(1) in \<open>simp add: wire_total_def\<close>)
    then obtain resp where "orErrorReply (responseOpMsg W) (fst run) = Ok resp" ..
    then show ?thesis
      using InMsg cmd by (simp add: serveOne_def HandleOpMsg_def run_def case_prod_beta responseHeader_def)
  next
    case (InQuery i query)
    let ?r = "bindR (wl_QueryDeep W query) (WireDocToBSONMap W)"
    have np: "\<not> is_Panic ?r"
      using assms(1) normalizeDriverDoc_no_panic by (simp add: is_Panic_bindR WireDocToBSONMap_def wire_total_def)
    have "\<not> is_Panic (fst (HandleOpQuery W ops Es query s))"
      unfolding HandleOpQuery_def
      by (rule command_no_panic) (use assms(1,3) InQuery np in \<open>simp_all add: wire_total_def requestCommand_def\<close>)
    then have "\<exists>resp. orErrorReply (responseOpReply W) (fst (HandleOpQuery W ops Es query s)) = Ok resp"
      by (rule orErrorReply_answers) (use assms(1) in \<open>simp add: wire_total_def\<close>)
    then obtain resp where "orErrorReply (responseOpReply W) (fst (HandleOpQuery W ops Es query s)) = Ok resp" ..
    then show ?thesis
      using InQuery by (simp add: serveOne_def case_prod_beta responseHeader_def)
  next
    case (InOther i)
    with assms(2) show ?thesis by simp
  qed
qed

theorem requests_are_answered_witness:
  "\<exists>header resp s'. serveOne demo_msgs memory_ops (\<lambda>_. demo_env) (InMsg 7 (''x'', [])) NewStore = (Answer header resp, s') \<and>
     mh_ResponseTo header = 7"
proof -
  have "''_id'' \<notin> set handledNames" by code_simp
  then have "Handle memory_ops (\<lambda>_. demo_env) [(''_id'', GString ''x'')] NewStore = (Err (commandNotFound ''_id''), NewStore)"
    by (simp add: Handle_def Name_def knownNames_def bindS_lift_Ok dispatch_unhandled)
  moreover have "requestCommand demo_msgs (InMsg 7 (''x'', [])) = Some [(''_id'', GString ''x'')]"
    by (simp add: requestCommand_def opMsgCommand_def demo_msgs_def demo_wire_def rawDocumentToBSONMap_def)
  moreover have "wire_total demo_msgs"
    by (auto simp: wire_total_def sizes_fit_def demo_msgs_def demo_wire_def responseOpMsg_def responseOpReply_def
      responseDoc_def Suc_le_eq split: if_splits)
  ultimately show ?thesis
    using requests_are_answered [of demo_msgs "InMsg 7 (''x'', [])" memory_ops "\<lambda>_. demo_env" NewStore] by simp
qed

end
