(* ===== verification/Tidb_Server.thy ===== *)
theory Tidb_Server
  imports Tidb_Invariant Tidb_Properties Server_Properties
begin

text \<open>
  The server as it is deployed, on TiDB: what every connection keeps of the database, although any of its statements
  may fail.
\<close>

interpretation ref_faulty: faulty_backend ref_db Some rf_tab rf_work ref_json hex for hex
  by (rule faulty_backend.intro) (rule ref.sql_contract_axioms)

lemma keyed_emptyDb: "tidb_keyed ref_json Some hex (rf_tab emptyDb)"
  by (simp add: tidb_keyed_def emptyDb_def emptyState_def rowsOf_def)

section \<open>Properties\<close>

text \<open>Whatever messages a connection delivers, and whichever of its SQL statements fail, with or without effect, every
  table keeps each key once, and every row stays the text of a document under the key of that
  document's \<open>_id\<close>.\<close>

theorem tidb_connections_keep_keys:
  assumes "sql_contract D json tab work" and "tidb_keyed X json hex (tab q)" and "decodes_wf W"
    and "\<forall>j i. env_oid_hex (Envs j i) = hex"
    and "serveConn W (tidb_ops D X) Envs written i reqs q = (out, q')" and "env_oid_hex E = hex"
  shows "tidb_keyed X json hex (tab q') \<and> distinct (keys (rowsOf (tab q') t)) \<and>
    (\<forall>(k, raw) \<in> set (rowsOf (tab q') t). \<exists>d. stored X json d raw \<and> DocumentIDKey E d = Ok k)"
proof -
  have "keyedAt X json hex tab (snd (serveConn W (tidb_ops D X) Envs written i reqs q))"
  proof (rule serveConn_keeps)
    fix j req cmd assume "requestCommand W req = Some cmd"
    then show "keeps (keyedAt X json hex tab) (Handle (tidb_ops D X) (Envs j) cmd)"
      using assms(4) wf_requestCommand [OF assms(3)]
      by (intro faulty_backend.keeps_command [OF faulty_backend.intro [OF assms(1)]]) auto
  qed (use assms(2) in \<open>simp add: keyedAt_def\<close>)
  with assms(5) have "tidb_keyed X json hex (tab q')" by (simp add: keyedAt_def)
  then show ?thesis by (simp add: tidb_keyed_def rows_keyed_def DocumentIDKey_idKey [OF assms(6)])
qed

theorem tidb_connections_keep_keys_witness:
  "\<exists>out q'. serveConn demo_msgs (tidb_ops ref_db ref_json) (\<lambda>_ _. demo_env) (\<lambda>_. True) 0
       [InMsg 7 (''i'', ''a''), InMsg 8 (''i'', ''a'')] emptyDb = (out, q') \<and>
     length (filter (\<lambda>(k, _). k = ''string:a'') (rowsOf (rf_tab q') (PhysicalTableName ''db'' ''c''))) \<le> 1"
proof -
  let ?reqs = "[InMsg 7 (''i'', ''a''), InMsg 8 (''i'', ''a'')]"
  obtain out q' where run: "serveConn demo_msgs (tidb_ops ref_db ref_json) (\<lambda>_ _. demo_env) (\<lambda>_. True) 0 ?reqs emptyDb = (out, q')"
    by fastforce
  have "distinct (keys (rowsOf (rf_tab q') (PhysicalTableName ''db'' ''c'')))"
    using tidb_connections_keep_keys [OF ref.sql_contract_axioms keyed_emptyDb demo_decodes_wf _ run refl, where t = "PhysicalTableName ''db'' ''c''"] by simp
  moreover have "length (filter (\<lambda>(k, _). k = x) rows) \<le> 1" if "distinct (keys rows)" for rows :: "(string \<times> doc) list" and x
    using that by (induction rows) (auto simp: filter_empty_conv image_iff)
  ultimately show ?thesis using run by blast
qed

end
