(* ===== verification/Tidb_Shared.thy ===== *)
theory Tidb_Shared
  imports Sql_Shared Tidb_Server
begin

text \<open>
  Several servers on one TiDB: what a connection keeps whatever the others do between its statements, and what
  they can undo. \<open>shared_db\<close> is a database that keeps \<open>sql_shared\<close>, with the statements of the others as a schedule.
\<close>

section \<open>A shared database\<close>

text \<open>
  \<open>sh_others\<close>: the statements of the others that run before the next operation, and before those after it; \<open>sh_log\<close>: the
  statements that took effect, in the order they did, and whether they are this gateway's.
\<close>

record sharedDb =
  sh_tab :: "doc sqlState"
  sh_pending :: "doc stmt list"
  sh_others :: "doc stmt list list"
  sh_log :: "(bool \<times> doc stmt) list"

definition sh_mine :: "sharedDb \<Rightarrow> doc stmt list" where
  "sh_mine q = map snd (filter fst (sh_log q))"

fun keyed_stmt :: "(string \<Rightarrow> string) \<Rightarrow> doc stmt \<Rightarrow> bool" where
  "keyed_stmt hex (InsertDoc t k d) = (idKey hex d = Ok k)"
| "keyed_stmt hex (ReplaceDoc t k d) = (idKey hex d = Ok k)"
| "keyed_stmt hex _ = True"

lemma keyed_stmt_ref: "stmt_keyed ref_json hex st = keyed_stmt hex st"
  by (cases st) (simp_all add: MarshalExtJSON_def ref_json_def)

definition other_stmt :: "(string \<Rightarrow> string) \<Rightarrow> doc stmt \<Rightarrow> sharedDb \<Rightarrow> sharedDb" where
  "other_stmt hex st q =
     (if wf_stmt st \<and> keyed_stmt hex st then
        (case run Some (freshId (sh_tab q)) st (sh_tab q) of
           Some s \<Rightarrow> q\<lparr>sh_tab := s, sh_log := sh_log q @ [(False, st)]\<rparr>
         | None \<Rightarrow> q)
      else q)"

definition others_run :: "(string \<Rightarrow> string) \<Rightarrow> sharedDb \<Rightarrow> sharedDb" where
  "others_run hex q =
     (case sh_others q of
        [] \<Rightarrow> q
      | batch # rest \<Rightarrow> fold (other_stmt hex) batch (q\<lparr>sh_others := rest\<rparr>))"

fun runTx :: "doc stmt list \<Rightarrow> doc sqlState \<Rightarrow> doc sqlState option" where
  "runTx [] s = Some s"
| "runTx (st # sts) s = (case run Some (freshId s) st s of None \<Rightarrow> None | Some s' \<Rightarrow> runTx sts s')"

definition shared_exec :: "(string \<Rightarrow> string) \<Rightarrow> doc sql \<Rightarrow> (sharedDb, unit) action" where
  "shared_exec hex sql q =
     (let q1 = others_run hex q
      in case ref_step sql (sh_tab q1) of
           None \<Rightarrow> (Err syntaxError, q1)
         | Some s \<Rightarrow> (Ok (), q1\<lparr>sh_tab := s, sh_log := sh_log q1 @ [(True, guess sql)]\<rparr>))"

definition shared_query :: "(string \<Rightarrow> string) \<Rightarrow> doc sql \<Rightarrow> (sharedDb, doc sqlrows) action" where
  "shared_query hex sql q =
     (let q1 = others_run hex q; y = guess_query sql
      in if render_query y = sql \<and> answerable y (sh_tab q1) then (Ok (ref_answer y (sh_tab q1), None), q1)
         else (Err syntaxError, q1))"

definition shared_tx_exec :: "(string \<Rightarrow> string) \<Rightarrow> doc sql \<Rightarrow> (sharedDb, unit) action" where
  "shared_tx_exec hex sql q =
     (let q1 = others_run hex q; sts = sh_pending q1 @ [guess sql]
      in if render (guess sql) = sql \<and> runTx sts (sh_tab q1) \<noteq> None then (Ok (), q1\<lparr>sh_pending := sts\<rparr>)
         else (Err syntaxError, q1))"

definition shared_commit :: "(string \<Rightarrow> string) \<Rightarrow> (sharedDb, unit) action" where
  "shared_commit hex q =
     (let q1 = others_run hex q
      in case runTx (sh_pending q1) (sh_tab q1) of
           None \<Rightarrow> (Err syntaxError, q1)
         | Some s \<Rightarrow> (Ok (), q1\<lparr>sh_tab := s, sh_log := sh_log q1 @ map (Pair True) (sh_pending q1)\<rparr>))"

definition shared_db :: "(string \<Rightarrow> string) \<Rightarrow> (sharedDb, doc) sqldb" where
  "shared_db hex =
     \<lparr>db_exec = shared_exec hex, db_query = shared_query hex, db_ping = returnS (), db_close = returnS (),
      tx_begin = (\<lambda>q. (Ok (), (others_run hex q)\<lparr>sh_pending := []\<rparr>)), tx_exec = shared_tx_exec hex,
      tx_commit = shared_commit hex, tx_rollback = (\<lambda>q. (Ok (), others_run hex q))\<rparr>"

lemma other_run:
  "gateways ref_json Some hex s (sh_tab q) \<Longrightarrow> gateways ref_json Some hex s (sh_tab (other_stmt hex st q))"
  "sh_mine (other_stmt hex st q) = sh_mine q" "sh_pending (other_stmt hex st q) = sh_pending q"
  using statement [of ref_json Some hex s "sh_tab q" st] freshId [of "sh_tab q"]
  by (auto simp: other_stmt_def keyed_stmt_ref runs_def sh_mine_def split: option.split)

lemma others_fold:
  "gateways ref_json Some hex s (sh_tab q) \<Longrightarrow> gateways ref_json Some hex s (sh_tab (fold (other_stmt hex) batch q))"
  "sh_mine (fold (other_stmt hex) batch q) = sh_mine q" "sh_pending (fold (other_stmt hex) batch q) = sh_pending q"
  by (induction batch arbitrary: q) (simp_all add: other_run)

lemma gateways_others: "gateways ref_json Some hex (sh_tab q) (sh_tab (others_run hex q))"
  using others_fold(1) [of hex "sh_tab q" "q\<lparr>sh_others := tl (sh_others q)\<rparr>"]
  by (cases "sh_others q") (simp_all add: others_run_def stay)

lemma pending_others [simp]: "sh_pending (others_run hex q) = sh_pending q"
  by (simp add: others_run_def others_fold split: list.split)

lemma mine_others [simp]: "sh_mine (others_run hex q) = sh_mine q"
  by (simp add: others_run_def others_fold split: list.split) (simp add: sh_mine_def)

lemma sh_mine_log [simp]:
  "sh_mine (q\<lparr>sh_tab := s, sh_log := sh_log q @ map (Pair True) sts\<rparr>) = sh_mine q @ sts"
  "sh_mine (q\<lparr>sh_tab := s, sh_log := sh_log q @ [(True, st)]\<rparr>) = sh_mine q @ [st]" "sh_mine (q\<lparr>sh_pending := sts\<rparr>) = sh_mine q"
  by (simp_all add: sh_mine_def filter_map o_def)

lemma runTx_runsAll: "runTx sts s = Some s' \<Longrightarrow> runsAll Some sts s s'"
  using freshId by (induction sts arbitrary: s) (fastforce simp: runs_def split: option.splits)+

interpretation shared: sql_gateway "shared_db hex" Some ref_json hex sh_tab sh_pending sh_mine for hex
proof unfold_locales
  fix st q q' and r :: "unit res"
  assume st: "wf_stmt st" and run: "db_exec (shared_db hex) (render st) q = (r, q')"
  then have "runs Some st (sh_tab (others_run hex q)) (sh_tab q') \<and> sh_mine q' = sh_mine q @ [st] \<or>
      sh_tab q' = sh_tab (others_run hex q) \<and> sh_mine q' = sh_mine q \<and> r \<noteq> Ok ()"
    using guess_render [OF st] by (auto simp: shared_db_def shared_exec_def Let_def intro: ref_step_runs split: option.splits)
  then show "\<exists>s. gateways ref_json Some hex (sh_tab q) s \<and> (runs Some st s (sh_tab q') \<and> sh_mine q' = sh_mine q @ [st] \<or>
      sh_tab q' = s \<and> sh_mine q' = sh_mine q \<and> r \<noteq> Ok ())"
    using gateways_others by blast
next
  fix y q q' answer
  assume "wf_query y" "db_query (shared_db hex) (render_query y) q = (answer, q')"
  then show "gateways ref_json Some hex (sh_tab q) (sh_tab q') \<and> sh_mine q' = sh_mine q \<and>
      (\<forall>rows. answer = Ok (rows, None) \<longrightarrow> answers y (sh_tab q') rows)"
    using answers_ref gateways_others by (auto simp: shared_db_def shared_query_def guess_render_query Let_def split: if_splits)
next
  fix t k raw q q' and r :: "unit res"
  assume t: "safeTable t" and run: "tx_exec (shared_db hex) (render (InsertDoc t k raw)) q = (r, q')"
  have "guess (render (InsertDoc t k raw)) = InsertDoc t k raw" by (rule guess_render) (use t in simp)
  with run show "gateways ref_json Some hex (sh_tab q) (sh_tab q') \<and> sh_mine q' = sh_mine q \<and>
      (r = Ok () \<longrightarrow> sh_pending q' = sh_pending q @ [InsertDoc t k raw])"
    using gateways_others [of hex q] by (auto simp: shared_db_def shared_tx_exec_def Let_def split: if_splits)
next
  fix q q' and r :: "unit res"
  assume "tx_commit (shared_db hex) q = (r, q')"
  then have "runsAll Some (sh_pending q) (sh_tab (others_run hex q)) (sh_tab q') \<and> sh_mine q' = sh_mine q @ sh_pending q \<or>
      sh_tab q' = sh_tab (others_run hex q) \<and> sh_mine q' = sh_mine q \<and> r \<noteq> Ok ()"
    by (auto simp: shared_db_def shared_commit_def Let_def intro: runTx_runsAll split: option.splits)
  then show "\<exists>s. gateways ref_json Some hex (sh_tab q) s \<and> (runsAll Some (sh_pending q) s (sh_tab q') \<and> sh_mine q' = sh_mine q @ sh_pending q \<or>
      sh_tab q' = s \<and> sh_mine q' = sh_mine q \<and> r \<noteq> Ok ())"
    using gateways_others by blast
qed (auto simp: shared_db_def gateways_others)

section \<open>Running on it\<close>

lemma shared_exec_render:
  "wf_stmt st \<Longrightarrow> db_exec (shared_db hex) (render st) q =
    (case run Some (freshId (sh_tab (others_run hex q))) st (sh_tab (others_run hex q)) of
       None \<Rightarrow> (Err syntaxError, others_run hex q)
     | Some s \<Rightarrow> (Ok (), (others_run hex q)\<lparr>sh_tab := s, sh_log := sh_log (others_run hex q) @ [(True, st)]\<rparr>))"
  by (simp add: shared_db_def shared_exec_def ref_step_render guess_render Let_def split: option.split)

lemma shared_query_render:
  "wf_query y \<Longrightarrow> db_query (shared_db hex) (render_query y) q =
    (let q1 = others_run hex q
     in if answerable y (sh_tab q1) then (Ok (ref_answer y (sh_tab q1), None), q1) else (Err syntaxError, q1))"
  by (simp add: shared_db_def shared_query_def guess_render_query Let_def)

lemmas shared_simps =
  shared_exec_render [of "CreateTable t" for t, unfolded render.simps wf_stmt.simps]
  shared_exec_render [of "ReplaceDoc t k raw" for t k raw, unfolded render.simps wf_stmt.simps]
  shared_exec_render [of "UpsertCollection db c t raw" for db c t raw, unfolded render.simps wf_stmt.simps]
  shared_query_render [of "SelectDocs t k l" for t k l, unfolded render_query.simps wf_query.simps]
  shared_query_render [of "SelectOptions db c" for db c, unfolded render_query.simps wf_query.simps]

lemma marshal_ref: "MarshalExtJSON ref_json d = Ok d"
  by (simp add: MarshalExtJSON_def ref_json_def)

text \<open>A collection with one document, and the statements the others will run.\<close>

definition oneShared :: "string \<Rightarrow> string \<Rightarrow> string \<Rightarrow> doc \<Rightarrow> doc stmt list list \<Rightarrow> sharedDb" where
  "oneShared db c k d others = \<lparr>sh_tab = rf_tab (oneDoc db c k d), sh_pending = [], sh_others = others, sh_log = []\<rparr>"

text \<open>The statements on documents that took effect, in their order: this gateway's (\<open>True\<close>) and those of the others.\<close>

definition docLog :: "sharedDb \<Rightarrow> (bool \<times> doc stmt) list" where
  "docLog q = filter (\<lambda>(_, st). \<not> catalogStmt st) (sh_log q)"

text \<open>An update finds the document with its fifth statement and replaces it with its sixth.\<close>

lemma update_between:
  assumes "nameable db c" and "length k \<le> 768" and "normalizeEntries d = d" and "Matches E d (um_Filter u)"
    and "ApplyUpdate E (env_now E 0) d (um_Update u) = Ok d'" and "DocumentIDKey E d' = Ok k"
    and "batch = [] \<or> (\<exists>x. batch = [ReplaceDoc (PhysicalTableName db c) k x] \<and> idKey hex x = Ok k)"
  shows "\<exists>q'. tidb_Update (shared_db hex) ref_json E db c [u] (oneShared db c k d (replicate 5 [] @ [batch])) =
      (Ok \<lparr>ur_Matched = 1, ur_Modified = 1, ur_Upserted = []\<rparr>, q') \<and>
    docLog q' = map (Pair False) batch @ [(True, ReplaceDoc (PhysicalTableName db c) k d')] \<and>
    rowsOf (sh_tab q') (PhysicalTableName db c) = [(k, d')]"
proof -
  let ?t = "PhysicalTableName db c"
  have len: "length ?t \<le> 64" "length db \<le> 256" "length c \<le> 256" using assms(1) by (simp_all add: nameable_def)
  let ?s = "\<lparr>sq_tables = [(?t, [(k, d)])], sq_collections = [((db, c), freshId (rf_tab (oneDoc db c k d)), ?t, [])], sq_indexes = []\<rparr>"
  let ?q = "\<lambda>others log. \<lparr>sh_tab = ?s, sh_pending = [], sh_others = others, sh_log = log\<rparr>"
  let ?created = "[(True, CreateTable ?t), (True, UpsertCollection db c ?t [])]"
  have create: "tidb_CreateCollection (shared_db hex) ref_json E db c \<lparr>cc_Validator = []\<rparr> (oneShared db c k d (replicate 5 [] @ [batch])) =
      (Ok (), ?q [[], [], batch] ?created)"
    using len by (simp add: tidb_CreateCollection_def tidb_ensureCollection_def tidb_collectionOptions_def queryRow_def shared_simps
      oneShared_def oneDoc_def emptyDb_def emptyState_def others_run_def numeral_eq_Suc bindS_def liftS_def returnS_def Let_def
      mergedOptions_def optionsOrEmpty_def MarshalExtJSON_def ref_json_def)
  let ?found = "?q [batch] (?created @ [(True, CreateTable ?t)])"
  have found: "tidb_Find (shared_db hex) ref_json E db c (filterRequest []) (?q [[], [], batch] ?created) = (Ok [d], ?found)"
    using len assms(3) by (simp add: tidb_Find_def tidb_ensureCollection_def shared_simps others_run_def bindS_def liftS_def returnS_def
      BuildFindSQL_eq canPushDownFind_def canPushDownFilter_iff filterRequest_def limitOf_def eachRow_def matchRow_def
      UnmarshalExtJSON_def ref_json_def findOptions_def ApplyFindOptions_all rowsOf_def Let_def)
  have "\<exists>x. others_run hex ?found = ?found\<lparr>sh_tab := ?s\<lparr>sq_tables := [(?t, [(k, x)])]\<rparr>, sh_others := [],
      sh_log := sh_log ?found @ map (Pair False) batch\<rparr>"
    using assms(2,7) by (auto simp: others_run_def other_stmt_def setRows_def)
  then obtain x where "others_run hex ?found = ?found\<lparr>sh_tab := ?s\<lparr>sq_tables := [(?t, [(k, x)])]\<rparr>, sh_others := [],
      sh_log := sh_log ?found @ map (Pair False) batch\<rparr>" by blast
  moreover have "filter (\<lambda>(_, st). \<not> catalogStmt st) (map (Pair False) batch) = map (Pair False) batch" using assms(7) by auto
  ultimately show ?thesis
    using assms(2,4-6)
    by (simp add: tidb_Update_def Let_def bindS_simps create found tidb_replaceDocument_def run_simps CloneDoc_def
      marshal_ref shared_simps tidb_upsert_def tu_matched_def tu_modified_def setRows_def rowsOf_def docLog_def)
qed

section \<open>Properties\<close>

text \<open>C2: Any number of servers may share one TiDB and run their statements between those of a connection, and any statement may
  fail: what happens to the database from the first message of the connection to its last is a sequence of statements that
  write documents under their keys, so every table keeps each key once and every row stays the text of a document under the
  key of that document's \<open>_id\<close>.\<close>

theorem gateways_keep_keys:
  assumes "sql_shared D json X hex tab pending" and "tidb_keyed X json hex (tab q)" and "decodes_wf W"
    and "\<forall>j i. env_oid_hex (Envs j i) = hex" and "serveConn W (tidb_ops D X) Envs written i reqs q = (out, q')"
  shows "gateways X json hex (tab q) (tab q') \<and> tidb_keyed X json hex (tab q')"
proof -
  have "reached X json hex (tab q) (tab (snd (serveConn W (tidb_ops D X) Envs written i reqs q)))"
  proof (rule serveConn_keeps)
    fix j req cmd assume "requestCommand W req = Some cmd"
    then show "keeps (\<lambda>q'. reached X json hex (tab q) (tab q')) (Handle (tidb_ops D X) (Envs j) cmd)"
      using assms(4) wf_requestCommand [OF assms(3)] by (intro sql_shared.command_reached [OF assms(1)]) auto
  qed (use assms(2) in \<open>simp add: reached_def stay\<close>)
  with assms(5) have "reached X json hex (tab q) (tab q')" by simp
  then show ?thesis by (metis reached_def reached_keyed)
qed

theorem gateways_keep_keys_witness:
  "\<exists>out q'. serveConn demo_msgs (tidb_ops (shared_db (\<lambda>b. b)) ref_json) (\<lambda>_ _. demo_env) (\<lambda>_. True) 0
       [InMsg 7 (''i'', ''a''), InMsg 8 (''i'', ''a'')]
       \<lparr>sh_tab = emptyState, sh_pending = [],
         sh_others = [[CreateTable ''tm_doc_db_c'', InsertDoc ''tm_doc_db_c'' ''string:a'' [(''_id'', GString ''a'')]]], sh_log = []\<rparr> = (out, q') \<and>
     distinct (keys (rowsOf (sh_tab q') ''tm_doc_db_c''))"
proof -
  let ?reqs = "[InMsg 7 (''i'', ''a''), InMsg 8 (''i'', ''a'')]"
  let ?q = "\<lparr>sh_tab = emptyState, sh_pending = [],
    sh_others = [[CreateTable ''tm_doc_db_c'', InsertDoc ''tm_doc_db_c'' ''string:a'' [(''_id'', GString ''a'')]]], sh_log = []\<rparr>"
  obtain out q' where run: "serveConn demo_msgs (tidb_ops (shared_db (\<lambda>b. b)) ref_json) (\<lambda>_ _. demo_env) (\<lambda>_. True) 0 ?reqs ?q = (out, q')"
    by fastforce
  have "tidb_keyed ref_json Some (\<lambda>b. b) (sh_tab ?q)"
    by (simp add: tidb_keyed_def emptyState_def rowsOf_def)
  from gateways_keep_keys [OF shared.sql_shared_axioms this demo_decodes_wf _ run] deployed_demo
  have "tidb_keyed ref_json Some (\<lambda>b. b) (sh_tab q')" by simp
  with run show ?thesis by (auto simp: tidb_keyed_def rows_keyed_def)
qed

text \<open>C9: An insert into a TiDB that other servers write to stores all its documents at one moment, each under a key that
  its table did not have then, or it is not answered with success and has stored none: of its own statements only those took
  effect that create the table and enter the collection into the catalog.\<close>

theorem tidb_insert_is_one_step:
  assumes "sql_gateway D json X hex tab pending mine" and "tidb_keyed X json hex (tab q)" and "env_oid_hex E = hex"
    and "tidb_Insert D X E db c docs q = (r, q')"
  shows "\<exists>s sts. gateways X json hex (tab q) s \<and> (\<forall>st \<in> set sts. catalogStmt st) \<and>
    (tab q' = s \<and> \<not> is_Ok r \<and> mine q' = mine q @ sts \<or>
     (\<exists>ks raws txts. map (DocumentIDKey E) docs = map Ok ks \<and> map (MarshalExtJSON X) docs = map Ok raws \<and>
       list_all2 (stored X json) docs txts \<and> distinct ks \<and> set ks \<inter> set (keys (rowsOf s (PhysicalTableName db c))) = {} \<and>
       rowsOf (tab q') (PhysicalTableName db c) = rowsOf s (PhysicalTableName db c) @ zip ks txts \<and>
       (\<forall>t. t \<noteq> PhysicalTableName db c \<longrightarrow> rowsOf (tab q') t = rowsOf s t) \<and>
       mine q' = mine q @ sts @ map2 (InsertDoc (PhysicalTableName db c)) ks raws))"
  using sql_gateway.insert_one_step [OF assms] unfolding sql_gateway.storedAtOnce_def [OF assms(1)] catalogOnly_def
proof (elim exE conjE disjE)
  fix s sts assume "gateways X json hex (tab q) s" "tab q' = s" "mine q' = mine q @ sts" "\<forall>st \<in> set sts. catalogStmt st" "\<not> is_Ok r"
  then show ?thesis by (intro exI [of _ s] exI [of _ sts]) simp
next
  fix s ks raws txts m sts
  assume "gateways X json hex (tab q) s" "m = mine q @ sts" "\<forall>st \<in> set sts. catalogStmt st"
    "mine q' = m @ map2 (InsertDoc (PhysicalTableName db c)) ks raws"
    and stored: "map (DocumentIDKey E) docs = map Ok ks" "map (MarshalExtJSON X) docs = map Ok raws" "list_all2 (stored X json) docs txts"
      "distinct ks" "set ks \<inter> set (keys (rowsOf s (PhysicalTableName db c))) = {}"
      "rowsOf (tab q') (PhysicalTableName db c) = rowsOf s (PhysicalTableName db c) @ zip ks txts"
      "\<forall>t. t \<noteq> PhysicalTableName db c \<longrightarrow> rowsOf (tab q') t = rowsOf s t"
  then show ?thesis
    by (intro exI [of _ s] exI [of _ sts] conjI disjI2 exI [of _ ks] exI [of _ raws] exI [of _ txts]) simp_all
qed

theorem tidb_insert_is_one_step_witness:
  "\<exists>r q' sts. tidb_Insert (shared_db (\<lambda>b. b)) ref_json demo_env ''db'' ''c'' [[(''_id'', GString ''a'')], [(''_id'', GString ''a'')]]
       (oneShared ''db'' ''c'' ''string:b'' [(''_id'', GString ''b'')] [[], [DeleteDoc ''tm_doc_db_c'' ''string:b'']]) = (r, q') \<and>
     \<not> is_Ok r \<and> sh_mine q' = sts \<and> (\<forall>st \<in> set sts. catalogStmt st)"
proof -
  let ?q = "oneShared ''db'' ''c'' ''string:b'' [(''_id'', GString ''b'')] [[], [DeleteDoc ''tm_doc_db_c'' ''string:b'']]"
  let ?docs = "[[(''_id'', GString ''a'')], [(''_id'', GString ''a'')]]"
  obtain r q' where run: "tidb_Insert (shared_db (\<lambda>b. b)) ref_json demo_env ''db'' ''c'' ?docs ?q = (r, q')" by fastforce
  have "idKey (\<lambda>b. b) [(''_id'', GString ''b'')] = Ok ''string:b''" by (simp add: idKey_def DocumentIDKey_def)
  then have "tidb_keyed ref_json Some (\<lambda>b. b) (sh_tab ?q)"
    unfolding tidb_keyed_def
    by (simp add: oneShared_def rows_keyed_def rowsOf_oneDoc stored_def marshal_ref) (simp add: oneDoc_def safeTable_Physical)
  moreover have "sh_mine ?q = []" by (simp add: sh_mine_def oneShared_def)
  ultimately have "\<not> is_Ok r \<and> (\<forall>st \<in> set (sh_mine q'). catalogStmt st)"
    using tidb_insert_is_one_step [OF shared.sql_gateway_axioms _ deployed_demo(2) run] by (auto simp: DocumentIDKey_def)
  with run show ?thesis by blast
qed

text \<open>C31: Two servers that update the same document of a TiDB at the same time may both answer that they modified it although
  the change of one is lost, even when the two change different fields: when the first replaces the document after the second
  has read it, the second replaces it with its own change of the document as it was before both.\<close>

theorem tidb_update_loses_concurrent_update:
  assumes "nameable db c" and "length k \<le> 768" and "normalizeEntries d = d" and "Matches E d f"
    and "ApplyUpdate E (env_now E 0) d u1 = Ok d1" and "DocumentIDKey E d1 = Ok k"
    and "ApplyUpdate E (env_now E 0) d u2 = Ok d2" and "DocumentIDKey E d2 = Ok k" and "env_oid_hex E = hex"
  shows "let t = PhysicalTableName db c;
      update = (\<lambda>u others. tidb_Update (shared_db hex) ref_json E db c [\<lparr>um_Filter = f, um_Update = u, um_Multi = m, um_Upsert = False\<rparr>]
        (oneShared db c k d (replicate 5 [] @ [others])));
      ok = Ok \<lparr>ur_Matched = 1, ur_Modified = 1, ur_Upserted = []\<rparr>
    in (\<exists>q1. update u1 [] = (ok, q1) \<and> docLog q1 = [(True, ReplaceDoc t k d1)] \<and> rowsOf (sh_tab q1) t = [(k, d1)]) \<and>
      (\<exists>q2. update u2 [ReplaceDoc t k d1] = (ok, q2) \<and>
        docLog q2 = [(False, ReplaceDoc t k d1), (True, ReplaceDoc t k d2)] \<and> rowsOf (sh_tab q2) t = [(k, d2)])"
  using update_between [OF assms(1-3), of E "\<lparr>um_Filter = f, um_Update = u1, um_Multi = m, um_Upsert = False\<rparr>" d1 "[]" hex]
    update_between [OF assms(1-3), of E "\<lparr>um_Filter = f, um_Update = u2, um_Multi = m, um_Upsert = False\<rparr>" d2
      "[ReplaceDoc (PhysicalTableName db c) k d1]" hex] assms(4-9)
  by (simp add: Let_def DocumentIDKey_idKey)

theorem tidb_update_loses_concurrent_update_witness:
  "let t = PhysicalTableName ''db'' ''c''; x = [(''_id'', GString ''a''), (''n'', GString ''x'')]; y = [(''_id'', GString ''a''), (''m'', GString ''y'')]
   in \<exists>q. tidb_Update (shared_db (\<lambda>b. b)) ref_json demo_env ''db'' ''c''
        [\<lparr>um_Filter = [], um_Update = [(''$set'', GDoc [(''m'', GString ''y'')])], um_Multi = False, um_Upsert = False\<rparr>]
        (oneShared ''db'' ''c'' ''string:a'' [(''_id'', GString ''a'')] (replicate 5 [] @ [[ReplaceDoc t ''string:a'' x]])) =
        (Ok \<lparr>ur_Matched = 1, ur_Modified = 1, ur_Upserted = []\<rparr>, q) \<and>
      docLog q = [(False, ReplaceDoc t ''string:a'' x), (True, ReplaceDoc t ''string:a'' y)] \<and> rowsOf (sh_tab q) t = [(''string:a'', y)]"
proof -
  have set: "ApplyUpdate demo_env (env_now demo_env 0) [(''_id'', GString ''a'')] [(''$set'', GDoc [(f, GString v)])] =
      Ok [(''_id'', GString ''a''), (f, GString v)]" if "f = ''m'' \<or> f = ''n''" for f v
    using that by (auto simp: ApplyUpdate_single applyOperator_def update_set_def)
  have k: "DocumentIDKey demo_env [(''_id'', GString ''a''), (f, v)] = Ok ''string:a''" for f v by (simp add: DocumentIDKey_def)
  from tidb_update_loses_concurrent_update [OF nameable_dbc _ _ _ set [of "''n''" "''x''"] k set [of "''m''" "''y''"] k deployed_demo(2),
      of "[]" False] show ?thesis by (simp add: Let_def)
qed

end
