(* ===== verification/Tidb_Update.thy ===== *)
theory Tidb_Update
  imports Tidb_Properties
begin

text \<open>
  What an update request does over a reliable database: every operation of it starts from the documents of
  one find, so the last operation that matches a document decides what is stored under its key.
\<close>

section \<open>Documents by key\<close>

definition docsAt :: "'j extjson \<Rightarrow> 'j sqlState \<Rightarrow> string \<Rightarrow> string \<rightharpoonup> doc" where
  "docsAt X s t k = map_option (docOf X) (map_of (rowsOf s t) k)"

lemma docsAt_cong: "rowsOf s' = rowsOf s \<Longrightarrow> docsAt X s' = docsAt X s"
  by (simp add: docsAt_def fun_eq_iff)

text \<open>Documents that change one by one under the keys they have change as a multiset.\<close>

lemma contents_mapped:
  assumes "distinct (keys (rowsOf s t))" and "distinct (keys (rowsOf s' t))"
    and "\<And>k. docsAt X s' t k = map_option f (docsAt X s t k)"
  shows "tidb_contents X s' t = image_mset f (tidb_contents X s t)"
proof -
  let ?new = "map (apsnd (docOf X)) (rowsOf s' t)" and ?old = "map (apsnd (f \<circ> docOf X)) (rowsOf s t)"
  have keys: "keys (map (apsnd h) rows) = keys rows" for h :: "'a \<Rightarrow> doc" and rows by simp
  have dist: "distinct (map (apsnd h) rows)" if "distinct (keys rows)" for h :: "'a \<Rightarrow> doc" and rows
    using that distinct_map [of fst "map (apsnd h) rows"] by (simp only: keys simp_thms)
  have lookup: "map_of (map (apsnd h) rows) = map_option h \<circ> map_of rows" for h :: "'a \<Rightarrow> doc" and rows
    by (simp add: apsnd_def map_prod_def map_of_map)
  have "map_of ?new = map_of ?old"
    using assms(3) by (simp add: lookup docsAt_def fun_eq_iff option.map_comp)
  then have "set ?new = set ?old" using map_of_inject_set [of ?new ?old] assms(1,2) by (simp only: keys)
  moreover have "distinct ?new" "distinct ?old" using assms(1,2) by (simp_all only: dist)
  ultimately have "mset ?new = mset ?old" using set_eq_iff_mset_eq_distinct by blast
  then have "image_mset snd (mset ?new) = image_mset snd (mset ?old)" by (rule arg_cong)
  then show ?thesis by (simp add: tidb_contents_def image_mset.compositionality o_def)
qed

section \<open>One operation\<close>

text \<open>
  An update that writes \<open>d'\<close> for \<open>d\<close>: whatever the time, under the same key, which the table can hold, and as a
  document that comes back as it was.
\<close>

definition replaces :: "goenv \<Rightarrow> 'j extjson \<Rightarrow> ('j \<Rightarrow> 'j option) \<Rightarrow> UpdateModel \<Rightarrow> doc \<Rightarrow> doc \<Rightarrow> bool" where
  "replaces E X json u d d' \<longleftrightarrow> (\<forall>i. ApplyUpdate E (env_now E i) d (um_Update u) = Ok d') \<and> storable X json d' \<and>
     (\<exists>k. DocumentIDKey E d = Ok k \<and> DocumentIDKey E d' = Ok k \<and> length k \<le> 768)"

definition keyOf :: "goenv \<Rightarrow> doc \<Rightarrow> string" where
  "keyOf E d = (case DocumentIDKey E d of Ok k \<Rightarrow> k | _ \<Rightarrow> [])"

text \<open>The documents after an operation that writes \<open>g d\<close> for the documents \<open>d\<close> that it matches.\<close>

definition overwritten :: "goenv \<Rightarrow> UpdateModel \<Rightarrow> (doc \<Rightarrow> doc) \<Rightarrow> doc list \<Rightarrow> (string \<rightharpoonup> doc) \<Rightarrow> string \<rightharpoonup> doc" where
  "overwritten E u g docs = fold (\<lambda>d m. m(keyOf E d \<mapsto> g d)) (filter (\<lambda>d. Matches E d (um_Filter u)) docs)"

lemma overwritten_simps [simp]:
  "overwritten E u g [] m = m"
  "overwritten E u g (d # docs) m = overwritten E u g docs (if Matches E d (um_Filter u) then m(keyOf E d \<mapsto> g d) else m)"
  by (simp_all add: overwritten_def)

definition counted :: "tidbUpd \<Rightarrow> tidbUpd" where
  "counted v = tu_modified (tu_matched v)"

context tidb_backend
begin

lemma replace_at:
  assumes inv: "tidb_inv X json hex (tab q)" and hexE: "env_oid_hex E = hex" and t: "safeTable t"
    and table: "map_of (sq_tables (tab q)) t \<noteq> None" and up: "replaces E X json u d d'"
  obtains q' where "tidb_replaceDocument D X E t d' q = (Ok (), q')" and "tidb_inv X json hex (tab q')"
    and "map_of (sq_tables (tab q')) t \<noteq> None" and "docsAt X (tab q') t = (docsAt X (tab q) t)(keyOf E d \<mapsto> d')"
proof -
  from up obtain k raw j where k: "DocumentIDKey E d = Ok k" "DocumentIDKey E d' = Ok k" "length k \<le> 768"
    and raw: "MarshalExtJSON X d' = Ok raw" "json raw = Some j" "UnmarshalExtJSON X j = Ok d'" and d': "storable X json d'"
    unfolding replaces_def storable_def stored_def by blast
  let ?st = "ReplaceDoc t k raw" and ?rows = "put k j (rowsOf (tab q) t)"
  obtain q' where q': "db_exec D (render ?st) q = (Ok (), q')" "runs json ?st (tab q) (tab q')"
    by (rule execute [of ?st q]) (use t table k(3) raw(2) in auto)
  then have tab: "tab q' = setRows t ?rows (tab q)"
    using table raw(2) k(3) by (auto simp: runs_def rowsOf_Some split: option.splits)
  have "rows_ok X json hex ?rows"
    using inv_rows [OF inv, of t] d' raw(3) k(2) unfolding rows_ok_def DocumentIDKey_idKey [OF hexE]
    by (auto simp: map_simps dest!: set_put_subset [THEN subsetD])
  then have "tidb_inv X json hex (tab q')" unfolding tab by (rule inv_setRows [OF inv])
  moreover have "docsAt X (tab q') t = (docsAt X (tab q) t)(keyOf E d \<mapsto> d')"
    using raw(3) k(1) by (simp add: docsAt_def tab map_simps fun_eq_iff docOf_def keyOf_def)
  moreover have "tidb_replaceDocument D X E t d' q = (Ok (), q')"
    using k(2) raw(1) q'(1) by (simp add: tidb_replaceDocument_def bindS_simps run_simps)
  ultimately show thesis using that tab by simp
qed

lemma updateDocs_total:
  assumes "um_Multi u" and hexE: "env_oid_hex E = hex" and t: "safeTable t"
    and "tidb_inv X json hex (tab q)" and "map_of (sq_tables (tab q)) t \<noteq> None"
    and "\<forall>d \<in> set docs. Matches E d (um_Filter u) \<longrightarrow> replaces E X json u d (g d)"
  shows "\<exists>q'. tidb_updateDocs D X E t u docs v q =
      (Ok ((counted ^^ length (filter (\<lambda>d. Matches E d (um_Filter u)) docs)) v), q') \<and> tidb_inv X json hex (tab q') \<and>
    map_of (sq_tables (tab q')) t \<noteq> None \<and> docsAt X (tab q') t = overwritten E u g docs (docsAt X (tab q) t)"
  using assms(4-6)
proof (induction docs arbitrary: q v)
  case Nil
  then show ?case by (simp add: returnS_def)
next
  case (Cons d docs)
  show ?case
  proof (cases "Matches E d (um_Filter u)")
    case False
    with Cons.IH [OF Cons.prems(1,2)] Cons.prems(3) show ?thesis by simp
  next
    case True
    with Cons.prems(3) have up: "replaces E X json u d (g d)" by simp
    then have next': "ApplyUpdate E (env_now E (tu_clock v)) d (um_Update u) = Ok (g d)" by (simp add: replaces_def)
    obtain q1 where q1: "tidb_replaceDocument D X E t (g d) q = (Ok (), q1)" "tidb_inv X json hex (tab q1)"
      "map_of (sq_tables (tab q1)) t \<noteq> None" "docsAt X (tab q1) t = (docsAt X (tab q) t)(keyOf E d \<mapsto> g d)"
      by (rule replace_at [OF Cons.prems(1) hexE t Cons.prems(2) up])
    have "\<forall>d \<in> set docs. Matches E d (um_Filter u) \<longrightarrow> replaces E X json u d (g d)" using Cons.prems(3) by simp
    from Cons.IH [OF q1(2,3) this, of "counted v"] obtain q2 where
      q2: "tidb_updateDocs D X E t u docs (counted v) q1 =
        (Ok ((counted ^^ length (filter (\<lambda>d. Matches E d (um_Filter u)) docs)) (counted v)), q2)"
      and rest: "tidb_inv X json hex (tab q2)" "map_of (sq_tables (tab q2)) t \<noteq> None"
        "docsAt X (tab q2) t = overwritten E u g docs (docsAt X (tab q1) t)" by blast
    have "tidb_updateDocs D X E t u (d # docs) v q =
        (Ok ((counted ^^ length (filter (\<lambda>d. Matches E d (um_Filter u)) (d # docs))) v), q2)"
      using True next' q1(1) q2 assms(1)
      by (simp add: bindS_simps run_simps CloneDoc_def counted_def [symmetric] funpow_Suc_right del: funpow.simps(2))
    with rest True show ?thesis unfolding q1(4) by (intro exI [of _ q2]) simp
  qed
qed

end

section \<open>A request\<close>

text \<open>What the operations of a request leave of a document \<open>d\<close>: each starts from \<open>d\<close>, the last one that matches decides.\<close>

definition lastUpdate :: "goenv \<Rightarrow> (UpdateModel \<Rightarrow> doc \<Rightarrow> doc) \<Rightarrow> UpdateModel list \<Rightarrow> doc \<Rightarrow> doc" where
  "lastUpdate E g us d = fold (\<lambda>u d'. if Matches E d (um_Filter u) then g u d else d') us d"

abbreviation operations ::
  "goenv \<Rightarrow> (UpdateModel \<Rightarrow> doc \<Rightarrow> doc) \<Rightarrow> doc list \<Rightarrow> UpdateModel list \<Rightarrow> (string \<rightharpoonup> doc) \<Rightarrow> string \<rightharpoonup> doc" where
  "operations E g docs us \<equiv> fold (\<lambda>u. overwritten E u (g u) docs) us"

abbreviation matchCount :: "goenv \<Rightarrow> doc list \<Rightarrow> UpdateModel list \<Rightarrow> 64 word" where
  "matchCount E docs us \<equiv> \<Sum>u \<leftarrow> us. word_of_nat (length (filter (\<lambda>d. Matches E d (um_Filter u)) docs))"

lemma overwritten_other: "k \<notin> keyOf E ` set docs \<Longrightarrow> overwritten E u g docs m k = m k"
  by (induction docs arbitrary: m) auto

lemma overwritten_at:
  assumes "inj_on (keyOf E) (set docs)" and "d \<in> set docs"
  shows "overwritten E u g docs m (keyOf E d) = (if Matches E d (um_Filter u) then Some (g d) else m (keyOf E d))"
  using assms
proof (induction docs arbitrary: m)
  case (Cons d' docs)
  show ?case
  proof (cases "d \<in> set docs")
    case True
    moreover have "d' = d \<or> keyOf E d' \<noteq> keyOf E d" using Cons.prems by (auto simp: inj_on_def)
    ultimately show ?thesis using Cons by auto
  next
    case False
    with Cons.prems have "d' = d" "keyOf E d \<notin> keyOf E ` set docs" by (auto simp: inj_on_def)
    then show ?thesis by (simp add: overwritten_other)
  qed
qed simp

lemma operations_other: "k \<notin> keyOf E ` set docs \<Longrightarrow> operations E g docs us m k = m k"
  by (induction us arbitrary: m) (simp_all add: overwritten_other)

lemma operations_at:
  assumes "inj_on (keyOf E) (set docs)" and "d \<in> set docs" and "m (keyOf E d) = Some x"
  shows "operations E g docs us m (keyOf E d) = Some (fold (\<lambda>u d'. if Matches E d (um_Filter u) then g u d else d') us x)"
  using assms(3) by (induction us arbitrary: m x) (simp_all add: overwritten_at [OF assms(1,2)])

text \<open>The operations change the documents of a table under their own keys.\<close>

lemma operations_stored:
  assumes inv: "tidb_inv X json hex s" and hexE: "env_oid_hex E = hex" and docs: "mset docs = tidb_contents X s t"
  shows "operations E g docs us (docsAt X s t) k = map_option (lastUpdate E g us) (docsAt X s t k)"
proof -
  have set: "set docs = docOf X ` snd ` set (rowsOf s t)"
    using mset_eq_setD [of docs "map (docOf X \<circ> snd) (rowsOf s t)"] docs by (auto simp: tidb_contents_def)
  have key: "keyOf E (docOf X j) = key" if "(key, j) \<in> set (rowsOf s t)" for key j
    using row_key [OF inv hexE that] by (simp add: keyOf_def)
  have lookup: "map_of (rowsOf s t) key = Some j \<longleftrightarrow> (key, j) \<in> set (rowsOf s t)" for key j
    using inv by (simp add: tidb_inv_def rows_ok_def)
  have inj: "inj_on (keyOf E) (set docs)"
    unfolding set by (auto simp: inj_on_def key simp flip: lookup)
  show ?thesis
  proof (cases "map_of (rowsOf s t) k")
    case None
    then have "k \<notin> keyOf E ` set docs" unfolding set by (auto simp: key map_of_eq_None_iff) (metis image_eqI fst_conv)
    with None show ?thesis by (simp add: operations_other docsAt_def)
  next
    case (Some j)
    then have row: "(k, j) \<in> set (rowsOf s t)" by (simp add: lookup)
    then have "docOf X j \<in> set docs" unfolding set by force
    from operations_at [OF inj this, of "docsAt X s t" "docOf X j" g us] show ?thesis
      by (simp add: key [OF row] docsAt_def Some lastUpdate_def)
  qed
qed

lemma counted_result:
  "tu_result ((counted ^^ n) v) = (tu_result v)\<lparr>ur_Matched := ur_Matched (tu_result v) + word_of_nat n,
    ur_Modified := ur_Modified (tu_result v) + word_of_nat n\<rparr>"
  by (induction n) (simp_all add: counted_def tu_matched_def tu_modified_def ac_simps)

context tidb_backend
begin

lemma updates_total:
  assumes "\<forall>u \<in> set us. um_Multi u \<and> \<not> um_Upsert u" and hexE: "env_oid_hex E = hex" and t: "safeTable t"
    and "tidb_inv X json hex (tab q)" and "map_of (sq_tables (tab q)) t \<noteq> None"
    and "\<forall>u \<in> set us. \<forall>d \<in> set docs. Matches E d (um_Filter u) \<longrightarrow> replaces E X json u d (g u d)"
  shows "\<exists>v' q'. tidb_updates D X E t docs us v q = (Ok v', q') \<and>
    docsAt X (tab q') t = operations E g docs us (docsAt X (tab q) t) \<and> tidb_inv X json hex (tab q') \<and>
    tu_result v' = (tu_result v)\<lparr>ur_Matched := ur_Matched (tu_result v) + matchCount E docs us,
      ur_Modified := ur_Modified (tu_result v) + matchCount E docs us\<rparr>"
  using assms(1,4-6)
proof (induction us arbitrary: q v)
  case Nil
  then show ?case by (simp add: returnS_def)
next
  case (Cons u us)
  from Cons.prems have u: "um_Multi u" "\<not> um_Upsert u"
    and up: "\<forall>d \<in> set docs. Matches E d (um_Filter u) \<longrightarrow> replaces E X json u d (g u d)" by simp_all
  define v1 where "v1 = (counted ^^ length (filter (\<lambda>d. Matches E d (um_Filter u)) docs)) (v\<lparr>tu_matchedForOp := 0\<rparr>)"
  obtain q1 where q1: "tidb_updateDocs D X E t u docs (v\<lparr>tu_matchedForOp := 0\<rparr>) q = (Ok v1, q1)"
    "tidb_inv X json hex (tab q1)" "map_of (sq_tables (tab q1)) t \<noteq> None"
    "docsAt X (tab q1) t = overwritten E u (g u) docs (docsAt X (tab q) t)"
    using updateDocs_total [OF u(1) hexE t Cons.prems(2,3) up] unfolding v1_def by blast
  have "tidb_upsert D X E t u v1 q1 = (Ok v1, q1)" using u(2) by (simp add: tidb_upsert_def returnS_def)
  with q1(1) have run: "tidb_updates D X E t docs (u # us) v q = tidb_updates D X E t docs us v1 q1"
    by (simp add: bindS_simps)
  have "\<forall>u \<in> set us. um_Multi u \<and> \<not> um_Upsert u"
    "\<forall>u \<in> set us. \<forall>d \<in> set docs. Matches E d (um_Filter u) \<longrightarrow> replaces E X json u d (g u d)"
    using Cons.prems(1,4) by simp_all
  from Cons.IH [OF this(1) q1(2,3) this(2), of v1] show ?case
    unfolding run q1(4) by (elim ex_forward) (simp add: v1_def counted_result add.assoc)
qed

lemma update_snapshot:
  assumes inv: "tidb_inv X json hex (tab q)" and named: "nameable db c" and hexE: "env_oid_hex E = hex"
    and ops: "\<forall>u \<in> set us. um_Multi u \<and> \<not> um_Upsert u"
    and up: "\<forall>u \<in> set us. \<forall>d. d \<in># tidb_contents X (tab q) (PhysicalTableName db c) \<longrightarrow> Matches E d (um_Filter u) \<longrightarrow>
      replaces E X json u d (g u d)"
  shows "\<exists>n q'. tidb_Update D X E db c us q = (Ok \<lparr>ur_Matched = n, ur_Modified = n, ur_Upserted = []\<rparr>, q') \<and>
    n = (\<Sum>u \<leftarrow> us. word_of_nat (size (filter_mset (\<lambda>d. Matches E d (um_Filter u)) (tidb_contents X (tab q) (PhysicalTableName db c))))) \<and>
    tidb_contents X (tab q') (PhysicalTableName db c) =
      image_mset (lastUpdate E g us) (tidb_contents X (tab q) (PhysicalTableName db c))"
proof -
  let ?t = "PhysicalTableName db c"
  obtain q1 where q1: "tidb_CreateCollection D X E db c \<lparr>cc_Validator = []\<rparr> q = (Ok (), q1)"
    "tidb_inv X json hex (tab q1)" "rowsOf (tab q1) = rowsOf (tab q)"
    by (rule create_total [OF inv named])
  obtain docs q2 where docs: "mset docs = tidb_contents X (tab q1) ?t"
    and q2: "tidb_Find D X E db c (filterRequest []) q1 = (Ok docs, q2)" "tidb_inv X json hex (tab q2)"
      "rowsOf (tab q2) = rowsOf (tab q1)" "map_of (sq_tables (tab q2)) ?t = Some (rowsOf (tab q1) ?t)"
    by (rule find_all_total [OF q1(2) named hexE])
  have rows: "rowsOf (tab q2) = rowsOf (tab q)" by (simp add: q2(3) q1(3))
  have docs: "mset docs = tidb_contents X (tab q) ?t" unfolding docs contents_cong [OF q1(3)] by (rule refl)
  have up: "\<forall>u \<in> set us. \<forall>d \<in> set docs. Matches E d (um_Filter u) \<longrightarrow> replaces E X json u d (g u d)"
    using up unfolding docs [symmetric] by simp
  obtain v q3 where q3: "tidb_updates D X E ?t docs us \<lparr>tu_result = \<lparr>ur_Matched = 0, ur_Modified = 0, ur_Upserted = []\<rparr>,
      tu_matchedForOp = 0, tu_clock = 0\<rparr> q2 = (Ok v, q3)" "tidb_inv X json hex (tab q3)"
    and after: "docsAt X (tab q3) ?t = operations E g docs us (docsAt X (tab q2) ?t)"
    and v: "tu_result v = \<lparr>ur_Matched = matchCount E docs us, ur_Modified = matchCount E docs us, ur_Upserted = []\<rparr>"
    using updates_total [OF ops hexE safeTable_Physical q2(2) _ up] q2(4) by fastforce
  have "docsAt X (tab q3) ?t k = map_option (lastUpdate E g us) (docsAt X (tab q) ?t k)" for k
    unfolding after docsAt_cong [OF rows] by (rule operations_stored [OF inv hexE docs])
  moreover have "distinct (keys (rowsOf (tab q) ?t))" "distinct (keys (rowsOf (tab q3) ?t))"
    using inv_rows [OF inv] inv_rows [OF q3(2)] by (simp_all add: rows_ok_def)
  ultimately have "tidb_contents X (tab q3) ?t = image_mset (lastUpdate E g us) (tidb_contents X (tab q) ?t)"
    by (rule contents_mapped [rotated 2])
  moreover have "length (filter P docs) = size (filter_mset P (tidb_contents X (tab q) ?t))" for P
    unfolding docs [symmetric] by (metis mset_filter size_mset)
  moreover have "tidb_Update D X E db c us q = (Ok (tu_result v), q3)"
    using q1(1) q2(1) q3(1) by (simp add: tidb_Update_def Let_def bindS_simps returnS_def)
  ultimately show ?thesis unfolding v by auto
qed

end

section \<open>Properties\<close>

text \<open>C11: The operations of one update request to a TiDB that does not fail all start from the documents of one find. In a request whose
  operations are all for many documents and without upsert, and write storable documents under the \<^verbatim>\<open>_id\<close> they had, whatever
  the time (\<open>replaces\<close>), each document that some operation matches is replaced by what the last of these makes of the document
  as it was before the request: what the others did to it is lost, although each of them is counted as a modification. Every
  other document stays, and none is added or removed.\<close>

theorem tidb_updates_start_from_one_find:
  assumes "tidb_backend D json tab work X" and "tidb_inv X json hex (tab q)" and "nameable db c" and "env_oid_hex E = hex"
    and "\<forall>u \<in> set us. um_Multi u \<and> \<not> um_Upsert u"
    and "\<forall>u \<in> set us. \<forall>d. d \<in># tidb_contents X (tab q) (PhysicalTableName db c) \<longrightarrow> Matches E d (um_Filter u) \<longrightarrow>
      replaces E X json u d (g u d)"
  shows "\<exists>n q'. tidb_Update D X E db c us q = (Ok \<lparr>ur_Matched = n, ur_Modified = n, ur_Upserted = []\<rparr>, q') \<and>
    n = (\<Sum>u \<leftarrow> us. word_of_nat (size (filter_mset (\<lambda>d. Matches E d (um_Filter u)) (tidb_contents X (tab q) (PhysicalTableName db c))))) \<and>
    tidb_contents X (tab q') (PhysicalTableName db c) =
      image_mset (\<lambda>d. fold (\<lambda>u d'. if Matches E d (um_Filter u) then g u d else d') us d)
        (tidb_contents X (tab q) (PhysicalTableName db c))"
  using tidb_backend.update_snapshot [OF assms] unfolding lastUpdate_def .

definition setOp :: "string \<Rightarrow> string \<Rightarrow> UpdateModel" where
  "setOp f v = \<lparr>um_Filter = [], um_Update = [(''$set'', GDoc [(f, GString v)])], um_Multi = True, um_Upsert = False\<rparr>"

theorem tidb_updates_start_from_one_find_witness:
  "\<exists>q. tidb_Update ref_db ref_json demo_env ''db'' ''c'' [setOp ''m'' ''x'', setOp ''n'' ''y'']
       (oneDoc ''db'' ''c'' ''string:a'' [(''_id'', GString ''a'')]) = (Ok \<lparr>ur_Matched = 2, ur_Modified = 2, ur_Upserted = []\<rparr>, q) \<and>
     tidb_contents ref_json (rf_tab q) (PhysicalTableName ''db'' ''c'') = {#[(''_id'', GString ''a''), (''n'', GString ''y'')]#}"
proof -
  let ?d = "[(''_id'', GString ''a'')]" and ?us = "[setOp ''m'' ''x'', setOp ''n'' ''y'']"
  let ?g = "\<lambda>u d. if u = setOp ''m'' ''x'' then ?d @ [(''m'', GString ''x'')] else ?d @ [(''n'', GString ''y'')]"
  have set: "replaces demo_env ref_json Some (setOp f v) ?d (?d @ [(f, GString v)])" if "f = ''m'' \<or> f = ''n''" for f v
    using that by (auto simp: replaces_def setOp_def storable_ref DocumentIDKey_def ApplyUpdate_single applyOperator_def update_set_def)
  have "idKey (\<lambda>b. b) ?d = Ok ''string:a''" by (simp add: idKey_def DocumentIDKey_def)
  from tidb_updates_start_from_one_find [OF ref.tidb_backend_axioms inv_oneDoc nameable_dbc deployed_demo(2), OF _ this,
      of ?us "''db''" "''c''" ?g] set [of "''m''" "''x''"] set [of "''n''" "''y''"]
  show ?thesis by (auto simp: contents_oneDoc setOp_def)
qed

end
