(* ===== verification/Request_Answers.thy ===== *)
theory Request_Answers
  imports Server_Properties Tidb_Properties
begin

text \<open>
  Which requests end the server. A panic of a handler ends the process. The locale \<open>panic_free\<close> asks of a backend that its
  operations do not panic, except \<^verbatim>\<open>Update\<close>, \<^verbatim>\<open>Distinct\<close> and \<^verbatim>\<open>Aggregate\<close>, which can; over such a backend only the four commands that
  use these can panic. Both backends are \<open>panic_free\<close>.
\<close>

section \<open>Actions that do not panic\<close>

definition never_panics :: "('s, 'a) action \<Rightarrow> bool" where
  "never_panics m \<longleftrightarrow> (\<forall>s. \<not> is_Panic (fst (m s)))"

lemma never_bind: "never_panics m \<Longrightarrow> (\<And>x. never_panics (f x)) \<Longrightarrow> never_panics (bindS m f)"
  unfolding never_panics_def
proof (intro allI)
  fix s assume m: "\<forall>s. \<not> is_Panic (fst (m s))" and f: "\<And>x. \<forall>s. \<not> is_Panic (fst (f x s))"
  obtain r s' where run: "m s = (r, s')" by fastforce
  with m have "\<not> is_Panic r" by (metis fst_conv)
  with run f show "\<not> is_Panic (fst (bindS m f s))" by (cases r) (simp_all add: bindS_def)
qed

lemma never_lift: "\<not> is_Panic r \<Longrightarrow> never_panics (liftS r)"
  by (simp add: never_panics_def liftS_def)

lemma never_return: "never_panics (returnS x)"
  by (simp add: never_panics_def returnS_def)

lemma never_if: "never_panics m \<Longrightarrow> never_panics m' \<Longrightarrow> never_panics (if b then m else m')"
  by simp

lemma never_case_option: "never_panics m \<Longrightarrow> (\<And>x. never_panics (f x)) \<Longrightarrow> never_panics (case v of None \<Rightarrow> m | Some x \<Rightarrow> f x)"
  by (cases v) simp_all

lemma never_case_prod: "(\<And>x y. never_panics (f x y)) \<Longrightarrow> never_panics (case v of (x, y) \<Rightarrow> f x y)"
  by (cases v) simp

lemma never_fold: "(\<And>x. never_panics (f x)) \<Longrightarrow> never_panics (foldS f xs)"
proof (induction xs)
  case (Cons x xs)
  have "foldS f (x # xs) = bindS (f x) (\<lambda>_. foldS f xs)" by (rule ext) simp
  with Cons show ?case by (simp only:) (intro never_bind, auto)
qed (simp add: never_panics_def)

lemmas never_intros = never_bind never_return never_if never_case_option never_case_prod never_fold

lemma args_no_panic [simp]:
  "\<not> is_Panic (requiredString cmd k)" "\<not> is_Panic (docArg cmd k)" "\<not> is_Panic (arrArg cmd k)" "\<not> is_Panic (collectionArg n v)"
  by (auto simp: requiredString_def docArg_def arrArg_def collectionArg_def split: option.split)

lemma limit_no_panic [simp]: "\<not> is_Panic (limitArg v)"
  by (cases v) simp_all

lemma items_no_panic [simp]: "\<not> is_Panic (docItems what xs)"
  by (induction xs) (simp_all split: option.split)

section \<open>The interface\<close>

locale panic_free =
  fixes ops :: "'s store_ops"
  assumes create: "never_panics (op_CreateCollection ops E db c opts)"
    and listColls: "never_panics (op_ListCollections ops E db flt)"
    and dropColl: "never_panics (op_DropCollection ops E db c)"
    and insert: "never_panics (op_Insert ops E db c docs)"
    and find: "never_panics (op_Find ops E db c req)"
    and count: "never_panics (op_Count ops E db c flt)"
    and delete: "never_panics (op_Delete ops E db c dels)"
    and createIndexes: "never_panics (op_CreateIndexes ops E db c idx)"
    and listIndexes: "never_panics (op_ListIndexes ops E db c)"
    and dropDatabase: "never_panics (op_DropDatabase ops E db)"
begin

lemmas operations = create listColls dropColl insert find count delete createIndexes listIndexes dropDatabase

lemmas handler_intros = never_bind never_return never_lift operations args_no_panic limit_no_panic items_no_panic

lemma handlers:
  "never_panics (h_createCollection ops Es cmd coll)" "never_panics (h_dropCollection ops Es cmd coll)"
  "never_panics (h_createIndexes ops Es cmd coll)" "never_panics (h_listIndexes ops Es cmd coll)"
  "never_panics (h_insert ops Es cmd coll)" "never_panics (h_find ops Es cmd coll)" "never_panics (h_count ops Es cmd coll)"
  "never_panics (h_delete ops Es cmd coll)" "never_panics (h_listCollections ops Es cmd)"
  "never_panics (h_dropDatabase ops Es cmd)"
  unfolding h_createCollection_def h_dropCollection_def h_createIndexes_def h_listIndexes_def h_insert_def h_find_def h_count_def
    h_delete_def h_listCollections_def h_dropDatabase_def
  by (rule handler_intros)+

lemma rename_handler: "never_panics (h_renameCollection ops Es cmd fromNS)"
proof -
  obtain db coll where src: "splitNamespace fromNS (stringValue (field cmd ''$db'')) = (db, coll)" by fastforce
  show ?thesis
    unfolding h_renameCollection_def src prod.case
    by (rule never_bind [OF never_lift], simp, rule never_case_prod) (intro handler_intros never_if)
qed

lemma command_never_panics:
  assumes "\<And>name arg. Name cmd = Ok (name, arg) \<Longrightarrow> name \<notin> set [''aggregate'', ''distinct'', ''update'', ''findAndModify'']"
  shows "never_panics (Handle ops Es cmd)"
proof -
  have all: "\<forall>(name, h) \<in> set (collectionHandlers ops Es cmd).
      name \<in> set [''aggregate'', ''distinct'', ''update'', ''findAndModify''] \<or> (\<forall>coll. never_panics (h coll))"
    using handlers by (simp add: collectionHandlers_def never_return)
  have coll: "never_panics (h coll)"
    if "map_of (collectionHandlers ops Es cmd) name = Some h" "name \<notin> set [''aggregate'', ''distinct'', ''update'', ''findAndModify'']"
    for name h coll
    using bspec [OF all map_of_SomeD [OF that(1)]] that(2) by simp
  have "never_panics (dispatch ops Es cmd name arg)" if name: "Name cmd = Ok (name, arg)" for name arg
  proof (cases "map_of (staticReplies cmd arg) name")
    case None
    show ?thesis
    proof (cases "map_of (collectionHandlers ops Es cmd) name")
      case no: None
      show ?thesis
        unfolding dispatch_def [abs_def] None no option.case
        by (intro never_if handlers rename_handler never_lift) simp
    next
      case (Some h)
      show ?thesis
        unfolding dispatch_def [abs_def] None Some option.case
        by (intro never_bind never_lift coll [OF Some] assms [OF name] args_no_panic)
    qed
  qed (simp add: dispatch_def [abs_def] never_return)
  moreover have "\<not> is_Panic (Name cmd)" by (simp add: Name_def split: option.split)
  ultimately show ?thesis
    unfolding Handle_def never_panics_def by (cases "Name cmd") (auto simp: bindS_def liftS_def)
qed

end

section \<open>The in-memory backend\<close>

lemma insertDocs_no_panic: "\<not> is_Panic (fst (insertDocs E v docs coll))"
proof (induction docs arbitrary: coll)
  case (Cons d docs)
  have "ValidateJSONSchema E v d \<noteq> Panic p" "DocumentIDKey E d \<noteq> Panic p" for p
    using validate_no_panic [of E v d] DocumentIDKey_no_panic [of E d] by (metis is_Panic.simps(1))+
  with Cons show ?case by (simp split: res.split)
qed simp

interpretation mem_calm: panic_free memory_ops
proof unfold_locales
  have find: "never_panics (mem_Find E db c req)" for E db c req
    by (simp add: never_panics_def mem_Find_def Let_def split: option.split)
  then show "never_panics (op_Find memory_ops E db c req)" for E db c req by (simp add: memory_ops_def)
  show "never_panics (op_Count memory_ops E db c flt)" for E db c flt
    unfolding memory_ops_def mem_Count_def by (simp, intro never_intros find)
  show "never_panics (op_Insert memory_ops E db c docs)" for E db c docs
    using insertDocs_no_panic by (auto simp: never_panics_def memory_ops_def mem_Insert_def Let_def case_prod_beta)
  show "never_panics (op_Delete memory_ops E db c dels)" for E db c dels
    by (simp add: never_panics_def memory_ops_def mem_Delete_def Let_def split: option.split prod.split)
qed (simp_all add: never_panics_def memory_ops_def mem_CreateCollection_def mem_ListCollections_def mem_DropCollection_def
    mem_CreateIndexes_def mem_ListIndexes_def mem_DropDatabase_def Let_def)

section \<open>The TiDB backend\<close>

text \<open>The driver and the conversion of Extended JSON do not panic.\<close>

locale calm_driver =
  fixes D :: "('q, 'j) sqldb" and X :: "'j extjson"
  assumes exec_calm: "never_panics (db_exec D sql)" and query_calm: "never_panics (db_query D sql)"
    and begin_calm: "never_panics (tx_begin D)" and tx_calm: "never_panics (tx_exec D sql)"
    and commit_calm: "never_panics (tx_commit D)"
    and encode_calm: "\<not> is_Panic (xj_encode X d)" and decode_calm: "\<not> is_Panic (xj_decode X raw)"
begin

lemma json_calm: "\<not> is_Panic (MarshalExtJSON X d)" "\<not> is_Panic (UnmarshalExtJSON X raw)"
  by (simp_all add: MarshalExtJSON_def UnmarshalExtJSON_def encode_calm decode_calm)

lemmas calm = exec_calm query_calm begin_calm commit_calm json_calm ValueKey_no_panic DocumentIDKey_no_panic validate_no_panic

lemma scans_calm:
  fixes row :: "'j sqlval list"
  shows "\<not> is_Panic (scan1 scanText row)" "\<not> is_Panic (scan1 scanJson row)" "\<not> is_Panic (scan1 scanInt row)"
    "\<not> is_Panic (scan2 scanText scanJson row)"
proof -
  have one: "\<not> is_Panic (scan1 f row)" if "\<And>v. \<not> is_Panic (f v)" for f :: "'j sqlval \<Rightarrow> 'b res"
    by (cases "(f, row)" rule: scan1.cases) (auto simp: that)
  have texts: "\<not> is_Panic (scanText v)" and json: "\<not> is_Panic (scanJson v)" and int: "\<not> is_Panic (scanInt v)" for v :: "'j sqlval"
    by (cases v; simp)+
  show "\<not> is_Panic (scan1 scanText row)" "\<not> is_Panic (scan1 scanJson row)" "\<not> is_Panic (scan1 scanInt row)"
    by (intro one texts json int)+
  show "\<not> is_Panic (scan2 scanText scanJson row)"
    by (cases "(scanText :: 'j sqlval \<Rightarrow> string res, scanJson :: 'j sqlval \<Rightarrow> 'j res, row)" rule: scan2.cases)
      (auto simp: is_Panic_bindR texts json)
qed

lemma queryRow_calm: "(\<And>row. \<not> is_Panic (f row)) \<Longrightarrow> never_panics (queryRow D sql f)"
  unfolding queryRow_def by (intro never_bind query_calm never_lift) (simp split: list.split option.split)

lemma eachRow_calm: "(\<And>row x. \<not> is_Panic (f row x)) \<Longrightarrow> \<not> is_Panic (eachRow f rows x)"
  by (simp add: eachRow_def is_Panic_bindR foldR_no_panic split: option.split)

lemma options_calm: "never_panics (tidb_collectionOptions D X db c)"
  unfolding tidb_collectionOptions_def
  by (intro never_bind never_case_option never_return never_lift queryRow_calm scans_calm) (simp add: json_calm)

lemma create_calm: "never_panics (tidb_CreateCollection D X E db c opts)"
  unfolding tidb_CreateCollection_def tidb_ensureCollection_def Let_def by (intro never_bind never_lift options_calm calm)

lemma BuildFindSQL_calm: "\<not> is_Panic (BuildFindSQL E db c req :: 'j sql res)"
proof -
  have "\<not> is_Panic (pushCondition E kv st)" for kv and st :: "'j sql"
    by (simp add: pushCondition_def ValueKey_no_panic split: prod.split)
  then show ?thesis by (simp add: BuildFindSQL_def Let_def is_Panic_bindR foldR_no_panic split: prod.split)
qed

lemma find_calm: "never_panics (tidb_Find D X E db c req)"
proof -
  have "\<not> is_Panic (matchRow X E flt row ds)" for flt row ds
    by (simp add: matchRow_def is_Panic_bindR scans_calm json_calm)
  then show ?thesis
    unfolding tidb_Find_def tidb_ensureCollection_def
    by (intro never_bind never_return never_lift calm BuildFindSQL_calm eachRow_calm)
qed

lemma rollback_calm: "never_panics m \<Longrightarrow> never_panics (withRollback rollback m)"
  unfolding never_panics_def
proof
  fix s assume m: "\<forall>s. \<not> is_Panic (fst (m s))"
  obtain r s' where run: "m s = (r, s')" by fastforce
  with m have "\<not> is_Panic r" by (metis fst_conv)
  with run show "\<not> is_Panic (fst (withRollback rollback m s))" by (cases r) (simp_all add: withRollback_def)
qed

lemma insert_calm: "never_panics (tidb_Insert D X E db c docs)"
proof -
  have "never_panics (insertRow D X E t v d)" for t v d
    unfolding insertRow_def by (intro never_bind never_lift calm tx_calm)
  then show ?thesis
    unfolding tidb_Insert_def tidb_collectionValidator_def Let_def
    by (intro never_bind never_return rollback_calm never_fold create_calm options_calm calm)
qed

lemma delete_calm: "never_panics (tidb_Delete D X E db c dels)"
proof -
  have docs: "never_panics (tidb_deleteDocs D E t m docs n)" for t m docs n
    by (induction docs arbitrary: n) (auto intro!: never_intros never_lift calm)
  have "never_panics (tidb_deletes D E t docs ms n)" for t docs ms n
    by (induction ms arbitrary: n) (auto intro!: never_bind never_return docs)
  then show ?thesis unfolding tidb_Delete_def Let_def by (intro never_bind find_calm)
qed

lemma indexes_calm: "never_panics (tidb_CreateIndexes D X E db c idx)" "never_panics (tidb_ListIndexes D X E db c)"
proof -
  have row: "\<not> is_Panic (bindR (scan2 scanText scanJson row) (\<lambda>(name, rawDef).
      bindR (UnmarshalExtJSON X rawDef) (\<lambda>def. Ok (indexes @ [indexRowDoc name def]))))" for row indexes
    by (auto simp: is_Panic_bindR scans_calm json_calm)
  show "never_panics (tidb_CreateIndexes D X E db c idx)"
    unfolding tidb_CreateIndexes_def tidb_collectionID_def
    by (intro never_bind never_case_option never_fold never_lift never_return create_calm queryRow_calm scans_calm calm) simp
  show "never_panics (tidb_ListIndexes D X E db c)"
    unfolding tidb_ListIndexes_def tidb_collectionID_def
    by (intro never_bind never_case_option never_lift never_return queryRow_calm eachRow_calm scans_calm calm row)
qed

lemma collections_calm: "never_panics (tidb_ListCollections D X E db flt)" "never_panics (tidb_DropDatabase D E db)"
    "never_panics (tidb_DropCollection D E db c)"
proof -
  have row: "\<not> is_Panic (bindR (scan2 scanText scanJson row) (\<lambda>(name, rawOptions).
      bindR (UnmarshalExtJSON X rawOptions) (\<lambda>options. Ok (collections @ [\<lparr>ci_Name = name, ci_Options = options\<rparr>]))))"
    for row collections
    by (auto simp: is_Panic_bindR scans_calm json_calm)
  have shown: "\<not> is_Panic (mapR (\<lambda>table. tables @ [table]) (scan1 scanText row))" for tables and row :: "'j sqlval list"
    by (simp add: scans_calm)
  show "never_panics (tidb_ListCollections D X E db flt)" "never_panics (tidb_DropDatabase D E db)"
    "never_panics (tidb_DropCollection D E db c)"
    unfolding tidb_ListCollections_def tidb_DropDatabase_def tidb_DropCollection_def
    by (intro never_bind never_lift never_fold eachRow_calm calm row shown)+
qed

end

sublocale calm_driver \<subseteq> tidb_calm: panic_free "tidb_ops D X"
  using find_calm
  by unfold_locales
    (simp_all add: tidb_ops_def create_calm collections_calm insert_calm delete_calm indexes_calm tidb_Count_def
      never_bind never_return)

context calm_driver
begin

lemma tidb_panic_free: "panic_free (tidb_ops D X)"
  by (rule tidb_calm.panic_free_axioms)

end

interpretation ref_calm: calm_driver ref_db ref_json
  by unfold_locales
    (auto simp: ref_db_def never_panics_def ref_exec_def ref_query_def ref_tx_exec_def ref_json_def Let_def split: option.split)

section \<open>A request that panics\<close>

lemma serveOne_panics:
  assumes "requestCommand W req = Some cmd" and "is_Panic (fst (Handle ops Es cmd s))"
  shows "\<exists>p s'. serveOne W ops Es req s = (Crashed p, s')"
proof -
  obtain p s' where run: "Handle ops Es cmd s = (Panic p, s')"
    using assms(2) by (cases "Handle ops Es cmd s"; cases "fst (Handle ops Es cmd s)") auto
  show ?thesis
  proof (cases req)
    case (InMsg i msg)
    with assms(1) have "opMsgCommand W msg = Some (Ok cmd)" by (auto simp: requestCommand_def split: option.splits res.splits)
    with InMsg run show ?thesis by (simp add: serveOne_def HandleOpMsg_def bindS_lift_Ok bindS_simps orErrorReply_def)
  next
    case (InQuery i query)
    with assms(1) have "bindR (wl_QueryDeep W query) (WireDocToBSONMap W) = Ok cmd"
      by (auto simp: requestCommand_def split: res.splits)
    with InQuery run show ?thesis by (simp add: serveOne_def HandleOpQuery_def bindS_lift_Ok bindS_simps orErrorReply_def)
  qed (use assms(1) in \<open>simp add: requestCommand_def\<close>)
qed

lemma aggregate_panics:
  assumes "Name cmd = Ok (''aggregate'', GString c)" and "c \<noteq> ''''" and "map_of cmd ''$db'' = Some (GString db)" and "db \<noteq> ''''"
    and "map_of cmd ''pipeline'' = Some (GArr pipeline)" and "is_Panic (fst (op_Aggregate ops (Es 0) db c pipeline s))"
  shows "is_Panic (fst (Handle ops Es cmd s))"
proof -
  obtain p s' where run: "op_Aggregate ops (Es 0) db c pipeline s = (Panic p, s')"
    using assms(6) by (cases "op_Aggregate ops (Es 0) db c pipeline s"; cases "fst (op_Aggregate ops (Es 0) db c pipeline s)") auto
  have "dispatch ops Es cmd ''aggregate'' (GString c) = bindS (liftS (collectionArg ''aggregate'' (GString c))) (h_aggregate ops Es cmd)"
    by (rule dispatch_collection) (simp add: collectionHandlers_def)
  with assms(1-5) run show ?thesis
    by (simp add: Handle_def bindS_lift_Ok collectionArg_def h_aggregate_def requiredString_def bindS_simps)
qed

section \<open>Properties\<close>

text \<open>C32: No request can end the server unless it is an \<^verbatim>\<open>aggregate\<close>, \<^verbatim>\<open>distinct\<close>, \<^verbatim>\<open>update\<close> or \<^verbatim>\<open>findAndModify\<close>: every other
  command message gets a response to its identifier, an error when decoding or the command fails, over the in-memory
  backend and over any SQL database, if the libraries themselves do not panic.\<close>

theorem harmless_requests_are_answered:
  assumes "wire_total W" and "calm_driver D X" and "\<forall>j. req \<noteq> InOther j"
    and "\<forall>cmd name arg. requestCommand W req = Some cmd \<longrightarrow> Name cmd = Ok (name, arg) \<longrightarrow>
      name \<notin> set [''aggregate'', ''distinct'', ''update'', ''findAndModify'']"
  shows "(\<exists>header resp s'. serveOne W memory_ops Es req s = (Answer header resp, s') \<and> mh_ResponseTo header = requestID req) \<and>
    (\<exists>header resp q'. serveOne W (tidb_ops D X) Es req q = (Answer header resp, q') \<and> mh_ResponseTo header = requestID req)"
proof -
  have calm: "panic_free (tidb_ops D X)"
    using assms(2) by (rule calm_driver.tidb_panic_free)
  have "\<forall>cmd. requestCommand W req = Some cmd \<longrightarrow> never_panics (Handle memory_ops Es cmd) \<and> never_panics (Handle (tidb_ops D X) Es cmd)"
    using mem_calm.command_never_panics panic_free.command_never_panics [OF calm] assms(4) by blast
  then have "\<forall>cmd. requestCommand W req = Some cmd \<longrightarrow> \<not> is_Panic (fst (Handle memory_ops Es cmd s))"
    and "\<forall>cmd. requestCommand W req = Some cmd \<longrightarrow> \<not> is_Panic (fst (Handle (tidb_ops D X) Es cmd q))"
    unfolding never_panics_def by blast+
  from requests_are_answered [OF assms(1,3) this(1)] requests_are_answered [OF assms(1,3) this(2)] show ?thesis ..
qed

theorem harmless_requests_are_answered_witness:
  "(\<exists>header resp s'. serveOne demo_msgs memory_ops (\<lambda>_. demo_env) (InMsg 7 (''i'', ''a'')) NewStore = (Answer header resp, s') \<and>
      mh_ResponseTo header = 7) \<and>
    (\<exists>header resp q'. serveOne demo_msgs (tidb_ops ref_db ref_json) (\<lambda>_. demo_env) (InMsg 7 (''i'', ''a'')) emptyDb = (Answer header resp, q') \<and>
      mh_ResponseTo header = 7)"
proof -
  have "wire_total demo_msgs"
    by (auto simp: wire_total_def sizes_fit_def demo_msgs_def demo_wire_def responseOpMsg_def responseOpReply_def
      responseDoc_def Suc_le_eq split: if_splits)
  moreover have "name = ''insert''"
    if "Name [(''insert'', GString ''c''), (''$db'', GString ''db''), (''documents'', GArr [GDoc [(''_id'', GString ''a'')]])] = Ok (name, arg)"
    for name arg
    using that by (simp add: Name_def knownNames_def)
  then have "\<forall>cmd name arg. requestCommand demo_msgs (InMsg 7 (''i'', ''a'')) = Some cmd \<longrightarrow> Name cmd = Ok (name, arg) \<longrightarrow>
      name \<notin> set [''aggregate'', ''distinct'', ''update'', ''findAndModify'']"
    unfolding demo_insert_command by auto
  ultimately show ?thesis
    using harmless_requests_are_answered [of demo_msgs ref_db ref_json "InMsg 7 (''i'', ''a'')" "\<lambda>_. demo_env" NewStore emptyDb,
      OF _ ref_calm.calm_driver_axioms, unfolded requestID.simps] by simp
qed

text \<open>C33: One request with a negative \<^verbatim>\<open>$limit\<close> ends the whole server, on any contents of either backend, over TiDB whenever the
  find that the aggregation starts with succeeds: nothing is answered, and the requests after it are never read.\<close>

theorem one_request_ends_the_server:
  assumes "requestCommand W req = Some cmd" and "Name cmd = Ok (''aggregate'', GString c)" and "c \<noteq> ''''"
    and "map_of cmd ''$db'' = Some (GString db)" and "db \<noteq> ''''"
    and "map_of cmd ''pipeline'' = Some (GArr [GDoc [(''$limit'', GInt32 n)]])" and "sint n < 0"
  shows "(\<exists>p s'. serveConn W memory_ops Envs written i (req # reqs) s = (([], Crashed p), s')) \<and>
    (is_Ok (fst (tidb_Find D X (Envs i 0) db c (filterRequest []) q)) \<longrightarrow>
      (\<exists>p q'. serveConn W (tidb_ops D X) Envs written i (req # reqs) q = (([], Crashed p), q')))"
proof -
  note limit = negative_limit_crashes [OF assms(7), THEN conjunct1]
  note panics = aggregate_panics [OF assms(2-6)]
  have mem: "is_Panic (fst (mem_Aggregate E db c [GDoc [(''$limit'', GInt32 n)]] s))" for E
    using limit by (simp add: mem_Aggregate_def mem_Find_def Let_def bindS_def liftS_def split: option.split)
  then have "is_Panic (fst (Handle memory_ops (Envs i) cmd s))" by (intro panics) (simp add: memory_ops_def)
  from serveOne_panics [OF assms(1) this] have 1: "\<exists>p s'. serveConn W memory_ops Envs written i (req # reqs) s = (([], Crashed p), s')"
    by auto
  have "\<exists>p q'. serveConn W (tidb_ops D X) Envs written i (req # reqs) q = (([], Crashed p), q')"
    if found: "is_Ok (fst (tidb_Find D X (Envs i 0) db c (filterRequest []) q))"
  proof -
    obtain docs q1 where "tidb_Find D X (Envs i 0) db c (filterRequest []) q = (Ok docs, q1)"
      using found by (metis is_Ok_iff prod.collapse)
    then have "is_Panic (fst (tidb_Aggregate D X (Envs i 0) db c [GDoc [(''$limit'', GInt32 n)]] q))"
      using limit by (simp add: tidb_Aggregate_def bindS_simps liftS_def)
    then have "is_Panic (fst (Handle (tidb_ops D X) (Envs i) cmd q))" by (intro panics) (simp add: tidb_ops_def)
    from serveOne_panics [OF assms(1) this] show ?thesis by auto
  qed
  with 1 show ?thesis by blast
qed

theorem one_request_ends_the_server_witness:
  "let W = demo_msgs\<lparr>wl_Unmarshal := (\<lambda>_. Ok [(''aggregate'', GString ''c''),
      (''pipeline'', GArr [GDoc [(''$limit'', GInt32 (- 1))]]), (''$db'', GString ''db'')])\<rparr>
   in \<exists>p s'. serveConn W memory_ops (\<lambda>_ _. demo_env) (\<lambda>_. True) 0 [InMsg 7 (''x'', []), InMsg 8 (''x'', [])] NewStore = (([], Crashed p), s')"
proof -
  let ?cmd = "[(''aggregate'', GString ''c''), (''pipeline'', GArr [GDoc [(''$limit'', GInt32 (- 1))]]), (''$db'', GString ''db'')]"
  let ?W = "demo_msgs\<lparr>wl_Unmarshal := (\<lambda>_. Ok ?cmd)\<rparr>"
  have "requestCommand ?W (InMsg 7 (''x'', [])) = Some ?cmd"
    by (simp add: requestCommand_def opMsgCommand_def demo_msgs_def demo_wire_def rawDocumentToBSONMap_def)
  moreover have "Name ?cmd = Ok (''aggregate'', GString ''c'')" by (simp add: Name_def knownNames_def)
  ultimately show ?thesis
    using one_request_ends_the_server [of ?W "InMsg 7 (''x'', [])" ?cmd "''c''" "''db''" "- 1", THEN conjunct1]
    unfolding Let_def by (simp del: serveConn.simps)
qed

end
