(* ===== verification/Go_Os.thy ===== *)
theory Go_Os
  imports Timongo_Prelude
begin

text \<open>
  What the command line uses of the standard library: \<^verbatim>\<open>flag\<close> for flags with string values,
  \<^verbatim>\<open>path/filepath\<close> and the files of \<^verbatim>\<open>os\<close>. Nothing here stands for a file under \<^verbatim>\<open>src/\<close>.
\<close>

section \<open>Flags\<close>

text \<open>A part of the program that may end the process with an exit code.\<close>

datatype 'a process = Returned 'a | Exited nat

text \<open>
  \<^verbatim>\<open>FlagSet.Parse\<close> with \<^verbatim>\<open>ExitOnError\<close>: the values of the flags that are set, the last one of each. Parsing stops
  at the first argument that is not a flag, or after \<^verbatim>\<open>--\<close>; asking for help ends the process with code 0,
  an error with code 2.
\<close>

fun parseFlags :: "string list \<Rightarrow> string list \<Rightarrow> (string \<times> string) list \<Rightarrow> (string \<times> string) list process" where
  "parseFlags formal [] actual = Returned actual"
| "parseFlags formal (s # args) actual =
     (if length s < 2 \<or> hd s \<noteq> CHR ''-'' then Returned actual
      else if s = ''--'' then Returned actual
      else
        (let name = (if s ! 1 = CHR ''-'' then drop 2 s else drop 1 s) in
         if hd name = CHR ''-'' \<or> hd name = CHR ''='' then Exited 2
         else
           (case cut_on CHR ''='' name of
              Some (name, v) \<Rightarrow>
                if name \<in> set formal then parseFlags formal args (put name v actual)
                else Exited (if name = ''help'' \<or> name = ''h'' then 0 else 2)
            | None \<Rightarrow>
                if name \<in> set formal then
                  (case args of [] \<Rightarrow> Exited 2 | v # args' \<Rightarrow> parseFlags formal args' (put name v actual))
                else Exited (if name = ''help'' \<or> name = ''h'' then 0 else 2))))"

declare parseFlags.simps [simp del]

text \<open>The variable of a flag after parsing.\<close>

definition flagVar :: "(string \<times> string) list \<Rightarrow> string \<Rightarrow> string \<Rightarrow> string" where
  "flagVar actual name dflt = (case map_of actual name of Some v \<Rightarrow> v | None \<Rightarrow> dflt)"

section \<open>Paths\<close>

text \<open>\<^verbatim>\<open>filepath.Clean\<close> on the components of a path, kept in reverse.\<close>

fun cleanStep :: "bool \<Rightarrow> string \<Rightarrow> string list \<Rightarrow> string list" where
  "cleanStep rooted c stack =
     (if c = '''' \<or> c = ''.'' then stack
      else if c = ''..'' then
        (case stack of
           [] \<Rightarrow> if rooted then [] else [c]
         | c' # below \<Rightarrow> if c' = ''..'' then c # stack else below)
      else c # stack)"

fun joinWith :: "string \<Rightarrow> string list \<Rightarrow> string" where
  "joinWith sep [] = ''''"
| "joinWith sep [c] = c"
| "joinWith sep (c # cs) = c @ sep @ joinWith sep cs"

definition showPath :: "bool \<Rightarrow> string list \<Rightarrow> string" where
  "showPath rooted comps =
     (if rooted then ''/'' @ joinWith ''/'' comps else if comps = [] then ''.'' else joinWith ''/'' comps)"

definition pathComps :: "string \<Rightarrow> string list" where
  "pathComps p = rev (fold (cleanStep (starts_with ''/'' p)) (split_on CHR ''/'' p) [])"

definition pathClean :: "string \<Rightarrow> string" where
  "pathClean p = (if p = '''' then ''.'' else showPath (starts_with ''/'' p) (pathComps p))"

definition pathJoin :: "string list \<Rightarrow> string" where
  "pathJoin elems =
     (case dropWhile (\<lambda>e. e = '''') elems of [] \<Rightarrow> '''' | es \<Rightarrow> pathClean (joinWith ''/'' es))"

section \<open>Files\<close>

text \<open>
  The contents of the files by their paths. \<open>fault\<close> gives the error of every access that the operating
  system refuses.
\<close>

type_synonym files = "(string \<times> string) list"

definition osReadFile :: "(string \<Rightarrow> goerr option) \<Rightarrow> string \<Rightarrow> (files, string) action" where
  "osReadFile fault path fs =
     (case fault path of
        Some e \<Rightarrow> Err e
      | None \<Rightarrow>
          (case map_of fs path of
             Some content \<Rightarrow> Ok content
           | None \<Rightarrow> Err (PlainError (''open '' @ path @ '': no such file or directory''))), fs)"

definition osWriteFile :: "(string \<Rightarrow> goerr option) \<Rightarrow> string \<Rightarrow> string \<Rightarrow> (files, unit) action" where
  "osWriteFile fault path content fs =
     (case fault path of Some e \<Rightarrow> (Err e, fs) | None \<Rightarrow> (Ok (), put path content fs))"

text \<open>Directories hold nothing of their own.\<close>

definition osMkdirAll :: "(string \<Rightarrow> goerr option) \<Rightarrow> string \<Rightarrow> (files, unit) action" where
  "osMkdirAll fault path fs = (case fault path of Some e \<Rightarrow> (Err e, fs) | None \<Rightarrow> (Ok (), fs))"

section \<open>Lemmas\<close>

lemma osWriteFile_Ok: "osWriteFile fault path content fs = (Ok (), fs') \<longleftrightarrow> fault path = None \<and> fs' = put path content fs"
  by (auto simp: osWriteFile_def split: option.splits)

lemma osMkdirAll_Ok: "osMkdirAll fault path fs = (Ok (), fs') \<longleftrightarrow> fault path = None \<and> fs' = fs"
  by (auto simp: osMkdirAll_def split: option.splits)

lemma osReadFile_Ok:
  "osReadFile fault path fs = (Ok content, fs') \<longleftrightarrow> fault path = None \<and> map_of fs path = Some content \<and> fs' = fs"
  by (auto simp: osReadFile_def split: option.splits)

lemmas os_Ok = osWriteFile_Ok osMkdirAll_Ok osReadFile_Ok

text \<open>A flag and its value as one argument, \<^verbatim>\<open>-name=value\<close>, or as two.\<close>

lemma parseFlags_two:
  assumes "name \<in> set formal" and "name \<noteq> ''''" and "CHR ''='' \<notin> set name" and "hd name \<noteq> CHR ''-''"
  shows "parseFlags formal ((CHR ''-'' # name) # v # args) actual = parseFlags formal args (put name v actual)"
proof -
  have "hd name \<noteq> CHR ''=''" using assms(2,3) by (cases name) auto
  moreover have "cut_on CHR ''='' name = None" using assms(3) by (simp add: cut_on_None)
  ultimately show ?thesis using assms by (cases name) (auto simp: Let_def parseFlags.simps)
qed

lemma parseFlags_one:
  assumes "name \<in> set formal" and "name \<noteq> ''''" and "CHR ''='' \<notin> set name" and "hd name \<noteq> CHR ''-''"
  shows "parseFlags formal ((CHR ''-'' # name @ CHR ''='' # v) # args) actual = parseFlags formal args (put name v actual)"
proof -
  have "hd name \<noteq> CHR ''=''" using assms(2,3) by (cases name) auto
  moreover have "cut_on CHR ''='' (name @ CHR ''='' # v) = Some (name, v)" using assms(3) by (simp add: cut_on_Some)
  ultimately show ?thesis using assms by (cases name) (auto simp: Let_def parseFlags.simps)
qed

section \<open>Paths of plain names\<close>

text \<open>A name of a file or a directory, without a separator and other than those with a meaning of their own.\<close>

definition plainName :: "string \<Rightarrow> bool" where
  "plainName c \<longleftrightarrow> CHR ''/'' \<notin> set c \<and> c \<notin> {'''', ''.'', ''..''}"

lemma joinWith_snoc: "cs \<noteq> [] \<Longrightarrow> joinWith sep (cs @ [c]) = joinWith sep cs @ sep @ c"
  by (induction sep cs rule: joinWith.induct) auto

lemma pathComps_snoc:
  assumes "plainName c" and "p \<noteq> ''''"
  shows "pathComps (p @ ''/'' @ c) = pathComps p @ [c]"
proof -
  have "starts_with ''/'' (p @ ''/'' @ c) = starts_with ''/'' p"
    using assms(2) by (cases p) simp_all
  with assms(1) show ?thesis
    by (simp add: pathComps_def split_on_append split_on_single plainName_def)
qed

lemma pathJoin_snoc:
  assumes "plainName c" and "p \<noteq> ''''"
  obtains rooted where "pathJoin [p, c] = showPath rooted (pathComps p @ [c])"
  using assms by (auto simp: pathJoin_def pathClean_def pathComps_snoc [simplified])

text \<open>The last names of a path can be read off.\<close>

lemma split_showPath:
  assumes "plainName c"
  shows "\<exists>ps. split_on CHR ''/'' (showPath rooted (cs @ [c])) = ps @ [c]"
proof -
  have single: "split_on CHR ''/'' c = [c]" using assms by (simp add: split_on_single plainName_def)
  have root: "split_on CHR ''/'' (''/'' @ s) = [[]] @ split_on CHR ''/'' s" for s by simp
  have "\<exists>ps. split_on CHR ''/'' (joinWith ''/'' (cs @ [c])) = ps @ [c]"
    by (cases "cs = []") (simp_all add: single joinWith_snoc split_on_append [simplified])
  then show ?thesis by (auto simp: showPath_def)
qed

lemma split_showPath_two:
  assumes "plainName c" and "plainName c'"
  shows "\<exists>ps. split_on CHR ''/'' (showPath rooted (cs @ [c] @ [c'])) = ps @ [c, c']"
proof -
  have single: "split_on CHR ''/'' c' = [c']" using assms(2) by (simp add: split_on_single plainName_def)
  have "showPath rooted ((cs @ [c]) @ [c']) = showPath rooted (cs @ [c]) @ CHR ''/'' # c'"
    using joinWith_snoc [of "cs @ [c]" "''/''" c'] by (simp add: showPath_def)
  with split_showPath [OF assms(1), of rooted cs] single show ?thesis by (auto simp: split_on_append)
qed

lemma last_pathComps:
  assumes "split_on CHR ''/'' p = ps @ [c]" and "plainName c"
  shows "\<exists>ds. pathComps p = ds @ [c]"
  using assms by (auto simp: pathComps_def plainName_def)

text \<open>A file in a directory: its path determines the name of the directory and its own.\<close>

lemma pathJoin_dir:
  assumes "plainName c" and "p \<noteq> ''''"
  shows "\<exists>ps. split_on CHR ''/'' (pathJoin [p, c]) = ps @ [c]"
  using assms split_showPath by (metis pathJoin_snoc)

lemma pathJoin_file:
  assumes "plainName c" and "plainName c'" and "p \<noteq> ''''"
  shows "\<exists>ps. split_on CHR ''/'' (pathJoin [pathJoin [p, c], c']) = ps @ [c, c']"
proof -
  from pathJoin_dir [OF assms(1,3)] obtain ps where ps: "split_on CHR ''/'' (pathJoin [p, c]) = ps @ [c]" ..
  have "c \<noteq> ''''" using assms(1) by (simp add: plainName_def)
  with ps have "pathJoin [p, c] \<noteq> ''''" by (cases ps) auto
  then obtain rooted where "pathJoin [pathJoin [p, c], c'] = showPath rooted (pathComps (pathJoin [p, c]) @ [c'])"
    by (rule pathJoin_snoc [OF assms(2)])
  with last_pathComps [OF ps assms(1)] split_showPath_two [OF assms(1,2)] show ?thesis by auto
qed

end
