(* ===== verification/Tiup_Topology.thy ===== *)
theory Tiup_Topology
  imports Timongo_Prelude
begin

text \<open>
  \<^verbatim>\<open>internal/tiup/topology.go\<close>: the sections of a TiUP topology that concern timongo, their validation,
  and the split of a topology file into the part for \<^verbatim>\<open>tiup cluster\<close> and the part for timongo. The YAML
  library is the parameter \<open>yamllib\<close>; its node is the datatype \<open>ynode\<close>. The lemmas show that the split
  distributes the entries of the root mapping unchanged and in order.
\<close>

section \<open>Topologies\<close>

record Global =
  gl_User :: string
  gl_DeployDir :: string
  gl_DataDir :: string

record TimongoConfig =
  tmc_CompatVersion :: string
  tmc_Stateless :: bool
  tmc_CursorTTL :: string
  tmc_SessionTTL :: string
  tmc_TransactionTimeout :: string
  tmc_MaxConnections :: "64 word"
  tmc_TiDBMaxOpenConns :: "64 word"

record TimongoServer =
  ts_Host :: string
  ts_Port :: "64 word"
  ts_StatusPort :: "64 word"
  ts_DeployDir :: string
  ts_LogDir :: string
  ts_TiDBHost :: string
  ts_TiDBPort :: "64 word"
  ts_Config :: TimongoConfig

record TimongoLBServer =
  lb_Host :: string
  lb_Port :: "64 word"
  lb_StatusPort :: "64 word"
  lb_Balance :: string
  lb_BackendRole :: string

record Topology =
  tp_Global :: Global
  tp_TimongoServers :: "TimongoServer list"
  tp_TimongoLBServers :: "TimongoLBServer list"

section \<open>YAML\<close>

text \<open>
  \<^verbatim>\<open>yaml.Node\<close>, with the fields that the program or the lemmas read; \<open>'a\<close> is everything else it holds
  (style, tag, comments, position, the target of an alias), which is only copied. The value of an alias
  node is the name of the anchor it refers to.
\<close>

datatype ykind = DocumentNode | SequenceNode | MappingNode | ScalarNode | AliasNode

datatype 'a ynode =
  YNode (yn_Kind: ykind) (yn_Value: string) (yn_Anchor: string) (yn_rest: 'a) (yn_Content: "'a ynode list")

text \<open>Decoding into a node, decoding into a \<^verbatim>\<open>Topology\<close>, encoding a node, and the zero value of the other fields.\<close>

record 'a yamllib =
  yl_Node :: "string \<Rightarrow> 'a ynode res"
  yl_Topology :: "string \<Rightarrow> Topology res"
  yl_Marshal :: "'a ynode \<Rightarrow> string res"
  yl_zero :: 'a

section \<open>Validation\<close>

definition required :: "nat \<Rightarrow> string \<Rightarrow> goerr" where
  "required i name = PlainError (''timongo_servers['' @ dec_nat i @ ''].'' @ name @ '' is required'')"

fun checkServers :: "nat \<Rightarrow> TimongoServer list \<Rightarrow> unit res" where
  "checkServers i [] = Ok ()"
| "checkServers i (server # servers) =
     (if ts_Host server = '''' then Err (required i ''host'')
      else if ts_Port server = 0 then Err (required i ''port'')
      else if ts_StatusPort server = 0 then Err (required i ''status_port'')
      else if ts_TiDBHost server = '''' then Err (required i ''tidb_host'')
      else if ts_TiDBPort server = 0 then Err (required i ''tidb_port'')
      else checkServers (Suc i) servers)"

definition ParseTopology :: "'a yamllib \<Rightarrow> string \<Rightarrow> Topology res" where
  "ParseTopology Y raw =
     bindR (yl_Topology Y raw) (\<lambda>topo. mapR (\<lambda>_. topo) (checkServers 0 (tp_TimongoServers topo)))"

section \<open>Splitting\<close>

definition timongoSectionNames :: "string list" where
  "timongoSectionNames = [''timongo_servers'', ''timongo_lb_servers'']"

fun cloneNode :: "'a ynode \<Rightarrow> 'a ynode" where
  "cloneNode (YNode kind v anchor rest content) = YNode kind v anchor rest (map cloneNode content)"

text \<open>The loop over the contents of the root mapping, which alternate keys and values.\<close>

fun splitEntries :: "'a ynode list \<Rightarrow> 'a ynode list \<Rightarrow> 'a ynode list \<Rightarrow> ('a ynode list \<times> 'a ynode list) res" where
  "splitEntries [] tidb timongo = Ok (tidb, timongo)"
| "splitEntries [_] tidb timongo = Panic ''runtime error: index out of range''"
| "splitEntries (key # v # content) tidb timongo =
     (if yn_Value key \<in> set timongoSectionNames
        then splitEntries content tidb (timongo @ [cloneNode key, cloneNode v])
      else
        splitEntries content (tidb @ [cloneNode key, cloneNode v])
          (if yn_Value key = ''global'' then timongo @ [cloneNode key, cloneNode v] else timongo))"

definition mapping :: "'a yamllib \<Rightarrow> 'a ynode list \<Rightarrow> 'a ynode" where
  "mapping Y content = YNode MappingNode '''' '''' (yl_zero Y) content"

definition splitDoc :: "'a yamllib \<Rightarrow> 'a ynode \<Rightarrow> ('a ynode \<times> 'a ynode) res" where
  "splitDoc Y doc =
     mapR (\<lambda>(tidb, timongo). (mapping Y tidb, mapping Y timongo)) (splitEntries (yn_Content doc) [] [])"

definition SplitTopology :: "'a yamllib \<Rightarrow> string \<Rightarrow> (string \<times> string) res" where
  "SplitTopology Y raw =
     bindR (yl_Node Y raw) (\<lambda>root.
     case yn_Content root of
       [] \<Rightarrow> Ok (raw, ''{}'' @ [CHR 0x0A])
     | doc # _ \<Rightarrow>
         if yn_Kind doc \<noteq> MappingNode then Err (PlainError ''topology root must be a YAML mapping'')
         else
           bindR (splitDoc Y doc) (\<lambda>(tidbDoc, timongoDoc).
           bindR (yl_Marshal Y tidbDoc) (\<lambda>tidbRaw.
           bindR (yl_Marshal Y timongoDoc) (\<lambda>timongoRaw.
           Ok (tidbRaw, timongoRaw)))))"

section \<open>Lemmas\<close>

lemma cloneNode_id [simp]: "cloneNode n = n"
  by (induction n) (simp add: map_idI)

definition bound :: "TimongoServer \<Rightarrow> bool" where
  "bound server \<longleftrightarrow>
     ts_Host server \<noteq> '''' \<and> ts_Port server \<noteq> 0 \<and> ts_StatusPort server \<noteq> 0 \<and> ts_TiDBHost server \<noteq> '''' \<and>
     ts_TiDBPort server \<noteq> 0"

lemma checkServers_Ok: "checkServers i servers = Ok () \<longleftrightarrow> (\<forall>server \<in> set servers. bound server)"
  by (induction i servers rule: checkServers.induct) (auto simp: bound_def)

lemma checkServers_Err:
  "checkServers i servers = Err e \<Longrightarrow>
     \<exists>pre server post name. servers = pre @ server # post \<and> (\<forall>s \<in> set pre. bound s) \<and> \<not> bound server \<and>
       e = required (i + length pre) name"
proof (induction i servers rule: checkServers.induct)
  case (2 i server servers)
  show ?case
  proof (cases "bound server")
    case True
    with "2.prems" have "checkServers (Suc i) servers = Err e" by (simp add: bound_def)
    with "2.IH" True obtain pre s post name where "servers = pre @ s # post" "\<forall>s \<in> set pre. bound s" "\<not> bound s"
      "e = required (Suc i + length pre) name" by (auto simp: bound_def)
    with True show ?thesis by (intro exI [of _ "server # pre"] exI [of _ s] exI [of _ post] exI [of _ name]) auto
  next
    case False
    with "2.prems" have "\<exists>name. e = required i name" by (auto simp: bound_def split: if_splits)
    with False show ?thesis by (intro exI [of _ "[]"]) auto
  qed
qed simp

lemma checkServers_no_panic: "checkServers i servers \<noteq> Panic p"
  by (induction i servers rule: checkServers.induct) auto

text \<open>The contents of a mapping as its entries.\<close>

fun contents :: "('a ynode \<times> 'a ynode) list \<Rightarrow> 'a ynode list" where
  "contents [] = []"
| "contents ((key, v) # es) = key # v # contents es"

lemma contents_append: "contents (es @ fs) = contents es @ contents fs"
  by (induction es rule: contents.induct) auto

definition timongoEntry :: "'a ynode \<times> 'a ynode \<Rightarrow> bool" where
  "timongoEntry e \<longleftrightarrow> yn_Value (fst e) \<in> set timongoSectionNames"

definition globalEntry :: "'a ynode \<times> 'a ynode \<Rightarrow> bool" where
  "globalEntry e \<longleftrightarrow> yn_Value (fst e) = ''global''"

lemma global_not_timongo: "globalEntry e \<Longrightarrow> \<not> timongoEntry e"
  by (simp add: globalEntry_def timongoEntry_def timongoSectionNames_def)

lemma splitEntries_contents:
  "splitEntries (contents es) tidb timongo =
     Ok (tidb @ contents (filter (\<lambda>e. \<not> timongoEntry e) es),
         timongo @ contents (filter (\<lambda>e. timongoEntry e \<or> globalEntry e) es))"
  by (induction es arbitrary: tidb timongo rule: contents.induct)
    (auto simp: timongoEntry_def globalEntry_def timongoSectionNames_def)

lemma splitDoc_contents:
  "yn_Content doc = contents es \<Longrightarrow> splitDoc Y doc =
     Ok (mapping Y (contents (filter (\<lambda>e. \<not> timongoEntry e) es)),
         mapping Y (contents (filter (\<lambda>e. timongoEntry e \<or> globalEntry e) es)))"
  by (simp add: splitDoc_def splitEntries_contents)

text \<open>The anchors a tree defines and those its aliases refer to.\<close>

fun anchors :: "'a ynode \<Rightarrow> string list" where
  "anchors (YNode kind v anchor rest content) =
     (if anchor = '''' then [] else [anchor]) @ concat (map anchors content)"

fun aliases :: "'a ynode \<Rightarrow> string list" where
  "aliases (YNode kind v anchor rest content) =
     (if kind = AliasNode then [v] else []) @ concat (map aliases content)"

definition closed_tree :: "'a ynode \<Rightarrow> bool" where
  "closed_tree n \<longleftrightarrow> set (aliases n) \<subseteq> set (anchors n)"

section \<open>Properties\<close>

text \<open>C36: Splitting a topology gives every entry of the root mapping, unchanged and in the order of the file, to exactly
  one of the two parts, the timongo sections to the second and the others to the first; only
  \<^verbatim>\<open>global\<close> is in both.\<close>

theorem split_distributes_sections:
  assumes "yl_Node Y raw = Ok root" and "yn_Content root = doc # others" and "yn_Kind doc = MappingNode"
    and "yn_Content doc = contents es"
    and "yl_Marshal Y (mapping Y (contents (filter (\<lambda>e. \<not> timongoEntry e) es))) = Ok tidbRaw"
    and "yl_Marshal Y (mapping Y (contents (filter (\<lambda>e. timongoEntry e \<or> globalEntry e) es))) = Ok timongoRaw"
  shows "SplitTopology Y raw = Ok (tidbRaw, timongoRaw)"
  using assms by (simp add: SplitTopology_def splitDoc_contents)

definition scalar :: "string \<Rightarrow> unit ynode" where
  "scalar v = YNode ScalarNode v '''' () []"

definition demo_entries :: "(unit ynode \<times> unit ynode) list" where
  "demo_entries =
     [(scalar ''global'', scalar ''g''), (scalar ''tidb_servers'', YNode AliasNode ''h'' '''' () []),
      (scalar ''timongo_servers'', YNode ScalarNode ''x'' ''h'' () [])]"

definition demo_yaml :: "unit yamllib" where
  "demo_yaml =
     \<lparr>yl_Node = (\<lambda>_. Ok (YNode DocumentNode '''' '''' () [YNode MappingNode '''' '''' () (contents demo_entries)])),
      yl_Topology = (\<lambda>_. Err (PlainError '''')), yl_Marshal = (\<lambda>n. Ok (concat (map yn_Value (yn_Content n)))), yl_zero = ()\<rparr>"

theorem split_distributes_sections_witness:
  "SplitTopology demo_yaml ''t'' = Ok (''globalgtidb_serversh'', ''globalgtimongo_serversx'')"
  by (rule split_distributes_sections [where es = demo_entries and others = "[]"
        and doc = "YNode MappingNode '''' '''' () (contents demo_entries)"
        and root = "YNode DocumentNode '''' '''' () [YNode MappingNode '''' '''' () (contents demo_entries)]"])
    (simp_all add: demo_yaml_def demo_entries_def scalar_def mapping_def timongoEntry_def globalEntry_def timongoSectionNames_def)

text \<open>C37: A topology is accepted exactly when every timongo server names its host, both ports and its TiDB server;
  otherwise the error names the first server that does not.\<close>

theorem ParseTopology_accepts_iff:
  assumes "yl_Topology Y raw = Ok topo"
  shows "(ParseTopology Y raw = Ok topo \<longleftrightarrow> (\<forall>server \<in> set (tp_TimongoServers topo). bound server)) \<and>
    (\<forall>e. ParseTopology Y raw = Err e \<longrightarrow>
      (\<exists>pre server post name. tp_TimongoServers topo = pre @ server # post \<and> (\<forall>s \<in> set pre. bound s) \<and>
        \<not> bound server \<and> e = required (length pre) name))"
proof -
  have "ParseTopology Y raw = mapR (\<lambda>_. topo) (checkServers 0 (tp_TimongoServers topo))"
    using assms by (simp add: ParseTopology_def)
  moreover have "mapR (\<lambda>_. topo) r = Ok topo \<longleftrightarrow> r = Ok ()" and "mapR (\<lambda>_. topo) r = Err e \<longleftrightarrow> r = Err e"
    for r :: "unit res" and e
    by (cases r; simp)+
  ultimately show ?thesis using checkServers_Ok checkServers_Err [of 0 "tp_TimongoServers topo"] by simp
qed

definition demo_server :: TimongoServer where
  "demo_server =
     \<lparr>ts_Host = ''10.0.1.10'', ts_Port = 27017, ts_StatusPort = 28017, ts_DeployDir = '''', ts_LogDir = '''',
      ts_TiDBHost = ''10.0.1.20'', ts_TiDBPort = 4000,
      ts_Config = \<lparr>tmc_CompatVersion = '''', tmc_Stateless = False, tmc_CursorTTL = '''', tmc_SessionTTL = '''',
        tmc_TransactionTimeout = '''', tmc_MaxConnections = 0, tmc_TiDBMaxOpenConns = 0\<rparr>\<rparr>"

definition demo_topology :: Topology where
  "demo_topology =
     \<lparr>tp_Global = \<lparr>gl_User = '''', gl_DeployDir = '''', gl_DataDir = ''''\<rparr>, tp_TimongoServers = [demo_server], tp_TimongoLBServers = []\<rparr>"

theorem ParseTopology_accepts_iff_witness:
  "let Y = demo_yaml\<lparr>yl_Topology := (\<lambda>_. Ok demo_topology)\<rparr>;
       unbound = demo_topology\<lparr>tp_TimongoServers := [demo_server, demo_server\<lparr>ts_TiDBPort := 0\<rparr>]\<rparr>;
       Y' = demo_yaml\<lparr>yl_Topology := (\<lambda>_. Ok unbound)\<rparr>
   in ParseTopology Y ''t'' = Ok demo_topology \<and> ParseTopology Y' ''t'' \<noteq> Ok unbound"
  using ParseTopology_accepts_iff [where raw = "''t''" and topo = demo_topology and Y = "demo_yaml\<lparr>yl_Topology := (\<lambda>_. Ok demo_topology)\<rparr>"]
    ParseTopology_accepts_iff [where raw = "''t''"
      and topo = "demo_topology\<lparr>tp_TimongoServers := [demo_server, demo_server\<lparr>ts_TiDBPort := 0\<rparr>]\<rparr>"
      and Y = "demo_yaml\<lparr>yl_Topology := (\<lambda>_. Ok (demo_topology\<lparr>tp_TimongoServers := [demo_server, demo_server\<lparr>ts_TiDBPort := 0\<rparr>]\<rparr>))\<rparr>"]
  by (simp add: demo_topology_def demo_server_def bound_def)

text \<open>An alias may lose its anchor: a file in which every alias has one is split into a part for \<^verbatim>\<open>tiup cluster\<close>
  that refers to an anchor it does not define.\<close>

theorem split_loses_anchors:
  "let doc = YNode MappingNode '''' '''' () (contents demo_entries) in
     closed_tree doc \<and> (\<exists>tidbDoc timongoDoc. splitDoc demo_yaml doc = Ok (tidbDoc, timongoDoc) \<and> \<not> closed_tree tidbDoc)"
  by (simp add: splitDoc_contents)
    (simp add: closed_tree_def demo_entries_def scalar_def mapping_def timongoEntry_def globalEntry_def timongoSectionNames_def)

end
