(* ===== verification/Config_File.thy ===== *)
theory Config_File
  imports Timongo_Prelude
begin

text \<open>
  \<^verbatim>\<open>internal/config/config.go\<close> and \<^verbatim>\<open>internal/config/file.go\<close>: the settings of the server, their
  defaults, and the configuration file. Reading a file and decoding TOML are the parameters
  \<open>configlib\<close>; \<^verbatim>\<open>url.QueryEscape\<close> is written out. The lemmas show that escaping can be undone and leaves
  none of the characters that separate the parts of a data source name, so that a name determines
  its parts.
\<close>

section \<open>Settings\<close>

text \<open>\<open>cfg_Timeout\<close> is a \<^verbatim>\<open>time.Duration\<close>, in nanoseconds.\<close>

record Config =
  cfg_ListenAddr :: string
  cfg_StatusAddr :: string
  cfg_Backend :: string
  cfg_TiDBDSN :: string
  cfg_CompatVersion :: string
  cfg_Timeout :: "64 word"

definition BackendTiDB :: string where
  "BackendTiDB = ''tidb''"

definition Default :: Config where
  "Default =
     \<lparr>cfg_ListenAddr = ''127.0.0.1:27017'', cfg_StatusAddr = ''127.0.0.1:28017'', cfg_Backend = BackendTiDB,
      cfg_TiDBDSN = '''', cfg_CompatVersion = ''6.0'', cfg_Timeout = 30 * 1000000000\<rparr>"

section \<open>The file\<close>

record mongoConfig =
  mc_ListenAddr :: string
  mc_CompatVersion :: string

record statusConfig =
  sc_ListenAddr :: string

record tiDBConfig =
  tc_Host :: string
  tc_Port :: "64 word"
  tc_Database :: string
  tc_User :: string
  tc_Password :: string
  tc_DSN :: string
  tc_MaxOpenConns :: "64 word"

record runtimeConfig =
  rc_Stateless :: "bool option"
  rc_CursorTTL :: string
  rc_SessionTTL :: string
  rc_TransactionTimeout :: string

record fileConfig =
  fc_Mongo :: mongoConfig
  fc_Status :: statusConfig
  fc_TiDB :: tiDBConfig
  fc_Runtime :: runtimeConfig

text \<open>\<^verbatim>\<open>os.ReadFile\<close> and \<^verbatim>\<open>toml.Unmarshal\<close> into a \<^verbatim>\<open>fileConfig\<close>.\<close>

record configlib =
  cl_ReadFile :: "string \<Rightarrow> string res"
  cl_Toml :: "string \<Rightarrow> fileConfig res"

section \<open>Data source names\<close>

text \<open>\<^verbatim>\<open>url.QueryEscape\<close>: letters, digits and \<^verbatim>\<open>-_.~\<close> stay, a space becomes a plus, any other byte its code.\<close>

definition unreserved :: "char \<Rightarrow> bool" where
  "unreserved c \<longleftrightarrow>
     between CHR ''a'' CHR ''z'' c \<or> between CHR ''A'' CHR ''Z'' c \<or> between CHR ''0'' CHR ''9'' c \<or>
     c \<in> set ''-_.~''"

definition hexDigit :: "nat \<Rightarrow> char" where
  "hexDigit n = ''0123456789ABCDEF'' ! (n mod 16)"

definition escapeByte :: "char \<Rightarrow> string" where
  "escapeByte c =
     (if unreserved c then [c]
      else if c = CHR '' '' then ''+''
      else [CHR ''%'', hexDigit (of_char c div 16), hexDigit (of_char c)])"

definition QueryEscape :: "string \<Rightarrow> string" where
  "QueryEscape s = concat (map escapeByte s)"

text \<open>The data source name; \<open>Ok []\<close> when the file has no database section.\<close>

definition dsnAuth :: "string \<Rightarrow> string \<Rightarrow> string" where
  "dsnAuth user password = user @ (if password \<noteq> '''' then '':'' @ QueryEscape password else '''')"

definition buildTiDBDSN :: "tiDBConfig \<Rightarrow> string res" where
  "buildTiDBDSN cfg =
     (if tc_DSN cfg \<noteq> '''' then Ok (tc_DSN cfg)
      else if tc_Host cfg = '''' \<and> tc_Port cfg = 0 then Ok ''''
      else if tc_Host cfg = '''' then Err (PlainError ''tidb.host is required when tidb config is provided'')
      else if tc_Port cfg = 0 then Err (PlainError ''tidb.port is required when tidb config is provided'')
      else
        (let database = (if tc_Database cfg = '''' then ''_timongo'' else tc_Database cfg);
             user = (if tc_User cfg = '''' then ''root'' else tc_User cfg)
         in Ok (dsnAuth user (tc_Password cfg) @ ''@tcp('' @ tc_Host cfg @ '':'' @ dec_int (sint (tc_Port cfg)) @ '')/'' @
                database @ ''?parseTime=true'')))"

section \<open>Loading\<close>

definition fileSettings :: "fileConfig \<Rightarrow> Config \<Rightarrow> Config" where
  "fileSettings file cfg =
     (let cfg = (if mc_ListenAddr (fc_Mongo file) \<noteq> '''' then cfg\<lparr>cfg_ListenAddr := mc_ListenAddr (fc_Mongo file)\<rparr> else cfg);
          cfg = (if mc_CompatVersion (fc_Mongo file) \<noteq> '''' then cfg\<lparr>cfg_CompatVersion := mc_CompatVersion (fc_Mongo file)\<rparr> else cfg)
      in if sc_ListenAddr (fc_Status file) \<noteq> '''' then cfg\<lparr>cfg_StatusAddr := sc_ListenAddr (fc_Status file)\<rparr> else cfg)"

definition LoadFile :: "configlib \<Rightarrow> string \<Rightarrow> Config res" where
  "LoadFile C path =
     bindR (cl_ReadFile C path) (\<lambda>raw.
     bindR (cl_Toml C raw) (\<lambda>file.
     let cfg = fileSettings file Default in
     if rc_Stateless (fc_Runtime file) = Some False
       then Err (PlainError ''timongo-server must run stateless=true'')
     else
       bindR (buildTiDBDSN (fc_TiDB file)) (\<lambda>dsn.
       Ok (if dsn \<noteq> '''' then cfg\<lparr>cfg_TiDBDSN := dsn\<rparr> else cfg))))"

section \<open>Lemmas\<close>

fun hexValue :: "char \<Rightarrow> nat" where
  "hexValue c = (if between CHR ''0'' CHR ''9'' c then of_char c - 48 else of_char c - 55)"

text \<open>The inverse of escaping.\<close>

fun unescape :: "string \<Rightarrow> string" where
  "unescape (c # s) =
     (if c = CHR ''%'' then
        (case s of h # l # s' \<Rightarrow> char_of (hexValue h * 16 + hexValue l) # unescape s' | _ \<Rightarrow> c # unescape s)
      else (if c = CHR ''+'' then CHR '' '' else c) # unescape s)"
| "unescape [] = []"

lemma hexValue_hexDigit [simp]: "hexValue (hexDigit n) = n mod 16"
proof -
  have "\<forall>n \<in> set [0..<16]. hexValue (''0123456789ABCDEF'' ! n) = n" by code_simp
  then show ?thesis by (simp add: hexDigit_def)
qed

lemma hexDigit_unreserved: "unreserved (hexDigit n)"
proof -
  have "\<forall>n \<in> set [0..<16]. unreserved (''0123456789ABCDEF'' ! n)" by code_simp
  then show ?thesis by (simp add: hexDigit_def)
qed

lemma not_unreserved:
  "\<not> unreserved CHR ''%''" "\<not> unreserved CHR ''+''" "\<not> unreserved CHR ''@''" "\<not> unreserved CHR '':''"
  "\<not> unreserved CHR ''/''"
  by code_simp+

lemma set_QueryEscape: "c \<in> set (QueryEscape s) \<Longrightarrow> unreserved c \<or> c = CHR ''%'' \<or> c = CHR ''+''"
  by (auto simp: QueryEscape_def escapeByte_def hexDigit_unreserved split: if_splits)

lemma QueryEscape_no_separator:
  "CHR ''@'' \<notin> set (QueryEscape s)" "CHR '':'' \<notin> set (QueryEscape s)" "CHR ''/'' \<notin> set (QueryEscape s)"
  using set_QueryEscape not_unreserved by fastforce+

lemma unescape_escapeByte: "unescape (escapeByte c @ s) = c # unescape s"
proof -
  have "of_char c < (256 :: nat)" by simp
  then have "of_char c div 16 < (16 :: nat)" by (rule less_mult_imp_div_less [of _ 16 16, simplified])
  then have "of_char c div 16 mod 16 * 16 + of_char c mod 16 = (of_char c :: nat)" by (simp only: mod_less div_mult_mod_eq)
  then have "unescape (CHR ''%'' # hexDigit (of_char c div 16) # hexDigit (of_char c) # s) = c # unescape s"
    by (simp del: hexValue.simps)
  moreover have "unreserved c \<Longrightarrow> unescape (c # s) = c # unescape s"
    using not_unreserved(1,2) by (cases "c = CHR ''%''"; cases "c = CHR ''+''") simp_all
  ultimately show ?thesis by (simp add: escapeByte_def del: unescape.simps) simp
qed

lemma unescape_QueryEscape: "unescape (QueryEscape s) = s"
  by (induction s) (simp_all add: QueryEscape_def unescape_escapeByte)

lemma QueryEscape_inject: "QueryEscape s = QueryEscape s' \<longleftrightarrow> s = s'"
  by (metis unescape_QueryEscape)

text \<open>An escaped text has the length of the text only if nothing was escaped.\<close>

lemma length_escapeByte: "1 \<le> length (escapeByte c)"
  by (simp add: escapeByte_def)

lemma QueryEscape_id: "QueryEscape s = s \<longleftrightarrow> (\<forall>c \<in> set s. unreserved c)"
proof
  assume "\<forall>c \<in> set s. unreserved c"
  then show "QueryEscape s = s" by (induction s) (auto simp: QueryEscape_def escapeByte_def)
next
  have len: "length s \<le> length (QueryEscape s)" for s
  proof (induction s)
    case (Cons c s)
    with length_escapeByte [of c] show ?case by (simp add: QueryEscape_def)
  qed simp
  show "QueryEscape s = s \<Longrightarrow> \<forall>c \<in> set s. unreserved c"
  proof (induction s)
    case (Cons c s)
    from Cons.prems have eq: "escapeByte c @ QueryEscape s = c # s" by (simp add: QueryEscape_def)
    then have "length (escapeByte c) + length (QueryEscape s) = Suc (length s)" by (metis length_Cons length_append)
    with len [of s] length_escapeByte [of c] have "length (escapeByte c) = 1" by linarith
    with eq have "unreserved c \<and> QueryEscape s = s"
      by (auto simp: escapeByte_def split: if_splits)
    with Cons.IH show ?case by simp
  qed simp
qed

text \<open>The first separator determines where a text splits.\<close>

lemma split_at_eq:
  fixes c :: char
  assumes "l @ c # r = l' @ c # r'" and "c \<notin> set l" and "c \<notin> set l'"
  shows "l = l' \<and> r = r'"
proof -
  have "cut_on c (l @ c # r) = Some (l, r)" and "cut_on c (l' @ c # r') = Some (l', r')"
    using assms(2,3) by (simp_all add: cut_on_Some)
  with assms(1) have "Some (l, r) = Some (l', r')" by metis
  then show ?thesis by simp
qed

lemma dsnAuth_inject:
  assumes "dsnAuth user password = dsnAuth user' password'" and "CHR '':'' \<notin> set user" and "CHR '':'' \<notin> set user'"
  shows "user = user' \<and> password = password'"
proof -
  have cut: "cut_on CHR '':'' (dsnAuth user password) =
      (if password = '''' then None else Some (user, QueryEscape password))"
    if "CHR '':'' \<notin> set user" for user password
    using that by (simp add: dsnAuth_def cut_on_None cut_on_Some)
  from cut [OF assms(2), of password] cut [OF assms(3), of password'] assms(1)
  have "(if password = '''' then None else Some (user, QueryEscape password)) =
      (if password' = '''' then None else Some (user', QueryEscape password'))" by metis
  with assms(1) show ?thesis
    by (cases "password = ''''"; cases "password' = ''''") (simp_all add: QueryEscape_inject dsnAuth_def)
qed

lemma dsnAuth_no_at: "CHR ''@'' \<notin> set user \<Longrightarrow> CHR ''@'' \<notin> set (dsnAuth user password)"
  using QueryEscape_no_separator by (auto simp: dsnAuth_def)

lemma dec_int_chars: "c \<in> set (dec_int i) \<Longrightarrow> c = CHR ''-'' \<or> (\<exists>d < 10. c = digit_char d)"
  using dec_nat_digits by (auto simp: dec_int_def split: if_splits)

lemma dec_int_no_paren: "CHR '')'' \<notin> set (dec_int i)"
proof
  assume "CHR '')'' \<in> set (dec_int i)"
  with dec_int_chars obtain d where "d < 10" "CHR '')'' = digit_char d" by force
  moreover have "\<forall>d \<in> set [0..<10]. digit_char d \<noteq> CHR '')''" by code_simp
  ultimately show False by auto
qed

text \<open>A database section without a DSN of its own, whose fields hold no separator.\<close>

definition effective :: "string \<Rightarrow> string \<Rightarrow> string" where
  "effective dflt s = (if s = '''' then dflt else s)"

definition plainTarget :: "tiDBConfig \<Rightarrow> bool" where
  "plainTarget cfg \<longleftrightarrow>
     tc_DSN cfg = '''' \<and> tc_Host cfg \<noteq> '''' \<and> tc_Port cfg \<noteq> 0 \<and> CHR '':'' \<notin> set (tc_Host cfg) \<and>
     CHR '':'' \<notin> set (tc_User cfg) \<and> CHR ''@'' \<notin> set (tc_User cfg)"

lemma buildTiDBDSN_plain:
  "plainTarget cfg \<Longrightarrow> buildTiDBDSN cfg =
     Ok (dsnAuth (effective ''root'' (tc_User cfg)) (tc_Password cfg) @ ''@tcp('' @ tc_Host cfg @ '':'' @
         dec_int (sint (tc_Port cfg)) @ '')/'' @ effective ''_timongo'' (tc_Database cfg) @ ''?parseTime=true'')"
  by (simp add: buildTiDBDSN_def plainTarget_def effective_def)

lemma fileSettings_Default:
  "fileSettings file Default =
     Default\<lparr>cfg_ListenAddr := effective (cfg_ListenAddr Default) (mc_ListenAddr (fc_Mongo file)),
       cfg_StatusAddr := effective (cfg_StatusAddr Default) (sc_ListenAddr (fc_Status file)),
       cfg_CompatVersion := effective (cfg_CompatVersion Default) (mc_CompatVersion (fc_Mongo file))\<rparr>"
  by (simp add: fileSettings_def effective_def Default_def Let_def)

text \<open>A loaded file gives the TiDB backend and the default timeout whatever it says; every other setting is that of
  the file, or the default where the file has none; a file that asks for a stateful server is refused.\<close>

lemma LoadFile_settings:
  assumes "cl_ReadFile C path = Ok raw" and "cl_Toml C raw = Ok fileCfg" and "buildTiDBDSN (fc_TiDB fileCfg) = Ok dsn"
  shows "LoadFile C path =
    (if rc_Stateless (fc_Runtime fileCfg) = Some False then Err (PlainError ''timongo-server must run stateless=true'')
     else Ok \<lparr>cfg_ListenAddr = effective (cfg_ListenAddr Default) (mc_ListenAddr (fc_Mongo fileCfg)),
       cfg_StatusAddr = effective (cfg_StatusAddr Default) (sc_ListenAddr (fc_Status fileCfg)), cfg_Backend = ''tidb'',
       cfg_TiDBDSN = dsn, cfg_CompatVersion = effective (cfg_CompatVersion Default) (mc_CompatVersion (fc_Mongo fileCfg)),
       cfg_Timeout = 30 * 1000000000\<rparr>)"
  using assms by (simp add: LoadFile_def fileSettings_Default Let_def) (simp add: Default_def BackendTiDB_def)

section \<open>Properties\<close>

text \<open>C38: The data source name built for a database section that names none itself, and that has a host without \<^verbatim>\<open>:\<close>, a
  nonzero port and a user without \<^verbatim>\<open>:\<close> and \<^verbatim>\<open>@\<close> or none, determines what it was built from: two such sections with the same name
  agree on the user, the password, whatever its characters, the host, the port and the database.\<close>

theorem dsn_determines_target:
  assumes "plainTarget cfg" and "plainTarget cfg'" and "buildTiDBDSN cfg = buildTiDBDSN cfg'"
  shows "effective ''root'' (tc_User cfg) = effective ''root'' (tc_User cfg') \<and> tc_Password cfg = tc_Password cfg' \<and>
    tc_Host cfg = tc_Host cfg' \<and> tc_Port cfg = tc_Port cfg' \<and>
    effective ''_timongo'' (tc_Database cfg) = effective ''_timongo'' (tc_Database cfg')"
proof -
  let ?auth = "\<lambda>cfg. dsnAuth (effective ''root'' (tc_User cfg)) (tc_Password cfg)"
  let ?port = "\<lambda>cfg. dec_int (sint (tc_Port cfg))"
  let ?path = "\<lambda>cfg. ''/'' @ effective ''_timongo'' (tc_Database cfg) @ ''?parseTime=true''"
  have user: "CHR '':'' \<notin> set (effective ''root'' (tc_User cfg)) \<and> CHR ''@'' \<notin> set (?auth cfg)" if "plainTarget cfg" for cfg
    using that dsnAuth_no_at [of "effective ''root'' (tc_User cfg)"] by (auto simp: plainTarget_def effective_def)
  have host: "CHR '':'' \<notin> set (''tcp('' @ tc_Host cfg)" if "plainTarget cfg" for cfg
    using that by (simp add: plainTarget_def)
  have built: "buildTiDBDSN cfg = Ok (?auth cfg @ CHR ''@'' # ((''tcp('' @ tc_Host cfg) @ CHR '':'' # (?port cfg @ CHR '')'' # ?path cfg)))"
    if "plainTarget cfg" for cfg
    using that by (simp add: buildTiDBDSN_plain)
  from assms(3) [unfolded built [OF assms(1)] built [OF assms(2)], THEN res.inject(1) [THEN iffD1]]
  have auth: "?auth cfg = ?auth cfg'"
    and rest: "(''tcp('' @ tc_Host cfg) @ CHR '':'' # (?port cfg @ CHR '')'' # ?path cfg) =
      (''tcp('' @ tc_Host cfg') @ CHR '':'' # (?port cfg' @ CHR '')'' # ?path cfg')"
    using split_at_eq user assms(1,2) by blast+
  from split_at_eq [OF rest host [OF assms(1)] host [OF assms(2)]]
  have "tc_Host cfg = tc_Host cfg'" and rest: "?port cfg @ CHR '')'' # ?path cfg = ?port cfg' @ CHR '')'' # ?path cfg'"
    by simp_all
  moreover from split_at_eq [OF rest dec_int_no_paren dec_int_no_paren]
  have "?port cfg = ?port cfg'" and "?path cfg = ?path cfg'" by simp_all
  ultimately show ?thesis
    using dsnAuth_inject [OF auth] user assms(1,2) by (simp add: signed_word_eqI)
qed

definition demo_target :: tiDBConfig where
  "demo_target =
     \<lparr>tc_Host = ''h'', tc_Port = 4000, tc_Database = '''', tc_User = '''', tc_Password = ''p@'', tc_DSN = '''', tc_MaxOpenConns = 0\<rparr>"

theorem dsn_determines_target_witness:
  "buildTiDBDSN demo_target = Ok ''root:p%40@tcp(h:4000)/_timongo?parseTime=true'' \<and>
   buildTiDBDSN (demo_target\<lparr>tc_Password := ''p:''\<rparr>) \<noteq> buildTiDBDSN demo_target"
proof -
  have "plainTarget demo_target" and "plainTarget (demo_target\<lparr>tc_Password := ''p:''\<rparr>)"
    by (simp_all add: plainTarget_def demo_target_def)
  from dsn_determines_target [OF this(2,1)] show ?thesis
    by (auto simp: demo_target_def) code_simp
qed

end
