(* ===== verification/Tiup_Render.thy ===== *)
theory Tiup_Render
  imports Tiup_Topology Config_File
begin

text \<open>
  \<^verbatim>\<open>internal/tiup/render.go\<close> and its two templates: the configuration file and the service file of every
  timongo server of a topology. The templates are constants of the program, so parsing them cannot
  fail; executing one puts the fields of a server into its text. The lemmas give the file of every host
  and show that the configuration file binds the server to its TiDB server when it is loaded again.
\<close>

section \<open>Defaults\<close>

definition orString :: "string \<Rightarrow> string \<Rightarrow> string" where
  "orString s dflt = (if s = '''' then dflt else s)"

definition orInt :: "64 word \<Rightarrow> 64 word \<Rightarrow> 64 word" where
  "orInt n dflt = (if n = 0 then dflt else n)"

definition normalizeConfigDefaults :: "TimongoConfig \<Rightarrow> TimongoConfig" where
  "normalizeConfigDefaults c =
     c\<lparr>tmc_CompatVersion := orString (tmc_CompatVersion c) ''6.0'',
       tmc_CursorTTL := orString (tmc_CursorTTL c) ''10m'',
       tmc_SessionTTL := orString (tmc_SessionTTL c) ''30m'',
       tmc_TransactionTimeout := orString (tmc_TransactionTimeout c) ''60s'',
       tmc_TiDBMaxOpenConns := orInt (tmc_TiDBMaxOpenConns c) 4096\<rparr>"

definition normalizeServerDefaults :: "TimongoServer \<Rightarrow> TimongoServer" where
  "normalizeServerDefaults server =
     (let server = server\<lparr>ts_Port := orInt (ts_Port server) 27017\<rparr>;
          server = server\<lparr>ts_StatusPort := orInt (ts_StatusPort server) 28017\<rparr>;
          server = server\<lparr>ts_DeployDir :=
            orString (ts_DeployDir server) (''/tidb-deploy/timongo-'' @ dec_int (sint (ts_Port server)))\<rparr>;
          server = server\<lparr>ts_LogDir := orString (ts_LogDir server) (ts_DeployDir server @ ''/log'')\<rparr>
      in server\<lparr>ts_Config := normalizeConfigDefaults (ts_Config server)\<rparr>)"

section \<open>Templates\<close>

definition textLines :: "string list \<Rightarrow> string" where
  "textLines ls = concat (map (\<lambda>l. l @ [CHR 0x0A]) ls)"

definition showInt :: "64 word \<Rightarrow> string" where
  "showInt n = dec_int (sint n)"

definition quoted :: "string \<Rightarrow> string" where
  "quoted s = CHR 0x22 # s @ [CHR 0x22]"

text \<open>\<^verbatim>\<open>templates/timongo.toml.tmpl\<close>: nothing is escaped.\<close>

definition timongoConfig :: "string \<Rightarrow> TimongoServer \<Rightarrow> string" where
  "timongoConfig user server = textLines
     [''[mongo]'',
      ''listen_addr = '' @ quoted (''0.0.0.0:'' @ showInt (ts_Port server)),
      ''compat_version = '' @ quoted (tmc_CompatVersion (ts_Config server)),
      '''',
      ''[status]'',
      ''listen_addr = '' @ quoted (''0.0.0.0:'' @ showInt (ts_StatusPort server)),
      '''',
      ''[tidb]'',
      ''host = '' @ quoted (ts_TiDBHost server),
      ''port = '' @ showInt (ts_TiDBPort server),
      ''database = '' @ quoted ''_timongo'',
      ''max_open_conns = '' @ showInt (tmc_TiDBMaxOpenConns (ts_Config server)),
      '''',
      ''[runtime]'',
      ''stateless = true'',
      ''cursor_ttl = '' @ quoted (tmc_CursorTTL (ts_Config server)),
      ''session_ttl = '' @ quoted (tmc_SessionTTL (ts_Config server)),
      ''transaction_timeout = '' @ quoted (tmc_TransactionTimeout (ts_Config server))]"

text \<open>\<^verbatim>\<open>templates/timongo.service.tmpl\<close>.\<close>

definition timongoService :: "string \<Rightarrow> TimongoServer \<Rightarrow> string" where
  "timongoService user server = textLines
     [''[Unit]'',
      ''Description=timongo-server'',
      ''After=network-online.target'',
      ''Wants=network-online.target'',
      '''',
      ''[Service]'',
      ''User='' @ user,
      ''ExecStart='' @ ts_DeployDir server @ ''/bin/timongo serve -config '' @ ts_DeployDir server @ ''/conf/timongo.toml'',
      ''Restart=always'',
      ''RestartSec=5'',
      ''LimitNOFILE=1048576'',
      '''',
      ''[Install]'',
      ''WantedBy=multi-user.target'']"

section \<open>Rendering\<close>

record RenderedFiles =
  rf_Config :: string
  rf_Service :: string
  rf_DeployDir :: string
  rf_LogDir :: string

definition renderServer :: "string \<Rightarrow> TimongoServer \<Rightarrow> RenderedFiles" where
  "renderServer user server =
     (let server = normalizeServerDefaults server in
      \<lparr>rf_Config = timongoConfig user server, rf_Service = timongoService user server,
       rf_DeployDir = ts_DeployDir server, rf_LogDir = ts_LogDir server\<rparr>)"

fun renderLoop :: "string \<Rightarrow> TimongoServer list \<Rightarrow> (string \<times> RenderedFiles) list \<Rightarrow> (string \<times> RenderedFiles) list" where
  "renderLoop user [] files = files"
| "renderLoop user (server # servers) files =
     renderLoop user servers (put (ts_Host server) (renderServer user server) files)"

text \<open>\<open>None\<close> is the nil topology.\<close>

definition RenderTimongoFiles :: "Topology option \<Rightarrow> (string \<times> RenderedFiles) list res" where
  "RenderTimongoFiles topo =
     (case topo of
        None \<Rightarrow> Err (PlainError ''topology is nil'')
      | Some topo \<Rightarrow> Ok (renderLoop (orString (gl_User (tp_Global topo)) ''tidb'') (tp_TimongoServers topo) []))"

section \<open>Lemmas\<close>

lemma map_of_renderLoop:
  "map_of (renderLoop user servers files) host =
     (case filter (\<lambda>server. ts_Host server = host) (rev servers) of
        [] \<Rightarrow> map_of files host
      | server # _ \<Rightarrow> Some (renderServer user server))"
  by (induction servers arbitrary: files) (auto simp: update_conv' split: list.split)

lemma filter_unique_key:
  assumes "distinct (map f xs)" and "x \<in> set xs"
  shows "filter (\<lambda>y. f y = f x) (rev xs) = [x]"
  using assms by (induction xs) (auto simp: filter_empty_conv image_iff)


lemma renderLoop_distinct:
  "distinct (map ts_Host servers) \<Longrightarrow> set (map ts_Host servers) \<inter> set (keys files) = {} \<Longrightarrow>
     renderLoop user servers files = files @ map (\<lambda>server. (ts_Host server, renderServer user server)) servers"
proof (induction servers arbitrary: files)
  case (Cons server servers)
  then have "put (ts_Host server) (renderServer user server) files = files @ [(ts_Host server, renderServer user server)]"
    by (simp add: put_new)
  with Cons show ?case by auto
qed simp

lemma orString_absorb: "dflt \<noteq> '''' \<Longrightarrow> orString (orString s dflt) dflt' = orString s dflt"
  by (simp add: orString_def)

lemma orInt_absorb: "dflt \<noteq> 0 \<Longrightarrow> orInt (orInt n dflt) dflt' = orInt n dflt"
  by (simp add: orInt_def)

lemma normalizeConfigDefaults_idem:
  "normalizeConfigDefaults (normalizeConfigDefaults c) = normalizeConfigDefaults c"
  by (simp add: normalizeConfigDefaults_def orString_absorb orInt_absorb)

lemma normalizeServerDefaults_idem:
  "normalizeServerDefaults (normalizeServerDefaults server) = normalizeServerDefaults server"
  by (simp add: normalizeServerDefaults_def Let_def orString_absorb orInt_absorb normalizeConfigDefaults_idem)

lemma normalizeServerDefaults_bound:
  assumes "bound server"
  shows "ts_Port (normalizeServerDefaults server) = ts_Port server"
    and "ts_StatusPort (normalizeServerDefaults server) = ts_StatusPort server"
    and "ts_TiDBHost (normalizeServerDefaults server) = ts_TiDBHost server"
    and "ts_TiDBPort (normalizeServerDefaults server) = ts_TiDBPort server"
  using assms by (simp_all add: normalizeServerDefaults_def Let_def bound_def orInt_def)

subsection \<open>Configuration files as TOML\<close>

text \<open>A TOML document of sections with strings, integers and booleans, its plain text, and what it says.\<close>

datatype tomlval = TString string | TInt "64 word" | TBool bool

type_synonym toml = "(string \<times> (string \<times> tomlval) list) list"

fun tomlValue :: "tomlval \<Rightarrow> string" where
  "tomlValue (TString s) = quoted s"
| "tomlValue (TInt n) = showInt n"
| "tomlValue (TBool b) = (if b then ''true'' else ''false'')"

fun tomlLines :: "toml \<Rightarrow> string list" where
  "tomlLines [] = []"
| "tomlLines ((name, entries) # sections) =
     (''['' @ name @ '']'') # map (\<lambda>(key, v). key @ '' = '' @ tomlValue v) entries @
     (if sections = [] then [] else '''' # tomlLines sections)"

definition tomlText :: "toml \<Rightarrow> string" where
  "tomlText d = textLines (tomlLines d)"

definition tomlField :: "toml \<Rightarrow> string \<Rightarrow> string \<Rightarrow> tomlval option" where
  "tomlField d name key = Option.bind (map_of d name) (\<lambda>entries. map_of entries key)"

definition tomlString :: "toml \<Rightarrow> string \<Rightarrow> string \<Rightarrow> string" where
  "tomlString d name key = (case tomlField d name key of Some (TString s) \<Rightarrow> s | _ \<Rightarrow> '''')"

definition tomlInt :: "toml \<Rightarrow> string \<Rightarrow> string \<Rightarrow> 64 word" where
  "tomlInt d name key = (case tomlField d name key of Some (TInt n) \<Rightarrow> n | _ \<Rightarrow> 0)"

definition tomlBool :: "toml \<Rightarrow> string \<Rightarrow> string \<Rightarrow> bool option" where
  "tomlBool d name key = (case tomlField d name key of Some (TBool b) \<Rightarrow> Some b | _ \<Rightarrow> None)"

text \<open>The fields of \<^verbatim>\<open>fileConfig\<close> by their tags; a missing one has its zero value.\<close>

definition readToml :: "toml \<Rightarrow> fileConfig" where
  "readToml d =
     \<lparr>fc_Mongo = \<lparr>mc_ListenAddr = tomlString d ''mongo'' ''listen_addr'',
        mc_CompatVersion = tomlString d ''mongo'' ''compat_version''\<rparr>,
      fc_Status = \<lparr>sc_ListenAddr = tomlString d ''status'' ''listen_addr''\<rparr>,
      fc_TiDB = \<lparr>tc_Host = tomlString d ''tidb'' ''host'', tc_Port = tomlInt d ''tidb'' ''port'',
        tc_Database = tomlString d ''tidb'' ''database'', tc_User = tomlString d ''tidb'' ''user'',
        tc_Password = tomlString d ''tidb'' ''password'', tc_DSN = tomlString d ''tidb'' ''dsn'',
        tc_MaxOpenConns = tomlInt d ''tidb'' ''max_open_conns''\<rparr>,
      fc_Runtime = \<lparr>rc_Stateless = tomlBool d ''runtime'' ''stateless'',
        rc_CursorTTL = tomlString d ''runtime'' ''cursor_ttl'', rc_SessionTTL = tomlString d ''runtime'' ''session_ttl'',
        rc_TransactionTimeout = tomlString d ''runtime'' ''transaction_timeout''\<rparr>\<rparr>"

definition configToml :: "TimongoServer \<Rightarrow> toml" where
  "configToml server =
     [(''mongo'', [(''listen_addr'', TString (''0.0.0.0:'' @ showInt (ts_Port server))),
        (''compat_version'', TString (tmc_CompatVersion (ts_Config server)))]),
      (''status'', [(''listen_addr'', TString (''0.0.0.0:'' @ showInt (ts_StatusPort server)))]),
      (''tidb'', [(''host'', TString (ts_TiDBHost server)), (''port'', TInt (ts_TiDBPort server)),
        (''database'', TString ''_timongo''), (''max_open_conns'', TInt (tmc_TiDBMaxOpenConns (ts_Config server)))]),
      (''runtime'', [(''stateless'', TBool True), (''cursor_ttl'', TString (tmc_CursorTTL (ts_Config server))),
        (''session_ttl'', TString (tmc_SessionTTL (ts_Config server))),
        (''transaction_timeout'', TString (tmc_TransactionTimeout (ts_Config server)))])]"

lemma timongoConfig_toml: "timongoConfig user server = tomlText (configToml server)"
  by (simp add: timongoConfig_def tomlText_def configToml_def)

lemmas toml_lookup = tomlString_def tomlInt_def tomlBool_def tomlField_def

lemma readToml_configToml:
  "readToml (configToml server) =
     \<lparr>fc_Mongo = \<lparr>mc_ListenAddr = ''0.0.0.0:'' @ showInt (ts_Port server),
        mc_CompatVersion = tmc_CompatVersion (ts_Config server)\<rparr>,
      fc_Status = \<lparr>sc_ListenAddr = ''0.0.0.0:'' @ showInt (ts_StatusPort server)\<rparr>,
      fc_TiDB = \<lparr>tc_Host = ts_TiDBHost server, tc_Port = ts_TiDBPort server, tc_Database = ''_timongo'', tc_User = '''',
        tc_Password = '''', tc_DSN = '''', tc_MaxOpenConns = tmc_TiDBMaxOpenConns (ts_Config server)\<rparr>,
      fc_Runtime = \<lparr>rc_Stateless = Some True, rc_CursorTTL = tmc_CursorTTL (ts_Config server),
        rc_SessionTTL = tmc_SessionTTL (ts_Config server),
        rc_TransactionTimeout = tmc_TransactionTimeout (ts_Config server)\<rparr>\<rparr>"
  by (simp add: readToml_def configToml_def toml_lookup)

text \<open>Given a TOML decoder that reads the rendered file as what it says, the server of an accepted topology that loads
  the file listens on the ports of the topology and connects to the TiDB server it is bound to.\<close>

lemma rendered_config_binds_to_tidb:
  assumes "ParseTopology Y raw = Ok topo" and "server \<in> set (tp_TimongoServers topo)"
    and "RenderTimongoFiles (Some topo) = Ok files" and "distinct (map ts_Host (tp_TimongoServers topo))"
    and "map_of files (ts_Host server) = Some rendered" and "cl_ReadFile C path = Ok (rf_Config rendered)"
    and "\<And>d. d = configToml (normalizeServerDefaults server) \<Longrightarrow> cl_Toml C (tomlText d) = Ok (readToml d)"
  shows "\<exists>cfg. LoadFile C path = Ok cfg \<and>
    cfg_ListenAddr cfg = ''0.0.0.0:'' @ showInt (ts_Port server) \<and>
    cfg_StatusAddr cfg = ''0.0.0.0:'' @ showInt (ts_StatusPort server) \<and>
    cfg_TiDBDSN cfg = ''root@tcp('' @ ts_TiDBHost server @ '':'' @ showInt (ts_TiDBPort server) @ '')/_timongo?parseTime=true''"
proof -
  have "checkServers 0 (tp_TimongoServers topo) = Ok ()"
    using assms(1) by (auto simp: ParseTopology_def res_simps)
  then have bound: "bound server" using assms(2) by (simp add: checkServers_Ok)
  let ?d = "configToml (normalizeServerDefaults server)"
  from assms(3) have "files = renderLoop (orString (gl_User (tp_Global topo)) ''tidb'') (tp_TimongoServers topo) []"
    by (simp add: RenderTimongoFiles_def)
  then have "rendered = renderServer (orString (gl_User (tp_Global topo)) ''tidb'') server"
    using assms(5) filter_unique_key [OF assms(4,2)] by (simp only: map_of_renderLoop) simp
  then have read: "cl_ReadFile C path = Ok (tomlText ?d)"
    using assms(6) by (simp add: renderServer_def Let_def timongoConfig_toml)
  have dsn: "buildTiDBDSN (fc_TiDB (readToml ?d)) =
      Ok (''root@tcp('' @ ts_TiDBHost server @ '':'' @ showInt (ts_TiDBPort server) @ '')/_timongo?parseTime=true'')"
    using bound by (simp add: readToml_configToml normalizeServerDefaults_bound buildTiDBDSN_def bound_def dsnAuth_def showInt_def)
  show ?thesis
    unfolding LoadFile_settings [OF read assms(7) [OF refl] dsn]
    using bound by (simp add: readToml_configToml normalizeServerDefaults_bound effective_def)
qed

section \<open>Properties\<close>

text \<open>The files of a host are those of the last server on that host: servers that share a host lose all but one,
  every other server has its own files.\<close>

theorem last_server_of_host_is_rendered:
  assumes "RenderTimongoFiles (Some topo) = Ok files"
  shows "map_of files host =
       (case filter (\<lambda>server. ts_Host server = host) (rev (tp_TimongoServers topo)) of
          [] \<Rightarrow> None
        | server # _ \<Rightarrow> Some (renderServer (orString (gl_User (tp_Global topo)) ''tidb'') server))"
proof -
  from assms have "files = renderLoop (orString (gl_User (tp_Global topo)) ''tidb'') (tp_TimongoServers topo) []"
    by (simp add: RenderTimongoFiles_def)
  then show ?thesis by (simp only: map_of_renderLoop map_of.simps)
qed

theorem last_server_of_host_is_rendered_witness:
  "let topo = demo_topology\<lparr>tp_TimongoServers := [demo_server, demo_server\<lparr>ts_Port := 27018\<rparr>]\<rparr>;
       files = [(''10.0.1.10'', renderServer ''tidb'' (demo_server\<lparr>ts_Port := 27018\<rparr>))]
   in RenderTimongoFiles (Some topo) = Ok files \<and>
      map_of files ''10.0.1.10'' = Some (renderServer ''tidb'' (demo_server\<lparr>ts_Port := 27018\<rparr>))"
proof -
  let ?topo = "demo_topology\<lparr>tp_TimongoServers := [demo_server, demo_server\<lparr>ts_Port := 27018\<rparr>]\<rparr>"
  let ?files = "[(''10.0.1.10'', renderServer ''tidb'' (demo_server\<lparr>ts_Port := 27018\<rparr>))]"
  have files: "RenderTimongoFiles (Some ?topo) = Ok ?files"
    by (simp add: RenderTimongoFiles_def demo_topology_def demo_server_def orString_def)
  with last_server_of_host_is_rendered [OF files, of "''10.0.1.10''"] show ?thesis
    by (simp add: demo_topology_def demo_server_def orString_def)
qed

end
