(* ===== verification/Status_Server.thy ===== *)
theory Status_Server
  imports Tidb_Store Command_Registry
begin

text \<open>
  \<^verbatim>\<open>internal/status/server.go\<close>: the answers of the HTTP status server, and its life from the start to the shutdown; \<open>quote\<close> is the printing of \<^verbatim>\<open>%q\<close>. A request is its cleaned path, since the multiplexer
  redirects any other to it; \<open>None\<close> is a connection that is closed without an answer.
\<close>

record httpReply =
  hr_code :: nat
  hr_type :: string
  hr_body :: string

definition jsonReply :: "nat \<Rightarrow> string \<Rightarrow> httpReply" where
  "jsonReply code body = \<lparr>hr_code = code, hr_type = ''application/json'', hr_body = body\<rparr>"

definition okBody :: string where
  "okBody = ''{'' @ [CHR 0x22] @ ''ok'' @ [CHR 0x22] @ '':true}''"

definition errorBody :: "string \<Rightarrow> string" where
  "errorBody quoted =
     ''{'' @ [CHR 0x22] @ ''ok'' @ [CHR 0x22] @ '':false,'' @ [CHR 0x22] @ ''error'' @ [CHR 0x22] @ '':'' @ quoted @ ''}''"

text \<open>A panic of the check ends the request, not the server: \<^verbatim>\<open>net/http\<close> recovers it and closes the connection.\<close>

definition readyReply :: "(string \<Rightarrow> string) \<Rightarrow> unit res \<Rightarrow> httpReply option" where
  "readyReply quote r =
     (case r of
        Ok _ \<Rightarrow> Some (jsonReply 200 okBody)
      | Err e \<Rightarrow> Some (jsonReply 503 (errorBody (quote (errorText e))))
      | Panic _ \<Rightarrow> None)"

text \<open>The answer of \<^verbatim>\<open>http.ServeMux\<close> to a path that nothing is registered for.\<close>

definition httpNotFound :: httpReply where
  "httpNotFound =
     \<lparr>hr_code = 404, hr_type = ''text/plain; charset=utf-8'', hr_body = ''404 page not found'' @ [CHR 0x0A]\<rparr>"

definition status_NewHandler :: "(string \<Rightarrow> string) \<Rightarrow> ('q, unit) action \<Rightarrow> string \<Rightarrow> 'q \<Rightarrow> httpReply option \<times> 'q" where
  "status_NewHandler quote ready path s =
     (if path = ''/health'' then (Some (jsonReply 200 okBody), s)
      else if path = ''/ready'' then apfst (readyReply quote) (ready s)
      else if path = ''/metrics'' then
        (Some \<lparr>hr_code = 200, hr_type = ''text/plain; version=0.0.4'',
               hr_body = ''# timongo metrics are initialized in M1'' @ [CHR 0x0A]\<rparr>, s)
      else (Some httpNotFound, s))"

section \<open>The server\<close>

text \<open>What happens to the server: a request, the end of the context, a failure of the listener.\<close>

datatype httpEvent = HttpRequest string | ContextDone | ListenerFails goerr

definition ErrServerClosed :: goerr where
  "ErrServerClosed = PlainError ''http: Server closed''"

text \<open>
  \<^verbatim>\<open>http.Server.ListenAndServe\<close> with a goroutine that calls \<^verbatim>\<open>Shutdown\<close> when the context is done: the answers in order, and
  what it returned, \<open>None\<close> while it serves. It returns \<^verbatim>\<open>ErrServerClosed\<close> as soon as \<^verbatim>\<open>Shutdown\<close> is called.
\<close>

fun httpServe :: "(string \<Rightarrow> 'q \<Rightarrow> httpReply option \<times> 'q) \<Rightarrow> httpEvent list \<Rightarrow> 'q \<Rightarrow> (httpReply option list \<times> unit res option) \<times> 'q" where
  "httpServe handler [] s = (([], None), s)"
| "httpServe handler (HttpRequest path # events) s =
     (case handler path s of
        (reply, s') \<Rightarrow> apfst (apfst (\<lambda>replies. reply # replies)) (httpServe handler events s'))"
| "httpServe handler (ContextDone # _) s = (([], Some (Err ErrServerClosed)), s)"
| "httpServe handler (ListenerFails e # _) s = (([], Some (Err e)), s)"

text \<open>A shutdown is not an error.\<close>

definition status_ListenAndServe ::
  "(string \<Rightarrow> 'q \<Rightarrow> httpReply option \<times> 'q) \<Rightarrow> httpEvent list \<Rightarrow> 'q \<Rightarrow> (httpReply option list \<times> unit res option) \<times> 'q" where
  "status_ListenAndServe handler events s =
     apfst (apsnd (map_option (\<lambda>err. if err = Err ErrServerClosed then Ok () else err))) (httpServe handler events s)"

text \<open>Requests are answered until the server ends; it ends well when it is shut down before its listener fails.\<close>

lemma httpServe_requests:
  assumes "list_all (\<lambda>e. \<exists>path. e = HttpRequest path) requests"
  shows "snd (fst (httpServe handler (requests @ events) s)) = snd (fst (httpServe handler events (snd (httpServe handler requests s))))"
    "length (fst (fst (httpServe handler (requests @ ContextDone # events) s))) = length requests"
  using assms by (induction requests arbitrary: s) (auto simp: case_prod_beta)

lemma status_ends:
  assumes "list_all (\<lambda>e. \<exists>path. e = HttpRequest path) requests"
  shows "length (fst (fst (status_ListenAndServe handler (requests @ ContextDone # events) s))) = length requests"
    "snd (fst (status_ListenAndServe handler (requests @ ContextDone # events) s)) = Some (Ok ())"
    "e \<noteq> ErrServerClosed \<Longrightarrow> snd (fst (status_ListenAndServe handler (requests @ ListenerFails e # events) s)) = Some (Err e)"
  by (simp_all add: status_ListenAndServe_def httpServe_requests [OF assms])

section \<open>The check of the store\<close>

text \<open>Over the TiDB backend: \<^verbatim>\<open>/ready\<close> is 200 exactly when the database answers a ping, and nothing else looks at it.\<close>

lemma ready_is_ping:
  "fst (status_NewHandler quote (tidb_Ready D) ''/ready'' s) = Some (jsonReply 200 okBody) \<longleftrightarrow> fst (db_ping D s) = Ok ()"
  by (cases "db_ping D s") (auto simp: status_NewHandler_def tidb_Ready_def readyReply_def jsonReply_def split: res.splits)

lemma status_leaves_database:
  "path \<noteq> ''/ready'' \<Longrightarrow> snd (status_NewHandler quote ready path s) = s"
  by (simp add: status_NewHandler_def)

end
