(* ===== verification/Command_Line.thy ===== *)
theory Command_Line
  imports Go_Os Tiup_Render Tidb_Store Status_Server Wire_Server
begin

text \<open>
  \<^verbatim>\<open>cmd/timongo/main.go\<close>: the flags of the commands, the store they open, and the two helpers for TiUP. The
  database a data source name opens, the servers that listen until they are stopped, and the printing of
  \<^verbatim>\<open>%q\<close> are parameters; files are a map.
\<close>

section \<open>Serving\<close>

definition serveFlags :: "string list" where
  "serveFlags = [''config'', ''listen'', ''status-listen'', ''backend'', ''tidb-dsn'']"

text \<open>The function given to \<^verbatim>\<open>fs.Visit\<close>, for a flag that was set to \<open>v\<close>.\<close>

definition setFlag :: "string \<Rightarrow> string \<Rightarrow> Config \<Rightarrow> Config" where
  "setFlag name v cfg =
     (if name = ''listen'' then cfg\<lparr>cfg_ListenAddr := v\<rparr>
      else if name = ''status-listen'' then cfg\<lparr>cfg_StatusAddr := v\<rparr>
      else if name = ''backend'' then cfg\<lparr>cfg_Backend := v\<rparr>
      else if name = ''tidb-dsn'' then cfg\<lparr>cfg_TiDBDSN := v\<rparr>
      else cfg)"

text \<open>\<^verbatim>\<open>Visit\<close> takes the flags that were set in the order of their names.\<close>

definition visitFlags :: "(string \<times> string) list \<Rightarrow> Config \<Rightarrow> Config" where
  "visitFlags actual =
     fold (\<lambda>name cfg. case map_of actual name of Some v \<Rightarrow> setFlag name v cfg | None \<Rightarrow> cfg)
       [''backend'', ''config'', ''listen'', ''status-listen'', ''tidb-dsn'']"

definition parseServeConfig :: "configlib \<Rightarrow> string list \<Rightarrow> Config res process" where
  "parseServeConfig C args =
     (case parseFlags serveFlags args [] of
        Exited code \<Rightarrow> Exited code
      | Returned actual \<Rightarrow>
          (let configPath = flagVar actual ''config'' '''' in
           Returned (mapR (visitFlags actual) (if configPath \<noteq> '''' then LoadFile C configPath else Ok Default))))"

text \<open>\<open>dial dsn\<close> is the database that \<^verbatim>\<open>sql.Open\<close> gives, and its error.\<close>

definition buildStore ::
  "(string \<Rightarrow> string) \<Rightarrow> (string \<Rightarrow> ('q, 'j) sqldb \<times> unit res) \<Rightarrow> Config \<Rightarrow> ('q, ('q, 'j) sqldb) action" where
  "buildStore quote dial cfg =
     (if cfg_Backend cfg = BackendTiDB then
        (if cfg_TiDBDSN cfg = '''' then liftS (Err (PlainError ''-tidb-dsn is required when -backend=tidb''))
         else
           (case dial (cfg_TiDBDSN cfg) of
              (D, opened) \<Rightarrow> bindS (tidb_NewStore D opened) (\<lambda>_. returnS D)))
      else if cfg_Backend cfg = ''memory'' then
        liftS (Err (PlainError ''memory backend is test-only; timongo runtime must be stateless and use tidb''))
      else liftS (Err (PlainError (''unsupported backend '' @ quote (cfg_Backend cfg)))))"

text \<open>\<^verbatim>\<open>defer closeStore()\<close>: runs however the rest ends.\<close>

definition ensuring :: "('q, unit) action \<Rightarrow> ('q, 'a) action \<Rightarrow> ('q, 'a) action" where
  "ensuring cleanup m s = (case m s of (r, s') \<Rightarrow> (r, snd (cleanup s')))"

text \<open>
  The two servers, with their addresses and what they answer with, from the start until the wire server
  returns; the check of the status server is the one of the store.
\<close>

type_synonym 'q servers =
  "string \<Rightarrow> (string \<Rightarrow> 'q \<Rightarrow> httpReply option \<times> 'q) \<Rightarrow> string \<Rightarrow> 'q store_ops \<Rightarrow> ('q, unit) action"

definition serve ::
  "(string \<Rightarrow> string) \<Rightarrow> configlib \<Rightarrow> 'j extjson \<Rightarrow> (string \<Rightarrow> ('q, 'j) sqldb \<times> unit res) \<Rightarrow>
   'q servers \<Rightarrow> string list \<Rightarrow> 'q \<Rightarrow> unit res process \<times> 'q" where
  "serve quote C X dial listen args s =
     (case parseServeConfig C args of
        Exited code \<Rightarrow> (Exited code, s)
      | Returned parsed \<Rightarrow>
          apfst Returned
            (bindS (liftS parsed) (\<lambda>cfg.
             bindS (buildStore quote dial cfg) (\<lambda>D.
             ensuring (tidb_Close D)
               (listen (cfg_StatusAddr cfg) (status_NewHandler quote (tidb_Ready D))
                  (cfg_ListenAddr cfg) (tidb_ops D X)))) s))"

section \<open>TiUP helpers\<close>

definition runTiUPSplitTopology ::
  "'a yamllib \<Rightarrow> (string \<Rightarrow> goerr option) \<Rightarrow> string list \<Rightarrow> files \<Rightarrow> unit res process \<times> files" where
  "runTiUPSplitTopology Y fault args fs =
     (case parseFlags [''input'', ''tidb-output'', ''timongo-output''] args [] of
        Exited code \<Rightarrow> (Exited code, fs)
      | Returned actual \<Rightarrow>
          (let input = flagVar actual ''input'' '''';
               tidbOutput = flagVar actual ''tidb-output'' '''';
               timongoOutput = flagVar actual ''timongo-output'' ''''
           in if input = '''' \<or> tidbOutput = '''' \<or> timongoOutput = '''' then
                (Returned (Err (PlainError ''-input, -tidb-output, and -timongo-output are required'')), fs)
              else
                apfst Returned
                  (bindS (osReadFile fault input) (\<lambda>raw.
                   bindS (liftS (SplitTopology Y raw)) (\<lambda>(tidbRaw, timongoRaw).
                   bindS (osWriteFile fault tidbOutput tidbRaw) (\<lambda>_.
                   osWriteFile fault timongoOutput timongoRaw))) fs)))"

definition writeHost :: "(string \<Rightarrow> goerr option) \<Rightarrow> string \<Rightarrow> string \<times> RenderedFiles \<Rightarrow> (files, unit) action" where
  "writeHost fault out entry =
     (case entry of (host, rendered) \<Rightarrow>
        let hostDir = pathJoin [out, host] in
        bindS (osMkdirAll fault hostDir) (\<lambda>_.
        bindS (osWriteFile fault (pathJoin [hostDir, ''timongo.toml'']) (rf_Config rendered)) (\<lambda>_.
        osWriteFile fault (pathJoin [hostDir, ''timongo.service'']) (rf_Service rendered))))"

definition hostLine :: "string \<times> RenderedFiles \<Rightarrow> string" where
  "hostLine entry =
     (case entry of (host, rendered) \<Rightarrow>
        host @ [CHR 0x09] @ rf_DeployDir rendered @ [CHR 0x09] @ rf_LogDir rendered @ [CHR 0x0A])"

definition runTiUPRenderTimongo ::
  "'a yamllib \<Rightarrow> (string \<Rightarrow> goerr option) \<Rightarrow> string list \<Rightarrow> files \<Rightarrow> unit res process \<times> files" where
  "runTiUPRenderTimongo Y fault args fs =
     (case parseFlags [''input'', ''output''] args [] of
        Exited code \<Rightarrow> (Exited code, fs)
      | Returned actual \<Rightarrow>
          (let input = flagVar actual ''input'' ''''; out = flagVar actual ''output'' ''''
           in if input = '''' \<or> out = '''' then
                (Returned (Err (PlainError ''-input and -output are required'')), fs)
              else
                apfst Returned
                  (bindS (osReadFile fault input) (\<lambda>raw.
                   bindS (liftS (ParseTopology Y raw)) (\<lambda>topo.
                   bindS (liftS (RenderTimongoFiles (Some topo))) (\<lambda>rendered.
                   bindS (osMkdirAll fault out) (\<lambda>_.
                   bindS (foldS (writeHost fault out) rendered) (\<lambda>_.
                   osWriteFile fault (pathJoin [out, ''hosts.tsv'']) (concat (map hostLine rendered))))))) fs)))"

definition tiupCommand ::
  "(string \<Rightarrow> string) \<Rightarrow> 'a yamllib \<Rightarrow> (string \<Rightarrow> goerr option) \<Rightarrow> string list \<Rightarrow> files \<Rightarrow> unit res process \<times> files" where
  "tiupCommand quote Y fault args fs =
     (case args of
        [] \<Rightarrow> (Returned (Err (PlainError ''usage: timongo tiup <split-topology|render-timongo> [flags]'')), fs)
      | cmd # rest \<Rightarrow>
          if cmd = ''split-topology'' then runTiUPSplitTopology Y fault rest fs
          else if cmd = ''render-timongo'' then runTiUPRenderTimongo Y fault rest fs
          else (Returned (Err (PlainError (''unknown tiup subcommand '' @ quote cmd))), fs))"

section \<open>The process\<close>

text \<open>\<^verbatim>\<open>log.Fatal\<close> ends the process with code 1, a panic with code 2.\<close>

fun exitCode :: "unit res process \<Rightarrow> nat" where
  "exitCode (Exited code) = code"
| "exitCode (Returned (Ok _)) = 0"
| "exitCode (Returned (Err _)) = 1"
| "exitCode (Returned (Panic _)) = 2"

text \<open>\<open>argv\<close> is \<^verbatim>\<open>os.Args\<close>; the configuration file is read from the files.\<close>

definition timongo_main ::
  "(string \<Rightarrow> string) \<Rightarrow> (string \<Rightarrow> fileConfig res) \<Rightarrow> 'j extjson \<Rightarrow> (string \<Rightarrow> ('q, 'j) sqldb \<times> unit res) \<Rightarrow>
   'q servers \<Rightarrow> 'a yamllib \<Rightarrow> (string \<Rightarrow> goerr option) \<Rightarrow>
   string list \<Rightarrow> files \<times> 'q \<Rightarrow> nat \<times> files \<times> 'q" where
  "timongo_main quote toml X dial listen Y fault argv state =
     (case (argv, state) of
        (_ # cmd # args, (fs, s)) \<Rightarrow>
          if cmd = ''serve'' then
            (let C = \<lparr>cl_ReadFile = (\<lambda>path. fst (osReadFile fault path fs)), cl_Toml = toml\<rparr>;
                 (p, s') = serve quote C X dial listen args s
             in (exitCode p, fs, s'))
          else if cmd = ''tiup'' then
            (let (p, fs') = tiupCommand quote Y fault args fs in (exitCode p, fs', s))
          else (2, fs, s)
      | (_, state) \<Rightarrow> (2, state))"

end
