(* ===== verification/Packaging_Bundle.thy ===== *)
theory Packaging_Bundle
  imports Timongo_Prelude
begin

text \<open>
  \<^verbatim>\<open>internal/packaging/bundle.go\<close>: the contents of the offline bundle and the TiUP command lines that build it.
\<close>

definition DefaultTiDBVersion :: string where "DefaultTiDBVersion = ''v8.5.6''"
definition DefaultOS :: string where "DefaultOS = ''linux''"
definition DefaultArch :: string where "DefaultArch = ''amd64''"

record BundleSpec =
  bs_TiDBVersion :: string
  bs_TimongoVersion :: string
  bs_OS :: string
  bs_Arch :: string
  bs_TiDBComponents :: "string list"
  bs_TiUPComponents :: "string list"
  bs_ToolkitIncludes :: "string list"

record BundleLayout =
  bl_Paths :: "string list"

definition DefaultBundleSpec :: BundleSpec where
  "DefaultBundleSpec =
     \<lparr>bs_TiDBVersion = DefaultTiDBVersion, bs_TimongoVersion = ''dev'', bs_OS = DefaultOS, bs_Arch = DefaultArch,
      bs_TiDBComponents =
        [''tidb'', ''tikv'', ''pd'', ''tiflash'', ''prometheus'', ''grafana'', ''alertmanager'', ''node_exporter'',
         ''blackbox_exporter''],
      bs_TiUPComponents = [''tiup'', ''cluster''],
      bs_ToolkitIncludes = [''br'', ''cdc'', ''dumpling'', ''tidb-lightning'', ''sync-diff-inspector'']\<rparr>"

text \<open>The loop that both membership tests run.\<close>

fun anyEquals :: "string list \<Rightarrow> string \<Rightarrow> bool" where
  "anyEquals [] x = False"
| "anyEquals (got # rest) x = (if got = x then True else anyEquals rest x)"

definition IncludesComponent :: "BundleSpec \<Rightarrow> string \<Rightarrow> bool" where
  "IncludesComponent s component = anyEquals (([] @ bs_TiDBComponents s) @ bs_TiUPComponents s) component"

definition Layout :: "BundleSpec \<Rightarrow> BundleLayout" where
  "Layout s =
     \<lparr>bl_Paths =
        [''README.md'', ''bin/timongo-server'', ''manifest/timongo-bundle.json'', ''tiup/mirror'',
         ''tiup/components/timongo/timongo-component.tar.gz'', ''tiup/examples/topology.yaml'',
         ''tiup/templates/timongo.toml.tmpl'', ''tiup/templates/timongo.service.tmpl'', ''tiup/templates/haproxy.cfg.tmpl'',
         ''scripts/install-local-mirror.sh'', ''scripts/deploy-all.sh'', ''scripts/deploy-tidb-cluster.sh'',
         ''scripts/deploy-timongo.sh'']\<rparr>"

definition Includes :: "BundleLayout \<Rightarrow> string \<Rightarrow> bool" where
  "Includes l path = anyEquals (bl_Paths l) path"

definition MirrorCloneArgs :: "BundleSpec \<Rightarrow> string \<Rightarrow> string list" where
  "MirrorCloneArgs s targetDir =
     [''mirror'', ''clone'', targetDir, bs_TiDBVersion s, ''--os='' @ bs_OS s, ''--arch='' @ bs_Arch s]"

definition PublishTimongoArgs :: "BundleSpec \<Rightarrow> string \<Rightarrow> string \<Rightarrow> string list" where
  "PublishTimongoArgs s tarball privateKey =
     [''mirror'', ''publish'', ''timongo'', bs_TimongoVersion s, tarball, ''timongo-server'', ''--standalone'',
      ''--os='' @ bs_OS s, ''--arch='' @ bs_Arch s, ''--key='' @ privateKey,
      ''--desc=timongo MongoDB 6.0 compatible gateway for TiDB '' @ bs_TiDBVersion s]"

lemma anyEquals_iff: "anyEquals xs x \<longleftrightarrow> x \<in> set xs"
  by (induction xs) auto

lemma IncludesComponent_iff:
  "IncludesComponent s component \<longleftrightarrow> component \<in> set (bs_TiDBComponents s) \<union> set (bs_TiUPComponents s)"
  by (simp add: IncludesComponent_def anyEquals_iff)

lemma Includes_iff: "Includes l path \<longleftrightarrow> path \<in> set (bl_Paths l)"
  by (simp add: Includes_def anyEquals_iff)

lemma Layout_paths_distinct: "distinct (bl_Paths (Layout s))"
  by (simp add: Layout_def)

end
