(* ===== verification/Spec2Isabelle.thy ===== *)
theory Spec2Isabelle
  imports Tidb_Shared Tidb_Update Request_Answers Command_Properties Packaging_Bundle
begin

text \<open>
  \<^bold>\<open>timongo\<close>, a server that speaks the MongoDB wire protocol and stores documents in TiDB.

  A request runs through the program as follows. \<^verbatim>\<open>cmd/timongo/main.go\<close> reads flags and a configuration file,
  opens a store and starts two servers. The wire server (\<^verbatim>\<open>internal/wire/server.go\<close>) accepts connections and
  decodes every message into a command document. The dispatcher (\<^verbatim>\<open>internal/handler/handler.go\<close>,
  \<^verbatim>\<open>internal/command/registry.go\<close>) picks a handler by the name of the command; the handler calls the storage
  interface (\<^verbatim>\<open>internal/backend/backend.go\<close>), which has two implementations, one in memory
  (\<^verbatim>\<open>internal/backend/memory/memory.go\<close>) and one over SQL (\<^verbatim>\<open>internal/backend/tidb\<close>). Both evaluate filters,
  updates and pipelines with \<^verbatim>\<open>internal/mql/mql.go\<close> and compute keys with \<^verbatim>\<open>internal/bsonutil/bsonutil.go\<close>. The
  reply is encoded and sent back. Beside this, the program splits and renders TiUP topologies
  (\<^verbatim>\<open>internal/tiup\<close>) and describes the offline bundle (\<^verbatim>\<open>internal/packaging\<close>).

  \<^bold>\<open>Theories.\<close>

  \<^item> \<open>Timongo_Prelude\<close>, \<open>Go_Float\<close>, \<open>Go_Value\<close>, \<open>Go_Os\<close>: the language and its standard library. Results are
    \<open>'a res\<close> (\<open>Ok\<close>, \<open>Err\<close>, \<open>Panic\<close>) and stateful code is \<open>('s, 'a) action\<close>, which returns the state also with an
    error. Go strings are byte lists, integers words of their width, floats exact binary numbers rounded
    to nearest even. Maps are association lists, updated by \<open>put\<close> and \<open>del\<close>.
  \<^item> \<open>Mql_Value\<close>, \<open>Mql_Match\<close>, \<open>Mql_Update\<close>, \<open>Mql_Pipeline\<close>: \<^verbatim>\<open>mql.go\<close>, one definition per function, operator
    and stage. The lemmas describe ranges, updates that keep \<^verbatim>\<open>_id\<close>, the window of \<^verbatim>\<open>$push\<close>, grouping, sorting,
    paging and projection, and which inputs make a slice expression panic. The locale \<open>fieldwise\<close> has the
    operators that change one field after the other.
  \<^item> \<open>Bson_Util\<close>: keys and normal forms.
  \<^item> \<open>Backend_Types\<close>: requests, results and \<open>store_ops\<close>, the table of operations of \<^verbatim>\<open>backend.Store\<close>.
  \<^item> \<open>Memory_Store\<close>: the in-memory backend; \<open>Memory_Invariant\<close>: what its operations keep; \<open>Memory_Spec\<close>: what they do;
    \<open>Memory_Properties\<close>: runs of operations.
  \<^item> \<open>Store_Contract\<close>: the locales \<open>store_contract\<close> and \<open>store_delete_contract\<close>, what handlers rely on of a backend;
    \<open>Handler_Contract\<close>: what commands do over any backend that keeps them. \<open>Memory_Spec\<close> and \<open>Tidb_Contract\<close> show that
    both backends do.
  \<^item> \<open>Command_Registry\<close>, \<open>Handler_Commands\<close>: errors, the table of handlers, dispatch and the handlers;
    \<open>Handler_Properties\<close>: their properties.
  \<^item> \<open>Handler_Invariant\<close>: the locale \<open>store_invariant\<close>, which carries an invariant of the operations of a backend to
    every command, undisturbed or not; \<open>Concurrent_Clients\<close>: its interpretations for the in-memory backend, and the
    commands that are not atomic.
  \<^item> \<open>Tidb_Schema\<close>, \<open>Sql_Database\<close>, \<open>Tidb_Sql\<close>, \<open>Tidb_Store\<close>: table names, the database as \<^verbatim>\<open>database/sql\<close> shows it, the
    statements, and the SQL backend with the catalog (\<^verbatim>\<open>internal/catalog/catalog.go\<close>). \<open>Sql_Contract\<close> states what TiDB
    documents of these statements; \<open>Sql_Reference\<close> is a database that keeps it; \<open>Tidb_Spec\<close>, \<open>Tidb_Contract\<close>
    and \<open>Tidb_Properties\<close> show what the backend does over any such database, failing or reliable; \<open>Tidb_Update\<close> shows what
    an update request with several operations leaves in a table;
    \<open>Tidb_Invariant\<close> and \<open>Tidb_Server\<close> show what every connection keeps of a database that may fail. \<open>Sql_Shared\<close>
    is the contract of a database that several servers use at once, and \<open>Tidb_Shared\<close> shows what survives this
    (keys, atomic inserts) and what does not (concurrent updates).
  \<^item> \<open>Wire_Server\<close>, \<open>Wire_Properties\<close>: decoding, replies, the loop of a connection and the accept loop;
    \<open>Server_Properties\<close>: the path of a request from its bytes to the store and back; \<open>Request_Answers\<close>: which requests
    are always answered and which can end the process, over either backend.
  \<^item> \<open>Config_File\<close>, \<open>Tiup_Topology\<close>, \<open>Tiup_Render\<close>, \<open>Status_Server\<close>, \<open>Command_Line\<close>, \<open>Packaging_Bundle\<close>: the files of
    \<^verbatim>\<open>internal/config\<close>, \<^verbatim>\<open>internal/tiup\<close>, \<^verbatim>\<open>internal/status\<close>, \<^verbatim>\<open>cmd/timongo\<close> and \<^verbatim>\<open>internal/packaging\<close>;
    \<open>Command_Properties\<close>: the command line as a whole, from a topology to a server bound to its database.
\<close>

text \<open>
  \<^bold>\<open>Parameters.\<close> Code that is not in the repository, and what the language leaves open, are arguments:
  \<open>goenv\<close> (printing of driver types, regular expressions, the clock, the order in which a map is visited),
  \<open>extjson\<close> (Extended JSON), \<open>sqldb\<close> (the SQL driver), \<open>wirelib\<close> (messages and BSON), \<open>configlib\<close> (reading a file, TOML),
  \<open>yamllib\<close> (YAML), and in \<open>Command_Line\<close> \<open>quote\<close> (\<^verbatim>\<open>%q\<close>), \<open>dial\<close> (the database of a data source name), \<open>listen\<close> (the two
  servers from their start to their end) and \<open>fault\<close> (which paths fail). Hypotheses on them are named:
  \<open>fair_iter\<close> (a loop over a map visits every entry once), \<open>sql_contract\<close> and \<open>sql_shared\<close> (what TiDB documents of a statement),
  \<open>sql_gateway\<close> (the same, with the statements of one server told from those of the others),
  \<open>calm_driver\<close> and \<open>wire_total\<close> (libraries do not panic), \<open>sizes_fit\<close>, \<open>decodes_wf\<close> and \<open>decodes_driver\<close> (what the driver decodes a
  message into), \<open>alike\<close> (two calls of one process print values in the same way).

  \<^bold>\<open>Orders and clocks.\<close> An association list stands for a map in the order of its list; where the program loops
  over a stored collection or over groups, the order is \<open>env_iter E i\<close> for the \<open>i\<close>-th loop of an operation,
  and a handler that calls the backend several times has an environment \<open>Es i\<close> for its \<open>i\<close>-th call.
  A sort goes by the field of its specification that the loop visits first, which is \<open>env_first E i\<close>, any of them. Other
  loops over the fields of one document, and over the rendered files, run in the order of the list.

  \<^bold>\<open>Concurrency.\<close> An operation of the in-memory backend holds the lock and is one step. Other clients are
  modelled by \<open>concurrent ops\<close>, whose state also holds the steps they take: before each operation of a
  command, the next batch of them runs. Every interleaving at operation granularity is such a list of batches.
  Where a theorem says that a step of another client ran in between, the state records it: \<open>with_log\<close> keeps the answers that other
  clients were given, and \<open>shared_db\<close> every statement that took effect and whether it was this server's.
  Over TiDB the steps are single statements: \<open>gateways\<close> is what other servers may do between two statements of a
  connection, and since every connection only does what \<open>gateways\<close> allows (\<open>gateways_keep_keys\<close>), the assumption about the
  others is what each server guarantees. A transaction of another server may be seen half done there, which is more
  than TiDB allows; what holds then holds for TiDB.

  \<^bold>\<open>Bounds.\<close> Loops are structural recursions, with one exception: the loop over a document sequence has fuel
  for its iterations. The number of bytes of the sequence is enough, since every document takes at least
  one; \<open>sequence_is_read_in_order\<close> proves it.

  \<^bold>\<open>Not modelled.\<close> The sharing of backing arrays between slices, and of maps between a stored document and a
  shallow clone; contexts, deadlines and signals; data races inside the libraries; the listeners of the two servers, their shutdown and logging; the text of
  \<^verbatim>\<open>usage\<close>; the shell scripts, the HAProxy template and the documents of the repository. The order in which
  \<^verbatim>\<open>render-timongo\<close> visits hosts is that of the topology, where Go leaves it open; file modes and directories are
  not part of the files. The SQL engine and the codecs of Extended JSON, YAML, TOML and BSON are parameters
  because their code is not in the repository.
\<close>

end
